(* ===== verification/Prelude.thy ===== *)
theory Prelude
  imports Main "HOL-Library.Sublist" "HOL-Library.AList" "HOL-Library.Word"
begin

text \<open>
  Shared vocabulary of the development: the types that stand for Go's bytes and integers, the
  theorem collections the component theories extend, and the generic lemmas on lists, prefixes
  and association lists that more than one component uses.
\<close>

section \<open>Types\<close>

text \<open>
  A Go byte is one of 256 values, and a Go string is a sequence of bytes, so both
  \<^verbatim>\<open>string\<close> and \<^verbatim>\<open>[]byte\<close> are lists of \<^typ>\<open>char\<close> (an HOL character is
  exactly eight bits). Where the code computes with a byte it is converted by
  \<^const>\<open>of_char\<close> to a word of the width the code uses.
\<close>

type_synonym byte = char
type_synonym bytes = "char list"
type_synonym u8 = "8 word"
type_synonym u16 = "16 word"
type_synonym u32 = "32 word"
type_synonym u64 = "64 word"

section \<open>Theorem collections\<close>

text \<open>
  \<open>go_lib\<close> collects the equations of the Go library model that component proofs rewrite with;
  \<open>stable\<close> collects the facts saying that a scan that has found its answer keeps it when more
  bytes arrive; \<open>frame\<close> collects the facts on fields an operation leaves alone.
\<close>

named_theorems go_lib
named_theorems stable
named_theorems frame

section \<open>Lists and prefixes\<close>

lemma prefix_append_stable [stable]: "prefix p s \<Longrightarrow> prefix p (s @ t)"
  by (rule prefix_prefix)

lemma prefix_appendD: "prefix p (s @ t) \<Longrightarrow> length p \<le> length s \<Longrightarrow> prefix p s"
  by (rule prefix_length_prefix [of p "s @ t" s]) auto

lemma take_append_le: "n \<le> length xs \<Longrightarrow> take n (xs @ ys) = take n xs"
  by simp

lemma drop_append_le: "n \<le> length xs \<Longrightarrow> drop n (xs @ ys) = drop n xs @ ys"
  by simp

lemma drop_eq_appendD: "drop n xs = ys @ zs \<Longrightarrow> drop (n + length ys) xs = zs"
  by (metis add.commute append_eq_conv_conj drop_drop)

section \<open>Bytes as words\<close>

lemma of_char_octet: "(of_char c :: nat) < 256"
  by (metis of_char_mod_256 mod_less_divisor zero_less_numeral)

lemma of_char_char_of_word:
  "(of_char (char_of (n :: nat)) :: 'a::len word) = take_bit 8 (of_nat n)"
proof -
  have "(of_char (char_of n) :: 'a word) = of_nat (of_char (char_of n))"
    by (simp only: of_nat_of_char)
  also have "\<dots> = of_nat (take_bit 8 n)" by (simp add: take_bit_eq_mod)
  finally show ?thesis by (simp add: of_nat_take_bit)
qed

lemma take_bit_of_char: "take_bit 8 (of_char c :: 'a::len word) = of_char c"
  using of_char_char_of_word [of "of_char c", where ?'a = 'a] by (simp add: of_nat_of_char)

lemma unat_of_char: "unat (of_char c :: u32) = of_char c"
proof -
  have "unat (of_char c :: u32) = unat (of_nat (of_char c) :: u32)" by (simp only: of_nat_of_char)
  also have "\<dots> = of_char c mod 2 ^ 32" by (simp add: unat_of_nat)
  also have "\<dots> = of_char c" by (intro mod_less) (rule less_le_trans [OF of_char_octet], simp)
  finally show ?thesis .
qed

text \<open>A byte read back from the low eight bits of a word.\<close>

lemma char_of_low_byte:
  assumes "take_bit 8 (w :: u32) = of_char c"
  shows "char_of (unat w) = c"
proof -
  have "(char_of (unat w) :: byte) = char_of (take_bit 8 (unat w))"
    by (simp add: take_bit_eq_mod)
  also have "take_bit 8 (unat w) = of_char c"
    using assms by (metis unat_of_char unsigned_take_bit_eq)
  finally show ?thesis by simp
qed

section \<open>Association lists as Go maps\<close>

text \<open>
  A Go map whose size the code reads is an association list with distinct keys:
  \<^const>\<open>map_of\<close> looks a key up, \<^const>\<open>AList.update\<close> and \<^const>\<open>AList.delete\<close> write
  it, and its length is the number of its entries.
\<close>

lemma map_of_update: "map_of (AList.update k v al) = (map_of al)(k \<mapsto> v)"
  by (rule update_conv')

lemma map_of_delete: "map_of (AList.delete k al) = (map_of al)(k := None)"
  by (rule delete_conv')

lemma length_update:
  "length (AList.update k v al) = (if map_of al k = None then Suc (length al) else length al)"
  by (induction al) auto

lemma length_delete_le: "length (AList.delete k al) \<le> length al"
  by (induction al) auto

lemma set_update_subset: "set (AList.update k v al) \<subseteq> insert (k, v) (set al)"
  by (induction al) auto

lemma set_delete_subset: "set (AList.delete k al) \<subseteq> set al"
  by (auto simp: AList.delete_eq)

lemma distinct_update: "distinct (map fst al) \<Longrightarrow> distinct (map fst (AList.update k v al))"
  by (rule AList.distinct_update)

lemma distinct_delete: "distinct (map fst al) \<Longrightarrow> distinct (map fst (AList.delete k al))"
  by (rule AList.distinct_delete)

end
