(* ===== verification/GoLib.thy ===== *)
theory GoLib
  imports Prelude
begin

text \<open>
  The part of Go and of its standard library the program computes with: 64-bit integers, slicing
  with its run-time check, and the functions of packages bytes, strings, fmt and net/url that the
  sources call. Unicode case mapping of a string with a byte above 127 is the one table that is
  not written out: it is the argument \<open>uni\<close> of \<open>ToLower\<close>.
\<close>

section \<open>Integers and slices\<close>

text \<open>
  Go's \<^verbatim>\<open>int\<close> has 64 bits on the platforms the program is built for (the build is for
  x86\_64); a sum wraps around. \<open>wrap64\<close> is applied where the sources add a number that
  comes from the network.
\<close>

definition wrap64 :: "int \<Rightarrow> int" where
  "wrap64 x = (x + 2 ^ 63) mod 2 ^ 64 - 2 ^ 63"

definition int64 :: "int \<Rightarrow> bool" where
  "int64 x \<longleftrightarrow> - (2 ^ 63) \<le> x \<and> x < 2 ^ 63"

lemma wrap64_id [go_lib]: "int64 x \<Longrightarrow> wrap64 x = x"
  by (simp add: wrap64_def int64_def)

lemma wrap64_range: "int64 (wrap64 x)"
  by (simp add: wrap64_def int64_def)

lemma wrap64_overflow: "2 ^ 63 \<le> x \<Longrightarrow> x < 2 ^ 64 \<Longrightarrow> wrap64 x = x - 2 ^ 64"
proof -
  assume *: "2 ^ 63 \<le> x" "x < 2 ^ 64"
  have "(x + 2 ^ 63) mod 2 ^ 64 = (x + 2 ^ 63 - 2 ^ 64) mod 2 ^ 64"
    by (simp only: minus_mod_self2)
  also from * have "\<dots> = x + 2 ^ 63 - 2 ^ 64" by (intro mod_pos_pos_trivial) auto
  finally show ?thesis by (simp add: wrap64_def)
qed

text \<open>
  The slice expression \<^verbatim>\<open>s[lo:hi]\<close>; \<open>None\<close> is the run-time panic. Go checks
  \<open>hi\<close> against the capacity, the model against the length: the sources only get past their own
  check against the length with an \<open>hi\<close> that is at most the length or is negative.
\<close>

definition go_slice :: "bytes \<Rightarrow> int \<Rightarrow> int \<Rightarrow> bytes option" where
  "go_slice s lo hi =
     (if 0 \<le> lo \<and> lo \<le> hi \<and> hi \<le> int (length s)
      then Some (take (nat hi - nat lo) (drop (nat lo) s)) else None)"

lemma go_slice_SomeD:
  assumes "go_slice s lo hi = Some t"
  shows "0 \<le> lo" "lo \<le> hi" "hi \<le> int (length s)" "length t = nat (hi - lo)"
    "t = take (nat hi - nat lo) (drop (nat lo) s)"
  using assms by (auto simp: go_slice_def split: if_splits)

lemma go_slice_bounds: "go_slice s lo hi = Some t \<Longrightarrow> 0 \<le> lo \<and> lo \<le> hi \<and> hi \<le> int (length s)"
  by (auto simp: go_slice_def split: if_splits)

lemma go_slice_append [stable]: "go_slice s lo hi = Some t \<Longrightarrow> go_slice (s @ u) lo hi = Some t"
  by (auto simp: go_slice_def split: if_splits)

lemma go_slice_None_append:
  "go_slice s lo hi = None \<Longrightarrow> hi \<le> int (length s) \<Longrightarrow> go_slice (s @ u) lo hi = None"
  by (auto simp: go_slice_def split: if_splits)

section \<open>Search and split\<close>

text \<open>\<open>Index s sep\<close> is bytes.Index: the first position of \<open>sep\<close>, \<open>None\<close> for -1.\<close>

fun Index :: "bytes \<Rightarrow> bytes \<Rightarrow> nat option" where
  "Index [] sep = (if sep = [] then Some 0 else None)"
| "Index (x # s) sep = (if prefix sep (x # s) then Some 0 else map_option Suc (Index s sep))"

definition IndexByte :: "bytes \<Rightarrow> byte \<Rightarrow> nat option" where
  "IndexByte s c = Index s [c]"

definition HasPrefix :: "bytes \<Rightarrow> bytes \<Rightarrow> bool" where
  "HasPrefix s p = prefix p s"

definition Contains :: "bytes \<Rightarrow> bytes \<Rightarrow> bool" where
  "Contains s sub \<longleftrightarrow> Index s sub \<noteq> None"

lemma Index_prefix: "Index s sep = Some i \<Longrightarrow> prefix sep (drop i s)"
  by (induction s sep arbitrary: i rule: Index.induct) (auto split: if_splits)

lemma Index_split: "Index s sep = Some i \<Longrightarrow> s = take i s @ sep @ drop (i + length sep) s"
  by (drule Index_prefix)
    (metis add.commute append_eq_conv_conj append_take_drop_id drop_drop prefixE)

lemma Index_bound: "Index s sep = Some i \<Longrightarrow> i + length sep \<le> length s"
  by (frule Index_prefix, drule prefix_length_le)
    (induction s sep arbitrary: i rule: Index.induct, auto split: if_splits dest: Index_prefix prefix_length_le)

lemma Index_append [stable]: "Index s sep = Some i \<Longrightarrow> Index (s @ t) sep = Some i"
proof (induction s sep arbitrary: i rule: Index.induct)
  case (1 sep)
  then show ?case by (cases t) (auto split: if_splits)
next
  case (2 x s sep)
  show ?case
  proof (cases "prefix sep (x # s)")
    case True
    with "2.prems" show ?thesis by (auto dest: prefix_append_stable)
  next
    case False
    with "2.prems" obtain j where j: "Index s sep = Some j" "i = Suc j" by auto
    from j(1) have "\<not> prefix sep (x # s @ t)"
      using False Index_bound [OF j(1)] by (metis append_Cons le_Suc_eq le_add2 le_trans length_Cons
        prefix_length_prefix prefixI)
    with False "2.IH" [OF False j(1)] j(2) show ?thesis by simp
  qed
qed

lemma Index_None_iff: "Index s sep = None \<longleftrightarrow> \<not> sublist sep s"
proof (induction s sep rule: Index.induct)
  case (2 x s sep)
  then show ?case by (auto simp: sublist_Cons_right)
qed simp

lemma Contains_iff [go_lib]: "Contains s sub \<longleftrightarrow> sublist sub s"
  by (simp add: Contains_def Index_None_iff)

text \<open>The first occurrence lies where the search first succeeds.\<close>

lemma Index_first:
  assumes "\<And>k. k < length a \<Longrightarrow> \<not> prefix sep (drop k (a @ sep @ b))"
  shows "Index (a @ sep @ b) sep = Some (length a)"
  using assms
proof (induction a)
  case Nil
  then show ?case by (cases "sep @ b") (auto simp flip: append_eq_Cons_conv, metis prefixI)
next
  case (Cons x a)
  have "\<not> prefix sep (x # a @ sep @ b)" using Cons.prems [of 0] by simp
  moreover have "Index (a @ sep @ b) sep = Some (length a)"
    by (rule Cons.IH) (use Cons.prems [of "Suc _"] in auto)
  ultimately show ?case by simp
qed

text \<open>A part that does not hold the separator's first byte is skipped over.\<close>

lemma Index_skip:
  "c \<notin> set a \<Longrightarrow> Index (a @ s) (c # sep) = map_option (\<lambda>i. length a + i) (Index s (c # sep))"
  by (induction a; cases "Index s (c # sep)") auto

lemma Index_here: "Index (sep @ s) sep = Some 0"
  by (cases sep; cases s) auto

lemma Index_after: "c \<notin> set a \<Longrightarrow> Index (a @ c # sep @ s) (c # sep) = Some (length a)"
  using Index_skip [of c a "c # sep @ s" sep] Index_here [of "c # sep" s] by simp

lemma Index_absent: "c \<notin> set a \<Longrightarrow> Index a (c # sep) = None"
  using Index_skip [of c a "[]" sep] by simp

text \<open>
  \<open>SplitN n s sep\<close> is bytes.SplitN for \<open>n \<ge> 0\<close> and a non-empty separator: at most \<open>n\<close> parts, the
  last one unsplit. A split without a limit is a split into at most \<open>length s + 1\<close> parts, which is
  the bound the Go library itself uses.
\<close>

fun SplitN :: "nat \<Rightarrow> bytes \<Rightarrow> bytes \<Rightarrow> bytes list" where
  "SplitN 0 s sep = []"
| "SplitN (Suc 0) s sep = [s]"
| "SplitN (Suc (Suc n)) s sep =
     (case Index s sep of
        None \<Rightarrow> [s]
      | Some i \<Rightarrow> take i s # SplitN (Suc n) (drop (i + length sep) s) sep)"

definition Split :: "bytes \<Rightarrow> bytes \<Rightarrow> bytes list" where
  "Split s sep = SplitN (Suc (length s)) s sep"

lemma SplitN_2:
  "SplitN 2 s sep =
     (case Index s sep of None \<Rightarrow> [s] | Some i \<Rightarrow> [take i s, drop (i + length sep) s])"
  by (simp add: numeral_2_eq_2 split: option.split)

lemma SplitN_3:
  "SplitN 3 s sep =
     (case Index s sep of None \<Rightarrow> [s] | Some i \<Rightarrow> take i s # SplitN 2 (drop (i + length sep) s) sep)"
  by (simp add: numeral_3_eq_3 numeral_2_eq_2 split: option.split)

lemma SplitN_nonempty: "0 < n \<Longrightarrow> SplitN n s sep \<noteq> []"
  by (induction n s sep rule: SplitN.induct) (auto split: option.splits)

lemma SplitN_enough:
  "sep \<noteq> [] \<Longrightarrow> length s < n \<Longrightarrow> length s < m \<Longrightarrow> SplitN n s sep = SplitN m s sep"
proof (induction n s sep arbitrary: m rule: SplitN.induct)
  case (3 n s sep)
  show ?case
  proof (cases "Index s sep")
    case None
    with "3.prems" show ?thesis by (cases m; cases "m - 1") auto
  next
    case (Some i)
    let ?r = "drop (i + length sep) s"
    from Index_bound [OF Some] "3.prems"(1) have len: "length ?r < length s"
      by (cases sep) auto
    with "3.prems"(3) obtain k where k: "m = Suc (Suc k)"
      by (cases m; cases "m - 1") auto
    have "SplitN (Suc n) ?r sep = SplitN (Suc k) ?r sep"
      by (rule "3.IH" [OF Some "3.prems"(1)]) (use len "3.prems"(2,3) k in auto)
    with Some k show ?thesis by simp
  qed
next
  case (2 s sep)
  then show ?case by (cases m; cases "m - 1") auto
qed auto

lemma Split_rec:
  assumes "sep \<noteq> []"
  shows "Split s sep =
    (case Index s sep of None \<Rightarrow> [s]
     | Some i \<Rightarrow> take i s # Split (drop (i + length sep) s) sep)"
proof (cases "Index s sep")
  case None
  then show ?thesis by (cases "length s") (simp_all add: Split_def)
next
  case (Some i)
  from Index_bound [OF Some] assms obtain k where k: "length s = Suc k"
    by (cases "length s") auto
  let ?r = "drop (i + length sep) s"
  from assms have "0 < length sep" by simp
  with k Index_bound [OF Some] have "length ?r < Suc k" by simp
  then have "SplitN (Suc k) ?r sep = SplitN (Suc (length ?r)) ?r sep"
    by (intro SplitN_enough assms lessI)
  with Some k show ?thesis by (simp add: Split_def)
qed

lemma Split_nonempty [simp]: "Split s sep \<noteq> []"
  by (simp add: Split_def SplitN_nonempty)

end
