(* ===== verification/Parsers.thy ===== *)
theory Parsers
  imports GoLib
begin

text \<open>
  The outcome of a parser that reads a prefix of a connection's buffer, the loop in which the
  sniffer calls it until it fails, and the two contracts such a parser can meet: every success
  consumes something (\<open>stream_parser\<close>), and a success does not change when more bytes arrive
  (\<open>stable_parser\<close>). The loop's termination and its independence of how the stream was cut into
  reads are proved once, from the contracts.
\<close>

section \<open>Outcomes\<close>

text \<open>
  \<open>Panic\<close> is a Go run-time panic, which ends the process; \<open>NotOk\<close> is the return
  \<^verbatim>\<open>nil, false\<close>, after which the buffer is as before; \<open>Ok\<close> is a success.
\<close>

datatype 'a outcome = Panic | NotOk | Ok 'a

fun bind_ok :: "'a outcome \<Rightarrow> ('a \<Rightarrow> 'b outcome) \<Rightarrow> 'b outcome" where
  "bind_ok Panic f = Panic"
| "bind_ok NotOk f = NotOk"
| "bind_ok (Ok x) f = f x"

fun of_option :: "'a option \<Rightarrow> 'a outcome" where
  "of_option None = NotOk"
| "of_option (Some x) = Ok x"

lemma bind_ok_Ok_iff: "bind_ok m f = Ok y \<longleftrightarrow> (\<exists>x. m = Ok x \<and> f x = Ok y)"
  by (cases m) auto

lemma bind_ok_Panic_iff: "bind_ok m f = Panic \<longleftrightarrow> m = Panic \<or> (\<exists>x. m = Ok x \<and> f x = Panic)"
  by (cases m) auto

section \<open>The parse loop\<close>

text \<open>
  \<open>parse_all p s\<close> calls \<open>p\<close> on the buffer until it does not succeed: the values parsed, what is
  left in the buffer, and whether the loop ended in a panic. \<open>None\<close> is a loop that never ends.
\<close>

partial_function (option) parse_all ::
  "(bytes \<Rightarrow> ('r \<times> bytes) outcome) \<Rightarrow> bytes \<Rightarrow> ('r list \<times> bytes \<times> bool) option" where
  "parse_all p s =
     (case p s of
        Panic \<Rightarrow> Some ([], s, True)
      | NotOk \<Rightarrow> Some ([], s, False)
      | Ok (r, t) \<Rightarrow> Option.bind (parse_all p t) (\<lambda>(rs, u, b). Some (r # rs, u, b)))"

lemma parse_all_Ok:
  "p s = Ok (r, t) \<Longrightarrow> parse_all p s = map_option (\<lambda>(rs, u, b). (r # rs, u, b)) (parse_all p t)"
  by (subst parse_all.simps) (cases "parse_all p t"; auto)

lemma parse_all_NotOk: "p s = NotOk \<Longrightarrow> parse_all p s = Some ([], s, False)"
  by (subst parse_all.simps) simp

lemma parse_all_Panic: "p s = Panic \<Longrightarrow> parse_all p s = Some ([], s, True)"
  by (subst parse_all.simps) simp

section \<open>Contracts\<close>

locale stream_parser =
  fixes parse :: "bytes \<Rightarrow> ('r \<times> bytes) outcome"
  assumes consumes: "parse s = Ok (r, t) \<Longrightarrow> \<exists>u. u \<noteq> [] \<and> s = u @ t"
begin

lemma shorter: "parse s = Ok (r, t) \<Longrightarrow> length t < length s"
  using consumes by fastforce

lemma loop_ends: "parse_all parse s \<noteq> None"
proof (induction s rule: length_induct)
  case (1 s)
  show ?case
  proof (cases "parse s")
    case (Ok x)
    then obtain r t where *: "parse s = Ok (r, t)" by (cases x) auto
    with "1.IH" shorter have "parse_all parse t \<noteq> None" by blast
    with * show ?thesis by (simp add: parse_all_Ok)
  qed (simp_all add: parse_all_NotOk parse_all_Panic)
qed

text \<open>What the loop leaves is a suffix of what it was given, and it parses no further.\<close>

lemma loop_leaves:
  "parse_all parse s = Some (rs, u, b) \<Longrightarrow>
     suffix u s \<and> parse u = (if b then Panic else NotOk) \<and> length rs + length u \<le> length s"
proof (induction s arbitrary: rs rule: length_induct)
  case (1 s)
  show ?case
  proof (cases "parse s")
    case (Ok x)
    then obtain r t where *: "parse s = Ok (r, t)" by (cases x) auto
    with "1.prems" obtain rs' where rs': "parse_all parse t = Some (rs', u, b)" "rs = r # rs'"
      by (auto simp: parse_all_Ok)
    from shorter [OF *] "1.IH" rs'(1)
    have "suffix u t \<and> parse u = (if b then Panic else NotOk) \<and> length rs' + length u \<le> length t"
      by blast
    with shorter [OF *] consumes [OF *] rs'(2) show ?thesis by (auto intro: suffix_appendI)
  qed (use "1.prems" in \<open>auto simp: parse_all_NotOk parse_all_Panic\<close>)
qed

lemma loop_total:
  "\<exists>rs u b. parse_all parse s = Some (rs, u, b) \<and>
     suffix u s \<and> parse u = (if b then Panic else NotOk) \<and> length rs + length u \<le> length s"
proof -
  obtain rs u b where *: "parse_all parse s = Some (rs, u, b)"
    using loop_ends [of s] by auto
  show ?thesis by (rule exI [of _ rs], rule exI [of _ u], rule exI [of _ b])
    (use * loop_leaves [OF *] in blast)
qed

end

locale stable_parser = stream_parser +
  assumes stable: "parse s = Ok (r, t) \<Longrightarrow> parse (s @ e) = Ok (r, t @ e)"
begin

text \<open>
  Reading \<open>s\<close>, running the loop, then reading \<open>e\<close> and running it again parses what one run over
  \<open>s @ e\<close> parses.
\<close>

lemma loop_append:
  "parse_all parse s = Some (rs, u, False) \<Longrightarrow>
   parse_all parse (s @ e) = map_option (\<lambda>(rs', v, b). (rs @ rs', v, b)) (parse_all parse (u @ e))"
proof (induction s arbitrary: rs rule: length_induct)
  case (1 s)
  show ?case
  proof (cases "parse s")
    case (Ok x)
    then obtain r t where *: "parse s = Ok (r, t)" by (cases x) auto
    with "1.prems" obtain rs' where rs': "parse_all parse t = Some (rs', u, False)" "rs = r # rs'"
      by (auto simp: parse_all_Ok)
    have "parse_all parse (t @ e)
        = map_option (\<lambda>(rs'', v, b). (rs' @ rs'', v, b)) (parse_all parse (u @ e))"
      using shorter [OF *] "1.IH" rs'(1) by blast
    with stable [OF *, of e] rs'(2) show ?thesis
      by (simp add: parse_all_Ok option.map_comp comp_def split_def)
  qed (use "1.prems" in \<open>auto simp: parse_all_NotOk parse_all_Panic split_def option.map_ident\<close>)
qed

text \<open>A buffer whose bytes are the concatenation of parseable messages yields them in order.\<close>

lemma loop_messages:
  "list_all2 (\<lambda>m r. parse m = Ok (r, [])) ms rs \<Longrightarrow> parse [] = NotOk \<Longrightarrow>
     parse_all parse (concat ms) = Some (rs, [], False)"
proof (induction ms rs rule: list_all2_induct)
  case Nil
  then show ?case by (simp add: parse_all_NotOk)
next
  case (Cons m ms r rs)
  from stable [OF Cons.hyps(1), of "concat ms"] Cons show ?case by (simp add: parse_all_Ok)
qed

end

end
