(* ===== verification/GoText.thy ===== *)
theory GoText
  imports GoLib
begin

text \<open>
  Text functions of the Go library: trimming of white space (bytes.TrimSpace, strings.TrimSpace),
  case mapping (strings.ToLower), integer scanning (fmt.Sscanf with \<open>%d\<close> and \<open>%x\<close>) and
  query unescaping (net/url). The lemmas say when each leaves its argument alone, that trimming is
  idempotent, and that a printed number is scanned back.
\<close>

section \<open>White space\<close>

text \<open>
  The UTF-8 encodings of the code points unicode.IsSpace accepts, which are also those the
  scanner of package fmt skips: U+0009 to U+000D, U+0020, U+0085, U+00A0, U+1680, U+2000 to
  U+200A, U+2028, U+2029, U+202F, U+205F and U+3000.
\<close>

definition space_seqs :: "bytes list" where
  "space_seqs =
     [[CHR 0x20], [CHR 0x09], [CHR 0x0A], [CHR 0x0B], [CHR 0x0C], [CHR 0x0D],
      [CHR 0xC2, CHR 0x85], [CHR 0xC2, CHR 0xA0], [CHR 0xE1, CHR 0x9A, CHR 0x80],
      [CHR 0xE2, CHR 0x80, CHR 0x80], [CHR 0xE2, CHR 0x80, CHR 0x81], [CHR 0xE2, CHR 0x80, CHR 0x82],
      [CHR 0xE2, CHR 0x80, CHR 0x83], [CHR 0xE2, CHR 0x80, CHR 0x84], [CHR 0xE2, CHR 0x80, CHR 0x85],
      [CHR 0xE2, CHR 0x80, CHR 0x86], [CHR 0xE2, CHR 0x80, CHR 0x87], [CHR 0xE2, CHR 0x80, CHR 0x88],
      [CHR 0xE2, CHR 0x80, CHR 0x89], [CHR 0xE2, CHR 0x80, CHR 0x8A], [CHR 0xE2, CHR 0x80, CHR 0xA8],
      [CHR 0xE2, CHR 0x80, CHR 0xA9], [CHR 0xE2, CHR 0x80, CHR 0xAF], [CHR 0xE2, CHR 0x81, CHR 0x9F],
      [CHR 0xE3, CHR 0x80, CHR 0x80]]"

definition leading_space :: "bytes \<Rightarrow> bytes option" where
  "leading_space s = find (\<lambda>q. prefix q s) space_seqs"

definition trailing_space :: "bytes \<Rightarrow> bytes option" where
  "trailing_space s = find (\<lambda>q. suffix q s) space_seqs"

lemma space_seqs_nonempty: "q \<in> set space_seqs \<Longrightarrow> q \<noteq> []"
  by (auto simp: space_seqs_def)

lemma leading_space_SomeD: "leading_space s = Some q \<Longrightarrow> prefix q s \<and> q \<in> set space_seqs \<and> q \<noteq> []"
  by (auto simp: leading_space_def find_Some_iff in_set_conv_nth dest: space_seqs_nonempty [OF nth_mem])

lemma trailing_space_SomeD: "trailing_space s = Some q \<Longrightarrow> suffix q s \<and> q \<in> set space_seqs \<and> q \<noteq> []"
  by (auto simp: trailing_space_def find_Some_iff in_set_conv_nth dest: space_seqs_nonempty [OF nth_mem])

lemma leading_space_None_iff: "leading_space s = None \<longleftrightarrow> (\<forall>q \<in> set space_seqs. \<not> prefix q s)"
  by (auto simp: leading_space_def find_None_iff)

lemma trailing_space_None_iff: "trailing_space s = None \<longleftrightarrow> (\<forall>q \<in> set space_seqs. \<not> suffix q s)"
  by (auto simp: trailing_space_def find_None_iff)

lemma leading_space_shorter: "leading_space s = Some q \<Longrightarrow> length s - length q < length s"
  by (cases s) (auto dest!: leading_space_SomeD)

lemma trailing_space_shorter: "trailing_space s = Some q \<Longrightarrow> length s - length q < length s"
  by (cases s) (auto dest!: trailing_space_SomeD)

function TrimLeft :: "bytes \<Rightarrow> bytes" where
  "TrimLeft s = (case leading_space s of None \<Rightarrow> s | Some q \<Rightarrow> TrimLeft (drop (length q) s))"
  by pat_completeness auto
termination
  by (relation "measure length") (auto dest: leading_space_shorter)

function TrimRight :: "bytes \<Rightarrow> bytes" where
  "TrimRight s =
     (case trailing_space s of None \<Rightarrow> s | Some q \<Rightarrow> TrimRight (take (length s - length q) s))"
  by pat_completeness auto
termination
  by (relation "measure length") (auto dest: trailing_space_shorter)

declare TrimLeft.simps [simp del] TrimRight.simps [simp del]

definition TrimSpace :: "bytes \<Rightarrow> bytes" where
  "TrimSpace s = TrimRight (TrimLeft s)"

definition trimmed :: "bytes \<Rightarrow> bool" where
  "trimmed s \<longleftrightarrow> leading_space s = None \<and> trailing_space s = None"

lemma TrimLeft_leading: "leading_space (TrimLeft s) = None"
proof (induction s rule: TrimLeft.induct)
  case (1 s)
  then show ?case by (cases "leading_space s") (simp_all add: TrimLeft.simps [of s])
qed

lemma TrimRight_trailing: "trailing_space (TrimRight s) = None"
proof (induction s rule: TrimRight.induct)
  case (1 s)
  then show ?case by (cases "trailing_space s") (simp_all add: TrimRight.simps [of s])
qed

lemma TrimRight_prefix: "prefix (TrimRight s) s"
proof (induction s rule: TrimRight.induct)
  case (1 s)
  show ?case
  proof (cases "trailing_space s")
    case (Some q)
    with "1.IH" have "prefix (TrimRight s) (take (length s - length q) s)"
      by (simp add: TrimRight.simps [of s])
    then show ?thesis by (rule prefix_order.trans) (rule take_is_prefix)
  qed (simp add: TrimRight.simps [of s])
qed

lemma leading_space_prefix_None: "prefix t s \<Longrightarrow> leading_space s = None \<Longrightarrow> leading_space t = None"
  by (auto simp: leading_space_None_iff dest: prefix_order.trans)

lemma trimmed_TrimSpace: "trimmed (TrimSpace s)"
  using leading_space_prefix_None [OF TrimRight_prefix TrimLeft_leading [of s]]
  by (simp add: trimmed_def TrimSpace_def TrimRight_trailing)

lemma TrimSpace_id [go_lib]: "trimmed s \<Longrightarrow> TrimSpace s = s"
  by (simp add: trimmed_def TrimSpace_def TrimLeft.simps [of s] TrimRight.simps [of s])

lemma TrimSpace_idem: "TrimSpace (TrimSpace s) = TrimSpace s"
  by (rule TrimSpace_id) (rule trimmed_TrimSpace)

lemma TrimSpace_space: "TrimSpace (CHR '' '' # s) = TrimSpace s"
proof -
  have "leading_space (CHR '' '' # s) = Some [CHR '' '']"
    by (simp add: leading_space_def space_seqs_def)
  then show ?thesis by (simp add: TrimSpace_def TrimLeft.simps [of "CHR '' '' # s"])
qed

text \<open>A first byte that starts no encoding of a space is enough to stop the trimming.\<close>

definition graphic :: "byte \<Rightarrow> bool" where
  "graphic c \<longleftrightarrow> 33 \<le> (of_char c :: nat) \<and> (of_char c :: nat) < 127"

lemma graphic_not_space:
  assumes "graphic c" "q \<in> set space_seqs"
  shows "hd q \<noteq> c" "last q \<noteq> c"
  using assms by (auto simp: graphic_def space_seqs_def)

lemma graphic_leading: "graphic c \<Longrightarrow> leading_space (c # s) = None"
  by (auto simp: leading_space_None_iff prefix_Cons dest: space_seqs_nonempty graphic_not_space(1))

lemma graphic_trailing: "graphic c \<Longrightarrow> trailing_space (s @ [c]) = None"
  by (auto simp: trailing_space_None_iff suffix_snoc dest: space_seqs_nonempty graphic_not_space(2))

lemma trimmed_graphic: "list_all graphic s \<Longrightarrow> trimmed s"
proof (cases s rule: rev_cases)
  case Nil
  then show ?thesis
    by (auto simp: trimmed_def leading_space_None_iff trailing_space_None_iff dest: space_seqs_nonempty)
next
  case (snoc t c)
  assume "list_all graphic s"
  with snoc have "trailing_space s = None" by (simp add: graphic_trailing)
  moreover from \<open>list_all graphic s\<close> snoc have "leading_space s = None"
    by (cases t) (auto simp: graphic_leading)
  ultimately show ?thesis by (simp add: trimmed_def)
qed

section \<open>Case mapping\<close>

definition ascii :: "byte \<Rightarrow> bool" where
  "ascii c \<longleftrightarrow> (of_char c :: nat) < 128"

text \<open>
  Bit 5 tells an ASCII letter's case. \<open>ToLower\<close> follows strings.ToLower: a string of ASCII bytes
  is mapped byte by byte, any other one goes through the Unicode tables, the argument \<open>uni\<close>.
\<close>

definition is_upper :: "byte \<Rightarrow> bool" where
  "is_upper c \<longleftrightarrow> 65 \<le> (of_char c :: nat) \<and> (of_char c :: nat) \<le> 90"

fun set_bit5 :: "byte \<Rightarrow> byte" where
  "set_bit5 (Char b0 b1 b2 b3 b4 b5 b6 b7) = Char b0 b1 b2 b3 b4 True b6 b7"

definition lower_byte :: "byte \<Rightarrow> byte" where
  "lower_byte c = (if is_upper c then set_bit5 c else c)"

definition ToLower :: "(bytes \<Rightarrow> bytes) \<Rightarrow> bytes \<Rightarrow> bytes" where
  "ToLower uni s = (if list_all ascii s then map lower_byte s else uni s)"

lemma lower_byte_idem: "lower_byte (lower_byte c) = lower_byte c"
  by (cases c) (auto simp: lower_byte_def)

lemma is_upper_lower_byte: "\<not> is_upper (lower_byte c)"
proof (cases "is_upper c")
  case True
  then show ?thesis
    by (cases c) (auto simp: lower_byte_def is_upper_def of_char_def split: if_splits)
qed (simp add: lower_byte_def)

lemma ascii_lower_byte: "ascii c \<Longrightarrow> ascii (lower_byte c)"
  by (cases c) (auto simp: lower_byte_def ascii_def)

definition lower_ascii :: "bytes \<Rightarrow> bool" where
  "lower_ascii s \<longleftrightarrow> list_all (\<lambda>c. ascii c \<and> \<not> is_upper c) s"

lemma ToLower_id [go_lib]: "lower_ascii s \<Longrightarrow> ToLower uni s = s"
  by (auto simp: lower_ascii_def ToLower_def lower_byte_def list_all_iff intro!: map_idI)

section \<open>Numbers\<close>

definition digit_val :: "nat \<Rightarrow> byte \<Rightarrow> nat option" where
  "digit_val base c =
     (let n = of_char c :: nat in
      if 48 \<le> n \<and> n \<le> 57 then Some (n - 48)
      else if base = 16 \<and> 97 \<le> n \<and> n \<le> 102 then Some (n - 87)
      else if base = 16 \<and> 65 \<le> n \<and> n \<le> 70 then Some (n - 55)
      else None)"

definition is_digit :: "nat \<Rightarrow> byte \<Rightarrow> bool" where
  "is_digit base c \<longleftrightarrow> digit_val base c \<noteq> None"

definition digits_val :: "nat \<Rightarrow> bytes \<Rightarrow> nat" where
  "digits_val base ds = foldl (\<lambda>a c. a * base + the (digit_val base c)) 0 ds"

text \<open>
  \<open>SkipSpace\<close> is the scanner's: it stops at a byte that starts no space and fails at a line feed.
  \<open>Sscanf_int base s\<close> is the number that fmt.Sscanf stores for \<open>%d\<close> (base 10) or \<open>%x\<close> (base 16) into
  an \<^verbatim>\<open>int\<close>; \<open>None\<close> is its error return, after which the target keeps its old value.
  A sign is accepted in both bases; what follows the digits is ignored.
\<close>

function SkipSpace :: "bytes \<Rightarrow> bytes option" where
  "SkipSpace s =
     (if prefix [CHR 0x0A] s then None
      else case leading_space s of None \<Rightarrow> Some s | Some q \<Rightarrow> SkipSpace (drop (length q) s))"
  by pat_completeness auto
termination
  by (relation "measure length") (auto dest: leading_space_shorter)

declare SkipSpace.simps [simp del]

definition take_sign :: "bytes \<Rightarrow> bool \<times> bytes" where
  "take_sign s =
     (case s of
        [] \<Rightarrow> (False, [])
      | c # t \<Rightarrow> if c = CHR ''-'' then (True, t) else if c = CHR ''+'' then (False, t) else (False, s))"

definition Sscanf_int :: "nat \<Rightarrow> bytes \<Rightarrow> int option" where
  "Sscanf_int base s =
     (case SkipSpace s of
        None \<Rightarrow> None
      | Some t \<Rightarrow>
          (let (neg, u) = take_sign t; ds = takeWhile (is_digit base) u;
               v = (if neg then - int (digits_val base ds) else int (digits_val base ds))
           in if ds = [] then None else if int64 v then Some v else None))"

lemma Sscanf_int_range: "Sscanf_int base s = Some v \<Longrightarrow> int64 v"
  by (auto simp: Sscanf_int_def Let_def split: option.splits prod.splits if_splits)

text \<open>Printing in base 10 or 16, for the round trips: the most significant digit first.\<close>

definition digit_char :: "nat \<Rightarrow> byte" where
  "digit_char d = ''0123456789abcdef'' ! d"

function print_nat :: "nat \<Rightarrow> nat \<Rightarrow> bytes" where
  "print_nat base n =
     (if base \<le> 1 \<or> n < base then [digit_char n]
      else print_nat base (n div base) @ [digit_char (n mod base)])"
  by pat_completeness auto
termination
  by (relation "measure snd") auto

declare print_nat.simps [simp del]

lemma less_16_cases:
  assumes "(d::nat) < 16"
  shows "d \<in> {0, 1, 2, 3, 4, 5, 6, 7, 8, 9, 10, 11, 12, 13, 14, 15}"
  using assms by (simp, presburger)

lemma digit_val_char [go_lib]: "base = 10 \<or> base = 16 \<Longrightarrow> d < base \<Longrightarrow> digit_val base (digit_char d) = Some d"
  using less_16_cases [of d] by (auto simp: digit_val_def digit_char_def)

lemma digit_char_graphic: "d < 16 \<Longrightarrow> graphic (digit_char d)"
  using less_16_cases [of d] by (auto simp: graphic_def digit_char_def)

lemma digit_char_no_sign: "d < 16 \<Longrightarrow> digit_char d \<noteq> CHR ''-'' \<and> digit_char d \<noteq> CHR ''+''"
  using less_16_cases [of d] by (auto simp: digit_char_def)

lemma print_nat_nonempty: "print_nat base n \<noteq> []"
  by (subst print_nat.simps) simp

lemma print_nat_digits:
  assumes "base = 10 \<or> base = 16"
  shows "\<forall>c \<in> set (print_nat base n). \<exists>d < base. c = digit_char d"
  using assms
proof (induction base n rule: print_nat.induct)
  case (1 base n)
  show ?case
  proof (cases "base \<le> 1 \<or> n < base")
    case True
    then show ?thesis using "1.prems" by (auto simp: print_nat.simps [of base n])
  next
    case False
    then have "n mod base < base" by simp
    then have "\<exists>d < base. digit_char (n mod base) = digit_char d" by blast
    with False "1.IH" "1.prems" show ?thesis by (simp add: print_nat.simps [of base n])
  qed
qed

lemma digits_val_snoc: "digits_val base (ds @ [c]) = digits_val base ds * base + the (digit_val base c)"
  by (simp add: digits_val_def)

lemma digits_val_print_nat [go_lib]:
  assumes "base = 10 \<or> base = 16"
  shows "digits_val base (print_nat base n) = n"
  using assms
proof (induction base n rule: print_nat.induct)
  case (1 base n)
  show ?case
  proof (cases "n < base")
    case True
    with "1.prems" show ?thesis
      by (simp add: print_nat.simps [of base n] digits_val_def digit_val_char)
  next
    case False
    then have "n mod base < base" using "1.prems" by auto
    with False "1.IH" "1.prems" show ?thesis
      by (auto simp: print_nat.simps [of base n] digits_val_snoc digit_val_char)
  qed
qed

lemma SkipSpace_graphic [go_lib]: "graphic c \<Longrightarrow> SkipSpace (c # s) = Some (c # s)"
  by (auto simp: SkipSpace.simps [of "c # s"] graphic_leading graphic_def)

lemma print_nat_Cons:
  assumes "base = 10 \<or> base = 16"
  obtains c ds where "print_nat base n = c # ds" "graphic c" "c \<noteq> CHR ''-''" "c \<noteq> CHR ''+''"
proof -
  obtain c ds where *: "print_nat base n = c # ds"
    using print_nat_nonempty by (cases "print_nat base n") auto
  then obtain d where "d < base" "c = digit_char d"
    using print_nat_digits [OF assms, of n] by auto
  with assms digit_char_graphic [of d] digit_char_no_sign [of d] * show ?thesis
    by (intro that [of c ds]) auto
qed

text \<open>A printed number is scanned back, whatever follows it but a digit.\<close>

lemma Sscanf_print_nat:
  assumes base: "base = 10 \<or> base = 16" and n: "n < 2 ^ 63"
    and rest: "takeWhile (is_digit base) r = []"
  shows "Sscanf_int base (print_nat base n @ r) = Some (int n)"
proof -
  obtain c ds where c: "print_nat base n = c # ds" "graphic c" "c \<noteq> CHR ''-''" "c \<noteq> CHR ''+''"
    by (rule print_nat_Cons [OF base])
  have digits: "\<forall>x \<in> set (print_nat base n). is_digit base x"
    using print_nat_digits [OF base, of n] base by (auto simp: is_digit_def digit_val_char)
  have "takeWhile (is_digit base) (print_nat base n @ r) = print_nat base n"
    using digits rest by (simp add: takeWhile_append2)
  moreover have "int64 (int n)"
    using n by (simp add: int64_def)
  moreover have "SkipSpace (print_nat base n @ r) = Some (print_nat base n @ r)"
    by (simp add: c SkipSpace_graphic)
  moreover have "take_sign (print_nat base n @ r) = (False, print_nat base n @ r)"
    by (simp add: c take_sign_def)
  ultimately show ?thesis
    by (simp add: Sscanf_int_def print_nat_nonempty digits_val_print_nat [OF base])
qed

section \<open>Query unescaping\<close>

text \<open>
  \<open>QueryUnescape\<close> is url.QueryUnescape: a percent sign must be followed by two hexadecimal
  digits, whose value becomes a byte; a plus sign becomes a space; \<open>None\<close> is its error.
\<close>

definition byte_of :: "nat \<Rightarrow> byte" where
  "byte_of n = char_of n"

fun QueryUnescape :: "bytes \<Rightarrow> bytes option" where
  "QueryUnescape [] = Some []"
| "QueryUnescape (c # s) =
     (if c = CHR ''%'' then
        (case s of
           a # b # t \<Rightarrow>
             (case (digit_val 16 a, digit_val 16 b) of
                (Some x, Some y) \<Rightarrow> map_option ((#) (byte_of (16 * x + y))) (QueryUnescape t)
              | _ \<Rightarrow> None)
         | _ \<Rightarrow> None)
      else if c = CHR ''+'' then map_option ((#) (CHR '' '')) (QueryUnescape s)
      else map_option ((#) c) (QueryUnescape s))"

lemma QueryUnescape_plain [go_lib]:
  "CHR ''%'' \<notin> set s \<Longrightarrow> QueryUnescape s = Some (map (\<lambda>c. if c = CHR ''+'' then CHR '' '' else c) s)"
  by (induction s) auto

section \<open>Evaluation\<close>

text \<open>The equations that evaluate the text functions on literals.\<close>

lemmas text_eval =
  Split_def IndexByte_def Contains_def HasPrefix_def
  leading_space_def trailing_space_def space_seqs_def suffix_to_prefix
  TrimSpace_def TrimLeft.simps TrimRight.simps
  ToLower_def ascii_def lower_byte_def is_upper_def
  Sscanf_int_def SkipSpace.simps take_sign_def digit_val_def is_digit_def digits_val_def int64_def
  SplitN_2 SplitN_3

end
