(* ===== verification/Http1.thy ===== *)
theory Http1
  imports Parsers GoText
begin

text \<open>
  The HTTP/1.x parser, \<^verbatim>\<open>internal/parser/http1.go\<close>: ParseRequest and ParseResponse on the
  bytes buffered for one direction of a connection. Each is modelled as a function from the
  buffer to its outcome, \<open>Ok (message, rest)\<close> when it returns a message and advances the buffer
  to \<open>rest\<close>, and otherwise \<open>NotOk\<close>, which leaves the buffer, or a panic.
\<close>

section \<open>Data\<close>

record HTTPRequest =
  req_Method :: bytes
  req_Path :: bytes
  req_Version :: bytes
  req_Headers :: "bytes \<rightharpoonup> bytes"
  req_Body :: bytes

record HTTPResponse =
  resp_Version :: bytes
  resp_Status :: bytes
  resp_Code :: int
  resp_Headers :: "bytes \<rightharpoonup> bytes"
  resp_Body :: bytes

abbreviation crlf :: bytes where
  "crlf \<equiv> [CHR 0x0D, CHR 0x0A]"

abbreviation crlf2 :: bytes where
  "crlf2 \<equiv> [CHR 0x0D, CHR 0x0A, CHR 0x0D, CHR 0x0A]"

section \<open>Header lines\<close>

text \<open>The variables of the header loop: the header map, the declared length and the coding flag.\<close>

record head =
  hd_Headers :: "bytes \<rightharpoonup> bytes"
  contentLength :: int
  chunked :: bool

definition no_headers :: head where
  "no_headers = \<lparr>hd_Headers = Map.empty, contentLength = -1, chunked = False\<rparr>"

definition header_field :: "(bytes \<Rightarrow> bytes) \<Rightarrow> bytes \<Rightarrow> bytes \<Rightarrow> head \<Rightarrow> head" where
  "header_field uni name val h =
     (let key = ToLower uni name;
          h' = h\<lparr>hd_Headers := (hd_Headers h)(key \<mapsto> val)\<rparr>
      in if key = ''content-length'' then
           (case Sscanf_int 10 val of None \<Rightarrow> h' | Some n \<Rightarrow> h'\<lparr>contentLength := n\<rparr>)
         else if key = ''transfer-encoding'' then
           h'\<lparr>chunked := Contains (ToLower uni val) ''chunked''\<rparr>
         else h')"

definition header_line :: "(bytes \<Rightarrow> bytes) \<Rightarrow> bytes \<Rightarrow> head \<Rightarrow> head" where
  "header_line uni line h =
     (case IndexByte line CHR '':'' of
        None \<Rightarrow> h
      | Some idx \<Rightarrow> header_field uni (TrimSpace (take idx line)) (TrimSpace (drop (idx + 1) line)) h)"

definition header_lines :: "(bytes \<Rightarrow> bytes) \<Rightarrow> bytes list \<Rightarrow> head" where
  "header_lines uni lines = fold (header_line uni) lines no_headers"

section \<open>Chunked bodies\<close>

definition chunk_size :: "bytes \<Rightarrow> int option" where
  "chunk_size line = Sscanf_int 16 (hd (SplitN 2 line '';''))"

text \<open>
  \<open>chunk_step data pos\<close> is one turn of the loop over the chunks: the chunk read, or \<open>None\<close> for the
  chunk of size 0, and the position after it. The sums with the chunk size, a number from the
  network, wrap around at 64 bits.
\<close>

definition chunk_step :: "bytes \<Rightarrow> nat \<Rightarrow> (bytes option \<times> nat) outcome" where
  "chunk_step data pos =
     (if length data \<le> pos then NotOk
      else case Index (drop pos data) crlf of
        None \<Rightarrow> NotOk
      | Some lineEnd \<Rightarrow>
          (case chunk_size (take lineEnd (drop pos data)) of
             None \<Rightarrow> NotOk
           | Some n \<Rightarrow>
               (let pos1 = pos + lineEnd + 2; hi = wrap64 (int pos1 + n) in
                if n = 0 then Ok (None, pos1)
                else if int (length data) < wrap64 (int pos1 + n + 2) then NotOk
                else case go_slice data (int pos1) hi of
                  None \<Rightarrow> Panic
                | Some chunk \<Rightarrow>
                    if int (length data) < hi + 2 then NotOk else Ok (Some chunk, nat hi + 2))))"

text \<open>What a turn that succeeds has established, for the chunk of size 0 and for another one.\<close>

lemma chunk_step_last:
  "chunk_step data pos = Ok (None, pos') \<longleftrightarrow>
     (\<exists>lineEnd. pos < length data \<and> Index (drop pos data) crlf = Some lineEnd \<and>
        chunk_size (take lineEnd (drop pos data)) = Some 0 \<and> pos' = pos + lineEnd + 2)"
  by (auto simp: chunk_step_def Let_def split: if_splits option.splits)

lemma chunk_step_chunk:
  "chunk_step data pos = Ok (Some chunk, pos') \<longleftrightarrow>
     (\<exists>lineEnd n hi. pos < length data \<and> Index (drop pos data) crlf = Some lineEnd \<and>
        chunk_size (take lineEnd (drop pos data)) = Some n \<and> n \<noteq> 0 \<and>
        hi = wrap64 (int (pos + lineEnd + 2) + n) \<and>
        wrap64 (int (pos + lineEnd + 2) + n + 2) \<le> int (length data) \<and>
        go_slice data (int (pos + lineEnd + 2)) hi = Some chunk \<and> hi + 2 \<le> int (length data) \<and>
        pos' = nat hi + 2)"
  unfolding chunk_step_def Let_def by (split if_split option.split)+ auto

lemma chunk_step_bounds:
  assumes "chunk_step data pos = Ok (c, pos')"
  shows "pos < pos' \<and> pos' \<le> length data"
proof (cases c)
  case None
  with assms show ?thesis by (auto simp: chunk_step_last dest!: Index_bound)
next
  case (Some chunk)
  with assms obtain lineEnd hi where "Index (drop pos data) crlf = Some lineEnd"
    "go_slice data (int (pos + lineEnd + 2)) hi = Some chunk" "hi + 2 \<le> int (length data)"
    "pos' = nat hi + 2"
    by (auto simp: chunk_step_chunk)
  then show ?thesis by (auto dest!: go_slice_bounds)
qed

function chunk_loop :: "bytes \<Rightarrow> nat \<Rightarrow> bytes \<Rightarrow> (nat \<times> bytes) outcome" where
  "chunk_loop data pos body =
     (case chunk_step data pos of
        Panic \<Rightarrow> Panic
      | NotOk \<Rightarrow> NotOk
      | Ok (None, pos') \<Rightarrow> Ok (pos', body)
      | Ok (Some chunk, pos') \<Rightarrow> chunk_loop data pos' (body @ chunk))"
  by pat_completeness auto
termination
proof (relation "measure (\<lambda>(data, pos, body). length data - pos)", goal_cases)
  case (2 data pos body x y z)
  then show ?case using chunk_step_bounds [of data pos y z] by (cases x) auto
qed simp

function trailer_loop :: "bytes \<Rightarrow> nat \<Rightarrow> nat outcome" where
  "trailer_loop data pos =
     (if length data \<le> pos then NotOk
      else case Index (drop pos data) crlf of
        None \<Rightarrow> NotOk
      | Some lineEnd \<Rightarrow>
          if lineEnd = 0 then Ok (pos + 2) else trailer_loop data (pos + lineEnd + 2))"
  by pat_completeness auto
termination
  by (relation "measure (\<lambda>(data, pos). length data - pos)") auto

declare chunk_loop.simps [simp del] trailer_loop.simps [simp del]

section \<open>Bodies\<close>

text \<open>A body and the position after it: of declared length, and chunked.\<close>

definition plain_body :: "bytes \<Rightarrow> nat \<Rightarrow> int \<Rightarrow> (bytes \<times> nat) outcome" where
  "plain_body data headerEnd len =
     (let total = wrap64 (int headerEnd + 4 + len) in
      if int (length data) < total then NotOk
      else case go_slice data (int headerEnd + 4) total of
        None \<Rightarrow> Panic
      | Some body \<Rightarrow> Ok (body, nat total))"

definition chunked_body :: "bytes \<Rightarrow> nat \<Rightarrow> (bytes \<times> nat) outcome" where
  "chunked_body data headerEnd =
     bind_ok (chunk_loop data (headerEnd + 4) []) (\<lambda>(pos, body).
       bind_ok (trailer_loop data pos) (\<lambda>pos'. Ok (body, pos')))"

section \<open>Requests\<close>

text \<open>
  The header part: where it ends, the request line's three fields, and what the header loop
  found. \<open>None\<close> is one of the early returns before the header loop.
\<close>

definition request_head ::
  "(bytes \<Rightarrow> bytes) \<Rightarrow> bytes \<Rightarrow> (nat \<times> HTTPRequest \<times> head) option" where
  "request_head uni data =
     (case Index data crlf2 of
        None \<Rightarrow> None
      | Some headerEnd \<Rightarrow>
          (case Split (take headerEnd data) crlf of
             [] \<Rightarrow> None
           | line0 # lines \<Rightarrow>
               (case SplitN 3 line0 '' '' of
                  [m, p, v] \<Rightarrow>
                    (let h = header_lines uni lines in
                     Some (headerEnd,
                       \<lparr>req_Method = m, req_Path = p, req_Version = v,
                        req_Headers = hd_Headers h, req_Body = []\<rparr>, h))
                | _ \<Rightarrow> None)))"

definition request_body :: "bytes \<Rightarrow> nat \<Rightarrow> head \<Rightarrow> (bytes \<times> nat) outcome" where
  "request_body data headerEnd h =
     (if \<not> chunked h
      then plain_body data headerEnd (if contentLength h < 0 then 0 else contentLength h)
      else chunked_body data headerEnd)"

definition ParseRequest :: "(bytes \<Rightarrow> bytes) \<Rightarrow> bytes \<Rightarrow> (HTTPRequest \<times> bytes) outcome" where
  "ParseRequest uni data =
     (case request_head uni data of
        None \<Rightarrow> NotOk
      | Some (headerEnd, req, h) \<Rightarrow>
          bind_ok (request_body data headerEnd h) (\<lambda>(body, pos). Ok (req\<lparr>req_Body := body\<rparr>, drop pos data)))"

section \<open>Responses\<close>

definition bodiless :: "int \<Rightarrow> bool" where
  "bodiless code \<longleftrightarrow> (100 \<le> code \<and> code < 200) \<or> code = 204 \<or> code = 304"

definition isPersistent :: "bytes \<Rightarrow> bytes \<Rightarrow> bool" where
  "isPersistent version connectionHeader =
     (if version = ''HTTP/1.1'' then connectionHeader \<noteq> ''close''
      else if version = ''HTTP/1.0'' then connectionHeader = ''keep-alive''
      else False)"

text \<open>
  \<open>response_head\<close> is the part before the header loop: the end of the header part, the response with
  its version, status and code, and the header lines, which the code reads only when the status
  allows a body.
\<close>

definition response_head :: "bytes \<Rightarrow> (nat \<times> HTTPResponse \<times> bytes list) option" where
  "response_head data =
     (case Index data crlf2 of
        None \<Rightarrow> None
      | Some headerEnd \<Rightarrow>
          (case Split (take headerEnd data) crlf of
             [] \<Rightarrow> None
           | line0 # lines \<Rightarrow>
               (let parts = SplitN 3 line0 '' '' in
                if length parts < 2 then None
                else Some (headerEnd,
                  \<lparr>resp_Version = parts ! 0,
                   resp_Status = (if length parts = 3 then parts ! 2 else []),
                   resp_Code = (case Sscanf_int 10 (parts ! 1) of None \<Rightarrow> 0 | Some n \<Rightarrow> n),
                   resp_Headers = Map.empty, resp_Body = []\<rparr>, lines))))"

definition ParseResponse :: "(bytes \<Rightarrow> bytes) \<Rightarrow> bytes \<Rightarrow> (HTTPResponse \<times> bytes) outcome" where
  "ParseResponse uni data =
     (case response_head data of
        None \<Rightarrow> NotOk
      | Some (headerEnd, resp, lines) \<Rightarrow>
          if bodiless (resp_Code resp) then Ok (resp, drop (headerEnd + 4) data)
          else
            (let h = header_lines uni lines; resp = resp\<lparr>resp_Headers := hd_Headers h\<rparr> in
             if \<not> chunked h \<and> 0 \<le> contentLength h then
               bind_ok (plain_body data headerEnd (contentLength h))
                 (\<lambda>(body, pos). Ok (resp\<lparr>resp_Body := body\<rparr>, drop pos data))
             else if chunked h then
               bind_ok (chunked_body data headerEnd)
                 (\<lambda>(body, pos). Ok (resp\<lparr>resp_Body := body\<rparr>, drop pos data))
             else if isPersistent (resp_Version resp)
                 (ToLower uni (case resp_Headers resp ''connection'' of None \<Rightarrow> [] | Some v \<Rightarrow> v))
             then Ok (resp, drop (headerEnd + 4) data)
             else Ok (resp\<lparr>resp_Body := drop (headerEnd + 4) data\<rparr>, [])))"

section \<open>Consumption and stability\<close>

text \<open>
  A loop that succeeds ends past where it started and within the data, and gives the same answer
  on longer data.
\<close>

lemma chunk_loop_bounds:
  "chunk_loop data pos body = Ok (pos', body') \<Longrightarrow> pos < pos' \<and> pos' \<le> length data"
proof (induction data pos body rule: chunk_loop.induct)
  case (1 data pos body)
  from "1.prems" obtain c p where step: "chunk_step data pos = Ok (c, p)"
    by (auto simp: chunk_loop.simps [of data pos body] split: outcome.splits)
  from chunk_step_bounds [OF step] "1.IH" [OF step] "1.prems" step show ?case
    by (cases c) (auto simp: chunk_loop.simps [of data pos body])
qed

lemma trailer_loop_bounds: "trailer_loop data pos = Ok pos' \<Longrightarrow> pos < pos' \<and> pos' \<le> length data"
proof (induction data pos rule: trailer_loop.induct)
  case (1 data pos)
  from "1.prems" obtain i where i: "pos < length data" "Index (drop pos data) crlf = Some i"
    by (auto simp: trailer_loop.simps [of data pos] split: if_splits option.splits)
  with "1.prems" "1.IH" [OF _ i(2)] Index_bound [OF i(2)] show ?case
    by (cases "i = 0") (auto simp: trailer_loop.simps [of data pos])
qed

lemma plain_body_bounds:
  assumes "plain_body data he len = Ok (body, pos)"
  shows "he + 4 \<le> pos \<and> pos \<le> length data \<and> body = take (pos - (he + 4)) (drop (he + 4) data)"
proof -
  from assms obtain total where
    "go_slice data (int he + 4) total = Some body" "pos = nat total"
    by (auto simp: plain_body_def Let_def split: if_splits option.splits)
  with go_slice_bounds [OF this(1)] go_slice_SomeD(5) [OF this(1)] show ?thesis
    by (auto simp: nat_add_distrib)
qed

lemma chunked_body_bounds:
  "chunked_body data he = Ok (body, pos) \<Longrightarrow> he + 4 \<le> pos \<and> pos \<le> length data"
  by (auto simp: chunked_body_def bind_ok_Ok_iff split: prod.splits
      dest!: chunk_loop_bounds trailer_loop_bounds)

lemma Index_drop_append:
  "pos \<le> length data \<Longrightarrow> Index (drop pos data) sep = Some i \<Longrightarrow>
     Index (drop pos (data @ e)) sep = Some i \<and> take i (drop pos (data @ e)) = take i (drop pos data)"
  using Index_bound [of "drop pos data" sep i] by (simp add: Index_append)

lemma chunk_step_stable [stable]:
  assumes "chunk_step data pos = Ok (c, pos')"
  shows "chunk_step (data @ e) pos = Ok (c, pos')"
proof (cases c)
  case None
  with assms obtain i where "pos < length data" "Index (drop pos data) crlf = Some i"
    "chunk_size (take i (drop pos data)) = Some 0" "pos' = pos + i + 2"
    by (auto simp: chunk_step_last)
  with Index_drop_append [OF _ this(2), of e] None show ?thesis
    unfolding None chunk_step_last by (intro exI [of _ i]) auto
next
  case (Some chunk)
  with assms obtain i n where i: "pos < length data" "Index (drop pos data) crlf = Some i"
    and rest: "chunk_size (take i (drop pos data)) = Some n" "n \<noteq> 0"
      "wrap64 (int (pos + i + 2) + n + 2) \<le> int (length data)"
      "go_slice data (int (pos + i + 2)) (wrap64 (int (pos + i + 2) + n)) = Some chunk"
      "wrap64 (int (pos + i + 2) + n) + 2 \<le> int (length data)"
      "pos' = nat (wrap64 (int (pos + i + 2) + n)) + 2"
    unfolding Some chunk_step_chunk by blast
  from Index_drop_append [OF _ i(2), of e] i(1) rest go_slice_append [OF rest(4), of e]
  show ?thesis unfolding Some chunk_step_chunk
    by - (rule exI [of _ i], rule exI [of _ n], rule exI [of _ "wrap64 (int (pos + i + 2) + n)"], auto)
qed

lemma chunk_loop_stable [stable]:
  "chunk_loop data pos body = Ok r \<Longrightarrow> chunk_loop (data @ e) pos body = Ok r"
proof (induction data pos body rule: chunk_loop.induct)
  case (1 data pos body)
  from "1.prems" obtain c p where step: "chunk_step data pos = Ok (c, p)"
    by (auto simp: chunk_loop.simps [of data pos body] split: outcome.splits)
  with "1.IH" [OF step] "1.prems" chunk_step_stable [OF step, of e] show ?case
    by (cases c) (auto simp: chunk_loop.simps [of data pos body] chunk_loop.simps [of "data @ e" pos body])
qed

lemma trailer_loop_stable [stable]: "trailer_loop data pos = Ok r \<Longrightarrow> trailer_loop (data @ e) pos = Ok r"
proof (induction data pos rule: trailer_loop.induct)
  case (1 data pos)
  from "1.prems" obtain i where i: "pos < length data" "Index (drop pos data) crlf = Some i"
    by (auto simp: trailer_loop.simps [of data pos] split: if_splits option.splits)
  with "1.prems" "1.IH" [OF _ i(2)] Index_drop_append [OF _ i(2), of e] show ?case
    by (auto simp: trailer_loop.simps [of data pos] trailer_loop.simps [of "data @ e" pos]
        split: if_splits)
qed

lemma plain_body_stable [stable]:
  "plain_body data he len = Ok r \<Longrightarrow> plain_body (data @ e) he len = Ok r"
  by (auto simp: plain_body_def Let_def go_slice_append split: if_splits option.splits)

lemma chunked_body_stable [stable]:
  "chunked_body data he = Ok r \<Longrightarrow> chunked_body (data @ e) he = Ok r"
  by (auto simp: chunked_body_def bind_ok_Ok_iff chunk_loop_stable trailer_loop_stable)

lemma request_head_bound: "request_head uni data = Some (he, req, h) \<Longrightarrow> he + 4 \<le> length data"
  by (auto simp: request_head_def Let_def split: option.splits list.splits dest: Index_bound)

lemma request_head_stable [stable]:
  assumes "Index data crlf2 = Some he"
  shows "request_head uni (data @ e) = request_head uni data"
  using assms Index_append [OF assms, of e] Index_bound [OF assms] by (simp add: request_head_def)

lemma request_head_Index: "request_head uni data = Some (he, req, h) \<Longrightarrow> Index data crlf2 = Some he"
  by (auto simp: request_head_def Let_def split: option.splits list.splits)

lemma request_body_bounds:
  "request_body data he h = Ok (body, pos) \<Longrightarrow> he + 4 \<le> pos \<and> pos \<le> length data"
  unfolding request_body_def
  by (auto split: if_splits dest: plain_body_bounds chunked_body_bounds)

lemma request_body_stable [stable]:
  "request_body data he h = Ok r \<Longrightarrow> request_body (data @ e) he h = Ok r"
  unfolding request_body_def
  by (auto split: if_splits intro: plain_body_stable chunked_body_stable)

lemma ParseRequest_Ok:
  "ParseRequest uni data = Ok (r, rest) \<longleftrightarrow>
     (\<exists>he req h body pos. request_head uni data = Some (he, req, h) \<and>
        request_body data he h = Ok (body, pos) \<and> r = req\<lparr>req_Body := body\<rparr> \<and> rest = drop pos data)"
  by (auto simp: ParseRequest_def bind_ok_Ok_iff split: option.splits prod.splits)

lemma nonempty_take_drop: "0 < n \<Longrightarrow> n \<le> length s \<Longrightarrow> \<exists>u. u \<noteq> [] \<and> s = u @ drop n s"
  by (rule exI [of _ "take n s"]) auto

interpretation h1_req: stable_parser "ParseRequest uni" for uni
proof unfold_locales
  fix s r t
  assume "ParseRequest uni s = Ok (r, t)"
  then obtain he h body pos where "request_body s he h = Ok (body, pos)" "t = drop pos s"
    unfolding ParseRequest_Ok by blast
  with request_body_bounds [OF this(1)] show "\<exists>u. u \<noteq> [] \<and> s = u @ t"
    by (simp add: nonempty_take_drop)
next
  fix s r t e
  assume "ParseRequest uni s = Ok (r, t)"
  then obtain he req h body pos where
    head: "request_head uni s = Some (he, req, h)" and body: "request_body s he h = Ok (body, pos)"
    and rt: "r = req\<lparr>req_Body := body\<rparr>" "t = drop pos s"
    unfolding ParseRequest_Ok by blast
  from request_body_bounds [OF body] have "drop pos (s @ e) = t @ e" using rt by simp
  moreover from head have "request_head uni (s @ e) = Some (he, req, h)"
    by (simp add: request_head_stable [OF request_head_Index [OF head]])
  ultimately show "ParseRequest uni (s @ e) = Ok (r, t @ e)"
    using rt request_body_stable [OF body, of e] unfolding ParseRequest_Ok by metis
qed

lemma response_head_bound: "response_head data = Some (he, x) \<Longrightarrow> he + 4 \<le> length data"
  by (auto simp: response_head_def Let_def split: option.splits list.splits if_splits dest: Index_bound)

interpretation h1_resp: stream_parser "ParseResponse uni" for uni
proof unfold_locales
  fix s r t
  assume "ParseResponse uni s = Ok (r, t)"
  then obtain he x where head: "response_head s = Some (he, x)" and
    cases: "t = [] \<or> (\<exists>pos. he + 4 \<le> pos \<and> pos \<le> length s \<and> t = drop pos s)"
    by (fastforce simp: ParseResponse_def Let_def bind_ok_Ok_iff response_head_bound
        split: option.splits if_splits dest: plain_body_bounds chunked_body_bounds)
  from cases show "\<exists>u. u \<noteq> [] \<and> s = u @ t"
  proof
    assume "t = []"
    with response_head_bound [OF head] show ?thesis by (intro exI [of _ s]) auto
  qed (auto simp: nonempty_take_drop)
qed

text \<open>The parse loops end, and with a panic only if the parser panics.\<close>

lemma request_loop_total:
  "\<exists>rs u b. parse_all (ParseRequest uni) s = Some (rs, u, b) \<and>
     suffix u s \<and> ParseRequest uni u = (if b then Panic else NotOk) \<and> length rs + length u \<le> length s"
  by (rule h1_req.loop_total)

lemma response_loop_total:
  "\<exists>rs u b. parse_all (ParseResponse uni) s = Some (rs, u, b) \<and>
     suffix u s \<and> ParseResponse uni u = (if b then Panic else NotOk) \<and> length rs + length u \<le> length s"
  by (rule h1_resp.loop_total)

end
