(* ===== verification/Http1_Failures.thy ===== *)
theory Http1_Failures
  imports Http1
begin

text \<open>
  What the HTTP/1.x parser does with input that is not a well-formed message: which requests make
  it panic, which leave the connection's buffer stuck for good, and that the loop around it always
  ends. The sizes in a message are numbers from the network, so the results are stated for all of
  them.
\<close>

section \<open>Sizes are 64-bit integers\<close>

lemma header_line_int64: "int64 (contentLength h) \<Longrightarrow> int64 (contentLength (header_line uni line h))"
  by (auto simp: header_line_def header_field_def Let_def dest: Sscanf_int_range split: option.splits)

lemma header_lines_int64: "int64 (contentLength (header_lines uni lines))"
proof -
  have "int64 (contentLength (fold (header_line uni) ls h))" if "int64 (contentLength h)" for ls h
    using that by (induction ls arbitrary: h) (auto intro: header_line_int64)
  moreover have "int64 (contentLength no_headers)" by (simp add: no_headers_def int64_def)
  ultimately show ?thesis by (simp add: header_lines_def)
qed

lemma request_head_int64: "request_head uni data = Some (he, req, h) \<Longrightarrow> int64 (contentLength h)"
  by (auto simp: request_head_def Let_def header_lines_int64 split: option.splits list.splits)

section \<open>Concrete requests\<close>

text \<open>The requests the theorems below are applied to, and their header parts.\<close>

definition huge_length_request :: bytes where
  "huge_length_request =
     ''POST / HTTP/1.1'' @ crlf @ ''Content-Length: 9223372036854775807'' @ crlf2"

definition negative_chunk_request :: bytes where
  "negative_chunk_request =
     ''POST / HTTP/1.1'' @ crlf @ ''Transfer-Encoding: chunked'' @ crlf2 @ ''-2'' @ crlf"

definition bad_chunk_request :: bytes where
  "bad_chunk_request =
     ''POST / HTTP/1.1'' @ crlf @ ''Transfer-Encoding: chunked'' @ crlf2 @ ''zz'' @ crlf"

definition short_request :: bytes where
  "short_request = ''GET /index.html'' @ crlf2"

lemmas head_eval = request_head_def header_lines_def header_line_def header_field_def
  no_headers_def text_eval

lemma huge_length_head:
  "\<exists>req h. request_head uni huge_length_request = Some (52, req, h) \<and> \<not> chunked h \<and>
     contentLength h = 9223372036854775807"
  by (simp add: huge_length_request_def head_eval)

lemma negative_chunk_head:
  "\<exists>req h. request_head uni negative_chunk_request = Some (43, req, h) \<and> chunked h"
  by (simp add: negative_chunk_request_def head_eval)

lemma bad_chunk_head: "\<exists>req h. request_head uni bad_chunk_request = Some (43, req, h) \<and> chunked h"
  by (simp add: bad_chunk_request_def head_eval)

section \<open>Panics\<close>

lemma plain_body_Panic_iff:
  assumes "int64 len" "0 \<le> len" "he + 4 \<le> length data" "int (length data) < 2 ^ 63"
  shows "plain_body data he len = Panic \<longleftrightarrow> 2 ^ 63 \<le> int he + 4 + len"
proof (cases "2 ^ 63 \<le> int he + 4 + len")
  case True
  with assms have "wrap64 (int he + 4 + len) = int he + 4 + len - 2 ^ 64"
    by (intro wrap64_overflow) (auto simp: int64_def)
  with True assms show ?thesis by (auto simp: plain_body_def go_slice_def int64_def)
next
  case False
  with assms have "wrap64 (int he + 4 + len) = int he + 4 + len"
    by (intro wrap64_id) (auto simp: int64_def)
  with False assms show ?thesis by (auto simp: plain_body_def go_slice_def Let_def)
qed

text \<open>
  C38: a request whose body is not chunked makes ParseRequest panic exactly when the end of the
  body, computed from its Content-Length, does not fit in 64 bits: the sum wraps to a negative
  number, passes the check against the data's length, and the slice fails.
\<close>

theorem ParseRequest_length_panic:
  assumes "request_head uni data = Some (he, req, h)" "\<not> chunked h" "int (length data) < 2 ^ 63"
  shows "ParseRequest uni data = Panic \<longleftrightarrow> 2 ^ 63 \<le> int he + 4 + contentLength h"
proof -
  let ?len = "if contentLength h < 0 then 0 else contentLength h"
  have "ParseRequest uni data = Panic \<longleftrightarrow> plain_body data he ?len = Panic"
    using assms(1,2) by (auto simp: ParseRequest_def request_body_def bind_ok_Panic_iff)
  also have "\<dots> \<longleftrightarrow> 2 ^ 63 \<le> int he + 4 + ?len"
    using request_head_int64 [OF assms(1)] request_head_bound [OF assms(1)] assms(3)
    by (intro plain_body_Panic_iff) (auto simp: int64_def)
  also have "\<dots> \<longleftrightarrow> 2 ^ 63 \<le> int he + 4 + contentLength h"
    using request_head_bound [OF assms(1)] assms(3) by auto
  finally show ?thesis .
qed

theorem ParseRequest_length_panic_witness:
  "ParseRequest id huge_length_request = Panic"
proof -
  obtain req h where head: "request_head id huge_length_request = Some (52, req, h)"
    "\<not> chunked h" "contentLength h = 9223372036854775807"
    using huge_length_head by blast
  moreover have "int (length huge_length_request) < 2 ^ 63" by (simp add: huge_length_request_def)
  ultimately show ?thesis by (simp add: ParseRequest_length_panic)
qed

lemma chunk_step_negative:
  assumes "pos < length data" "Index (drop pos data) crlf = Some i"
    and "chunk_size (take i (drop pos data)) = Some n" "n \<le> -2" "int (length data) < 2 ^ 63"
  shows "chunk_step data pos = Panic"
proof -
  from Index_bound [OF assms(2)] assms(1) have pos1: "pos + i + 2 \<le> length data" by simp
  from assms(3) have "int64 n" by (auto simp: chunk_size_def dest: Sscanf_int_range)
  with pos1 assms(4,5) have "wrap64 (int (pos + i + 2) + n + 2) = int (pos + i + 2) + n + 2"
    and "wrap64 (int (pos + i + 2) + n) = int (pos + i + 2) + n"
    by (auto intro!: wrap64_id simp: int64_def)
  moreover from assms(4) have "go_slice data (int (pos + i + 2)) (int (pos + i + 2) + n) = None"
    by (simp add: go_slice_def)
  ultimately show ?thesis
    using assms(1-4) pos1 by (simp add: chunk_step_def Let_def algebra_simps)
qed

text \<open>
  A chunked request whose first size line is a negative hexadecimal number of -2 or less
  makes ParseRequest panic, whatever else it holds.
\<close>

lemma ParseRequest_negative_chunk_panic:
  assumes "request_head uni data = Some (he, req, h)" "chunked h" "int (length data) < 2 ^ 63"
    and "he + 4 < length data" "Index (drop (he + 4) data) crlf = Some i"
    and "chunk_size (take i (drop (he + 4) data)) = Some n" "n \<le> -2"
  shows "ParseRequest uni data = Panic"
proof -
  from chunk_step_negative [OF assms(4-7,3)] have "chunked_body data he = Panic"
    by (simp add: chunked_body_def chunk_loop.simps [of data "he + 4"])
  with assms(1,2) show ?thesis by (simp add: ParseRequest_def request_body_def)
qed

section \<open>Stuck connections\<close>

text \<open>
  Once the buffer starts with a complete header part whose first line does not have three
  fields, no further bytes ever help: the parse loop returns nothing and keeps the whole buffer,
  so every later request of the connection goes unseen.
\<close>

lemma malformed_request_line_wedges:
  assumes "Index data crlf2 = Some he"
    and "length (SplitN 3 (hd (Split (take he data) crlf)) '' '') \<noteq> 3"
  shows "parse_all (ParseRequest uni) (data @ e) = Some ([], data @ e, False)"
proof -
  obtain line0 lines where lines: "Split (take he data) crlf = line0 # lines"
    using Split_nonempty by (cases "Split (take he data) crlf") auto
  have "request_head uni data = None"
    using assms lines by (auto simp: request_head_def split: list.splits)
  then have "request_head uni (data @ e) = None"
    by (simp add: request_head_stable [OF assms(1)])
  then show ?thesis by (intro parse_all_NotOk) (simp add: ParseRequest_def)
qed

lemma chunk_step_unreadable:
  assumes "pos \<le> length data" "Index (drop pos data) crlf = Some i"
    and "chunk_size (take i (drop pos data)) = None"
  shows "chunk_step (data @ e) pos = NotOk"
proof -
  from Index_drop_append [OF assms(1,2), of e]
  have "Index (drop pos (data @ e)) crlf = Some i"
    and "take i (drop pos (data @ e)) = take i (drop pos data)" by blast+
  with assms(3) show ?thesis unfolding chunk_step_def by (simp del: drop_append take_append)
qed

text \<open>
  So does a chunked request whose first size line is no number.
\<close>

lemma malformed_chunk_size_wedges:
  assumes "request_head uni data = Some (he, req, h)" "chunked h"
    and "Index (drop (he + 4) data) crlf = Some i"
    and "chunk_size (take i (drop (he + 4) data)) = None"
  shows "parse_all (ParseRequest uni) (data @ e) = Some ([], data @ e, False)"
proof (intro parse_all_NotOk)
  from request_head_bound [OF assms(1)] have "chunk_step (data @ e) (he + 4) = NotOk"
    by (intro chunk_step_unreadable [OF _ assms(3,4)]) simp
  then have "chunked_body (data @ e) he = NotOk"
    by (simp add: chunked_body_def chunk_loop.simps [of "data @ e" "he + 4"])
  with assms(1,2) show "ParseRequest uni (data @ e) = NotOk"
    by (simp add: ParseRequest_def request_body_def
        request_head_stable [OF request_head_Index [OF assms(1)]])
qed

section \<open>The loop always ends\<close>

text \<open>
  C37: the sniffer's loops around ParseRequest and ParseResponse end on every buffer, and leave in it a
  suffix of what it held, from which no further message can be parsed.
\<close>

theorem parse_loops_end:
  "(\<exists>reqs rest panicked. parse_all (ParseRequest uni) s = Some (reqs, rest, panicked) \<and>
     suffix rest s \<and> ParseRequest uni rest = (if panicked then Panic else NotOk) \<and>
     length reqs + length rest \<le> length s) \<and>
   (\<exists>resps rest panicked. parse_all (ParseResponse uni) s = Some (resps, rest, panicked) \<and>
     suffix rest s \<and> ParseResponse uni rest = (if panicked then Panic else NotOk) \<and>
     length resps + length rest \<le> length s)"
  by (intro conjI h1_req.loop_total h1_resp.loop_total)

text \<open>
  C36: how the bytes of a connection are cut into reads does not change the requests parsed: one
  run of the loop over \<open>s @ e\<close> finds what a run over \<open>s\<close> finds, followed by what a run over the
  bytes left then and \<open>e\<close> finds.
\<close>

theorem request_loop_segmentation:
  assumes "parse_all (ParseRequest uni) s = Some (reqs, u, False)"
  shows "parse_all (ParseRequest uni) (s @ e)
    = map_option (\<lambda>(reqs', v, b). (reqs @ reqs', v, b)) (parse_all (ParseRequest uni) (u @ e))"
  using assms by (rule h1_req.loop_append)

definition get_root :: bytes where
  "get_root = ''GET / HTTP/1.1'' @ crlf2"

lemma get_root_parsed: "\<exists>r. parse_all (ParseRequest id) (get_root @ ''GET /b'') = Some ([r], ''GET /b'', False)"
proof -
  have "\<exists>r. ParseRequest id (get_root @ ''GET /b'') = Ok (r, ''GET /b'')"
    by (simp add: get_root_def ParseRequest_def request_body_def plain_body_def wrap64_def go_slice_def head_eval)
  moreover have "ParseRequest id ''GET /b'' = NotOk" by (simp add: ParseRequest_def head_eval)
  ultimately show ?thesis by (auto simp: parse_all_Ok parse_all_NotOk)
qed

theorem request_loop_segmentation_witness:
  "\<exists>r. parse_all (ParseRequest id) (get_root @ ''GET /b'') = Some ([r], ''GET /b'', False) \<and>
     parse_all (ParseRequest id) ((get_root @ ''GET /b'') @ '' HTTP/1.1'' @ crlf2)
       = map_option (\<lambda>(reqs', v, b). ([r] @ reqs', v, b)) (parse_all (ParseRequest id) (''GET /b'' @ '' HTTP/1.1'' @ crlf2))"
  using get_root_parsed request_loop_segmentation by blast

end
