(* ===== verification/Http1_Roundtrip.thy ===== *)
theory Http1_Roundtrip
  imports Http1_Failures
begin

text \<open>
  Round trips through the HTTP/1.x request parser: a request printed in the form of RFC 9112, with
  a Content-Length or in chunks, is parsed back to its parts, and whatever bytes follow it are left
  in the buffer. With the stability of the parser this gives the parsing of pipelined requests.
\<close>

section \<open>Printing\<close>

fun join_lines :: "bytes list \<Rightarrow> bytes" where
  "join_lines [] = []"
| "join_lines [l] = l"
| "join_lines (l # ls) = l @ crlf @ join_lines ls"

definition print_head :: "bytes \<Rightarrow> bytes \<Rightarrow> bytes \<Rightarrow> (bytes \<times> bytes) list \<Rightarrow> bytes" where
  "print_head m p v hs =
     join_lines ((m @ '' '' @ p @ '' '' @ v) # map (\<lambda>(k, x). k @ '': '' @ x) hs) @ crlf2"

definition print_chunk :: "bytes \<Rightarrow> bytes" where
  "print_chunk c = print_nat 16 (length c) @ crlf @ c @ crlf"

definition print_chunks :: "bytes list \<Rightarrow> bytes" where
  "print_chunks cs = concat (map print_chunk cs) @ ''0'' @ crlf2"

definition header_map :: "(bytes \<Rightarrow> bytes) \<Rightarrow> (bytes \<times> bytes) list \<Rightarrow> bytes \<rightharpoonup> bytes" where
  "header_map uni hs = fold (\<lambda>(k, x) m. m(ToLower uni k \<mapsto> x)) hs Map.empty"

text \<open>
  What may be printed: a method and a path without space, names without colon, no carriage return
  anywhere, and names and values without space around them.
\<close>

definition no_cr :: "bytes \<Rightarrow> bool" where
  "no_cr s \<longleftrightarrow> CHR 0x0D \<notin> set s"

definition good_line :: "bytes \<Rightarrow> bytes \<Rightarrow> bytes \<Rightarrow> bool" where
  "good_line m p v \<longleftrightarrow>
     no_cr m \<and> no_cr p \<and> no_cr v \<and> CHR '' '' \<notin> set m \<and> CHR '' '' \<notin> set p"

definition good_header :: "bytes \<times> bytes \<Rightarrow> bool" where
  "good_header = (\<lambda>(k, x). no_cr k \<and> no_cr x \<and> CHR '':'' \<notin> set k \<and> trimmed k \<and> trimmed x)"

section \<open>Lines\<close>

lemma join_lines_Cons: "ls \<noteq> [] \<Longrightarrow> join_lines (l # ls) = l @ crlf @ join_lines ls"
  by (cases ls) auto

lemma join_lines_first:
  assumes "ls \<noteq> []" "\<forall>l \<in> set ls. no_cr l \<and> l \<noteq> []"
  obtains c s where "join_lines ls = c # s" "c \<noteq> CHR 0x0D"
proof -
  from assms obtain c l ls' where ls: "ls = (c # l) # ls'" "c \<noteq> CHR 0x0D"
    by (cases ls; cases "hd ls") (auto simp: no_cr_def)
  then show ?thesis using that by (cases ls') auto
qed

text \<open>The empty line is the first place where two line ends meet.\<close>

lemma Index_join_lines:
  assumes "ls \<noteq> []" "\<forall>l \<in> set ls. no_cr l \<and> l \<noteq> []"
  shows "Index (join_lines ls @ crlf2 @ s) crlf2 = Some (length (join_lines ls))"
  using assms
proof (induction ls rule: join_lines.induct)
  case (2 l)
  then show ?case using Index_after [of "CHR 0x0D" l "tl crlf2" s] by (simp add: no_cr_def)
next
  case (3 l l' ls)
  obtain c t where first: "join_lines (l' # ls) = c # t" "c \<noteq> CHR 0x0D"
    using join_lines_first [of "l' # ls"] "3.prems" by auto
  from "3.prems" have l: "CHR 0x0D \<notin> set l" by (simp add: no_cr_def)
  have "Index (join_lines (l' # ls) @ crlf2 @ s) crlf2 = Some (length (join_lines (l' # ls)))"
    using "3.prems" by (intro "3.IH") auto
  with first have "Index (crlf @ join_lines (l' # ls) @ crlf2 @ s) crlf2
      = Some (2 + length (join_lines (l' # ls)))"
    by simp
  then show ?case
    using Index_skip [OF l, of "crlf @ join_lines (l' # ls) @ crlf2 @ s" "tl crlf2"] by simp
qed simp

lemma Split_join_lines:
  assumes "ls \<noteq> []" "\<forall>l \<in> set ls. no_cr l"
  shows "Split (join_lines ls) crlf = ls"
  using assms
proof (induction ls rule: join_lines.induct)
  case (2 l)
  then show ?case
    using Index_absent [of "CHR 0x0D" l "tl crlf"] by (simp add: Split_rec no_cr_def)
next
  case (3 l l' ls)
  then have "Index (join_lines (l # l' # ls)) crlf = Some (length l)"
    using Index_after [of "CHR 0x0D" l "tl crlf" "join_lines (l' # ls)"] by (simp add: no_cr_def)
  with "3.IH" "3.prems" show ?case by (subst Split_rec) simp_all
qed simp

lemma SplitN_request_line:
  assumes "CHR '' '' \<notin> set m" "CHR '' '' \<notin> set p"
  shows "SplitN 3 (m @ '' '' @ p @ '' '' @ v) '' '' = [m, p, v]"
  using Index_after [OF assms(1), of "[]" "p @ '' '' @ v"] Index_after [OF assms(2), of "[]" v]
  by (simp add: SplitN_3 SplitN_2)

lemma header_line_printed:
  assumes "good_header (k, x)"
  shows "header_line uni (k @ CHR '':'' # CHR '' '' # x) h = header_field uni k x h"
proof -
  from assms have "Index (k @ '': '' @ x) '':'' = Some (length k)"
    using Index_after [of "CHR '':''" k "[]" "CHR '' '' # x"] by (simp add: good_header_def)
  with assms show ?thesis
    by (simp add: header_line_def IndexByte_def good_header_def TrimSpace_id TrimSpace_space)
qed

lemma header_lines_printed:
  assumes "\<forall>kx \<in> set hs. good_header kx"
  shows "header_lines uni (map (\<lambda>(k, x). k @ '': '' @ x) hs)
    = fold (\<lambda>(k, x). header_field uni k x) hs no_headers"
proof -
  have "fold (header_line uni) (map (\<lambda>(k, x). k @ '': '' @ x) hs) h
      = fold (\<lambda>(k, x). header_field uni k x) hs h" for h
    using assms by (induction hs arbitrary: h) (auto simp: header_line_printed)
  then show ?thesis by (simp add: header_lines_def)
qed

lemma request_head_printed:
  assumes line: "good_line m p v" and hs: "\<forall>kx \<in> set hs. good_header kx"
    and h: "h = fold (\<lambda>(k, x). header_field uni k x) hs no_headers"
  shows "request_head uni (print_head m p v hs @ s) =
    Some (length (print_head m p v hs) - 4,
      \<lparr>req_Method = m, req_Path = p, req_Version = v, req_Headers = hd_Headers h, req_Body = []\<rparr>, h)"
proof -
  let ?l = "m @ '' '' @ p @ '' '' @ v" and ?ls = "map (\<lambda>(k, x). k @ '': '' @ x) hs"
  define J where "J = join_lines (?l # ?ls)"
  have ls: "\<forall>l \<in> set (?l # ?ls). no_cr l \<and> l \<noteq> []"
    using line hs by (auto simp: good_line_def good_header_def no_cr_def)
  have print: "print_head m p v hs = J @ crlf2" by (simp add: print_head_def J_def)
  have "Index (J @ crlf2 @ s) crlf2 = Some (length J)"
    unfolding J_def using ls by (intro Index_join_lines) auto
  moreover have "Split J crlf = ?l # ?ls"
    unfolding J_def using ls by (intro Split_join_lines) auto
  moreover have "SplitN 3 ?l '' '' = [m, p, v]"
    using line by (intro SplitN_request_line) (auto simp: good_line_def)
  moreover have "header_lines uni ?ls = h" unfolding h by (rule header_lines_printed [OF hs])
  ultimately show ?thesis by (simp add: print request_head_def)
qed

section \<open>Requests with a declared length\<close>

text \<open>The header loop over fields that are not one of the two it looks at.\<close>

definition plain_header :: "(bytes \<Rightarrow> bytes) \<Rightarrow> bytes \<times> bytes \<Rightarrow> bool" where
  "plain_header uni = (\<lambda>(k, x). good_header (k, x) \<and>
     ToLower uni k \<noteq> ''content-length'' \<and> ToLower uni k \<noteq> ''transfer-encoding'')"

lemma fold_plain_headers:
  assumes "\<forall>kx \<in> set hs. plain_header uni kx"
  shows "fold (\<lambda>(k, x). header_field uni k x) hs h
    = h\<lparr>hd_Headers := fold (\<lambda>(k, x) m. m(ToLower uni k \<mapsto> x)) hs (hd_Headers h)\<rparr>"
  using assms
  by (induction hs arbitrary: h) (auto simp: plain_header_def header_field_def Let_def)

lemma ToLower_special:
  "ToLower uni ''Content-Length'' = ''content-length''"
  "ToLower uni ''Transfer-Encoding'' = ''transfer-encoding''"
  "ToLower uni ''chunked'' = ''chunked''"
  by (simp_all add: ToLower_def ascii_def lower_byte_def is_upper_def)

lemma good_special:
  "good_header (''Content-Length'', print_nat 10 n)" "good_header (''Transfer-Encoding'', ''chunked'')"
proof -
  have digits: "list_all graphic (print_nat 10 n)"
    using print_nat_digits [of 10 n] by (force simp: list_all_iff digit_char_graphic)
  then have "CHR 0x0D \<notin> set (print_nat 10 n)" by (auto simp: list_all_iff graphic_def)
  moreover have "trimmed ''Content-Length''" "trimmed ''Transfer-Encoding''" "trimmed ''chunked''"
    by (simp_all add: trimmed_graphic graphic_def)
  ultimately show "good_header (''Content-Length'', print_nat 10 n)"
    "good_header (''Transfer-Encoding'', ''chunked'')"
    using digits by (simp_all add: good_header_def no_cr_def trimmed_graphic)
qed

lemma plain_good: "plain_header uni kx \<Longrightarrow> good_header kx"
  by (auto simp: plain_header_def)

lemma plain_body_exact:
  assumes "length data = he + 4" "int (length (data @ body @ s)) < 2 ^ 63"
  shows "plain_body (data @ body @ s) he (int (length body)) = Ok (body, he + 4 + length body)"
proof -
  have "wrap64 (int he + 4 + int (length body)) = int (he + 4 + length body)"
    using assms by (subst wrap64_id) (auto simp: int64_def)
  then show ?thesis using assms by (simp add: plain_body_def go_slice_def nat_add_distrib)
qed

lemma printed_request_parses:
  assumes "good_line m p v" "\<forall>kx \<in> set hs. plain_header uni kx"
    and "hs' = hs @ [(''Content-Length'', print_nat 10 (length body))]"
    and "int (length (print_head m p v hs' @ body @ rest)) < 2 ^ 63"
  shows "ParseRequest uni (print_head m p v hs' @ body @ rest) =
    Ok (\<lparr>req_Method = m, req_Path = p, req_Version = v, req_Headers = header_map uni hs',
         req_Body = body\<rparr>, rest)"
proof -
  let ?h = "fold (\<lambda>(k, x). header_field uni k x) hs' no_headers" and ?d = "print_head m p v hs'"
  from assms(4) have "int64 (int (length body))" by (simp add: int64_def)
  then have len: "Sscanf_int 10 (print_nat 10 (length body)) = Some (int (length body))"
    using Sscanf_print_nat [of 10 "length body" "[]"] by (simp add: int64_def)
  have h: "chunked ?h = False" "contentLength ?h = int (length body)" "hd_Headers ?h = header_map uni hs'"
    using assms(2) len unfolding assms(3)
    by (simp_all add: fold_plain_headers header_field_def ToLower_special no_headers_def header_map_def)
  have "\<forall>kx \<in> set hs'. good_header kx"
    using assms(2) good_special(1) unfolding assms(3) by (auto intro: plain_good)
  note head = request_head_printed [OF assms(1) this refl, of uni "body @ rest"]
  have "4 \<le> length ?d" by (simp add: print_head_def)
  then have "plain_body (?d @ body @ rest) (length ?d - 4) (int (length body))
      = Ok (body, length ?d + length body)"
    using plain_body_exact [of ?d "length ?d - 4" body rest] assms(4) by simp
  with head h show ?thesis by (simp add: ParseRequest_def request_body_def)
qed

text \<open>
  C21: a request printed with a Content-Length header giving its body's length parses to its own
  parts, its header map holding every header under its name in lower case, and the bytes after it
  stay in the buffer.
\<close>

theorem ParseRequest_roundtrip:
  assumes "good_line m p v" "\<forall>kx \<in> set hs. plain_header uni kx"
    and "hs' = hs @ [(''Content-Length'', print_nat 10 (length body))]"
    and "int (length (print_head m p v hs' @ body @ rest)) < 2 ^ 63"
  shows "ParseRequest uni (print_head m p v hs' @ body @ rest) =
    Ok (\<lparr>req_Method = m, req_Path = p, req_Version = v, req_Headers = header_map uni hs',
         req_Body = body\<rparr>, rest)"
  by (rule printed_request_parses [OF assms])

text \<open>A printed request used to apply the theorem.\<close>

lemma get_line: "good_line ''PUT'' ''/a'' ''HTTP/1.1''"
  by (simp add: good_line_def no_cr_def)

lemma host_header: "\<forall>kx \<in> set [(''Host'', ''x'')]. plain_header uni kx"
  by (simp add: plain_header_def good_header_def no_cr_def trimmed_graphic graphic_def
      ToLower_def ascii_def lower_byte_def is_upper_def)

theorem ParseRequest_roundtrip_witness:
  "ParseRequest id (print_head ''PUT'' ''/a'' ''HTTP/1.1''
       ([(''Host'', ''x'')] @ [(''Content-Length'', print_nat 10 (length ''hello''))]) @ ''hello'' @ ''GET'')
   = Ok (\<lparr>req_Method = ''PUT'', req_Path = ''/a'', req_Version = ''HTTP/1.1'',
          req_Headers = header_map id
            ([(''Host'', ''x'')] @ [(''Content-Length'', print_nat 10 (length ''hello''))]),
          req_Body = ''hello''\<rparr>, ''GET'')"
  by (rule ParseRequest_roundtrip [OF get_line host_header refl])
    (simp add: print_head_def print_nat.simps)

section \<open>Chunked requests\<close>

lemma print_nat_16_bytes:
  "CHR 0x0D \<notin> set (print_nat 16 n)" "CHR '';'' \<notin> set (print_nat 16 n)"
proof -
  have "c \<noteq> CHR 0x0D \<and> c \<noteq> CHR '';''" if c: "c \<in> set (print_nat 16 n)" for c
  proof -
    from c print_nat_digits [of 16 n] obtain d where "d < 16" "c = digit_char d" by auto
    then show ?thesis using less_16_cases [of d] by (auto simp: digit_char_def)
  qed
  then show "CHR 0x0D \<notin> set (print_nat 16 n)" "CHR '';'' \<notin> set (print_nat 16 n)" by blast+
qed

lemma chunk_size_printed: "n < 2 ^ 63 \<Longrightarrow> chunk_size (print_nat 16 n) = Some (int n)"
  using Sscanf_print_nat [of 16 n "[]"] Index_absent [OF print_nat_16_bytes(2), of n "[]"]
  by (simp add: chunk_size_def SplitN_2)

lemma chunk_step_printed:
  assumes "c \<noteq> []" "int (length (pre @ print_chunk c @ s)) < 2 ^ 63"
  shows "chunk_step (pre @ print_chunk c @ s) (length pre) = Ok (Some c, length (pre @ print_chunk c))"
proof -
  let ?n = "print_nat 16 (length c)" and ?data = "pre @ print_chunk c @ s"
  let ?p = "length pre + length ?n + 2"
  have "Index (drop (length pre) ?data) crlf = Some (length ?n)"
    using Index_after [OF print_nat_16_bytes(1), of "length c" "tl crlf" "c @ crlf @ s"]
    by (simp add: print_chunk_def)
  moreover have "chunk_size (take (length ?n) (drop (length pre) ?data)) = Some (int (length c))"
    using assms(2) by (simp add: print_chunk_def chunk_size_printed)
  moreover have "wrap64 (int ?p + int (length c)) = int (?p + length c)"
    using assms(2) by (subst wrap64_id) (simp_all add: int64_def print_chunk_def)
  moreover have "wrap64 (int ?p + int (length c) + 2) = int (?p + length c + 2)"
    using assms(2) by (subst wrap64_id) (simp_all add: int64_def print_chunk_def)
  moreover have "go_slice ?data (int ?p) (int (?p + length c)) = Some c"
    by (simp add: go_slice_def print_chunk_def nat_add_distrib)
  ultimately show ?thesis
    unfolding chunk_step_chunk using assms(1)
    by (intro exI [of _ "length ?n"] exI [of _ "int (length c)"] exI [of _ "int (?p + length c)"])
      (simp add: print_chunk_def nat_add_distrib)
qed

lemma chunk_loop_printed:
  assumes "\<forall>c \<in> set cs. c \<noteq> []" "int (length (pre @ print_chunks cs @ s)) < 2 ^ 63"
  shows "chunk_loop (pre @ print_chunks cs @ s) (length pre) body
    = Ok (length (pre @ print_chunks cs) - 2, body @ concat cs)"
  using assms
proof (induction cs arbitrary: pre body)
  case Nil
  have "chunk_step (pre @ ''0'' @ crlf2 @ s) (length pre) = Ok (None, length pre + 3)"
    unfolding chunk_step_last by (intro exI [of _ 1]) (simp add: chunk_size_def SplitN_2 text_eval)
  then show ?case by (simp add: print_chunks_def chunk_loop.simps [of _ "length pre"])
next
  case (Cons c cs)
  have split: "pre @ print_chunks (c # cs) @ s = (pre @ print_chunk c) @ print_chunks cs @ s"
    by (simp add: print_chunks_def)
  from Cons.prems have "chunk_step (pre @ print_chunks (c # cs) @ s) (length pre)
      = Ok (Some c, length (pre @ print_chunk c))"
    using chunk_step_printed [of c pre "print_chunks cs @ s"] by (simp add: print_chunks_def)
  then have "chunk_loop (pre @ print_chunks (c # cs) @ s) (length pre) body
      = chunk_loop ((pre @ print_chunk c) @ print_chunks cs @ s) (length (pre @ print_chunk c)) (body @ c)"
    by (subst chunk_loop.simps) (simp add: split)
  also have "\<dots> = Ok (length ((pre @ print_chunk c) @ print_chunks cs) - 2, (body @ c) @ concat cs)"
    using Cons.prems by (intro Cons.IH) (simp_all add: print_chunks_def)
  finally show ?case by (simp add: print_chunks_def)
qed

lemma trailer_loop_empty: "trailer_loop (a @ crlf @ s) (length a) = Ok (length a + 2)"
  by (subst trailer_loop.simps) simp

lemma chunked_body_printed:
  assumes "\<forall>c \<in> set cs. c \<noteq> []" "int (length (pre @ print_chunks cs @ s)) < 2 ^ 63"
    and "length pre = he + 4"
  shows "chunked_body (pre @ print_chunks cs @ s) he = Ok (concat cs, length (pre @ print_chunks cs))"
proof -
  let ?d = "pre @ print_chunks cs @ s" and ?q = "length (pre @ print_chunks cs) - 2"
  have "chunk_loop ?d (he + 4) [] = Ok (?q, concat cs)"
    using chunk_loop_printed [OF assms(1,2), of "[]"] assms(3) by simp
  moreover have d: "?d = (pre @ concat (map print_chunk cs) @ ''0'' @ crlf) @ crlf @ s"
    and q: "?q = length (pre @ concat (map print_chunk cs) @ ''0'' @ crlf)"
    by (simp_all add: print_chunks_def)
  have "trailer_loop ?d ?q = Ok (?q + 2)"
    unfolding q unfolding d by (rule trailer_loop_empty)
  moreover have "?q + 2 = length (pre @ print_chunks cs)" by (simp add: print_chunks_def)
  ultimately show ?thesis by (simp add: chunked_body_def)
qed

text \<open>
  C28: a request printed with Transfer-Encoding: chunked and its body cut into any non-empty chunks
  parses to its own parts with the chunks joined, and the bytes after it stay in the buffer.
\<close>

theorem ParseRequest_chunked_roundtrip:
  assumes "good_line m p v" "\<forall>kx \<in> set hs. plain_header uni kx"
    and "hs' = hs @ [(''Transfer-Encoding'', ''chunked'')]" "\<forall>c \<in> set cs. c \<noteq> []"
    and "int (length (print_head m p v hs' @ print_chunks cs @ rest)) < 2 ^ 63"
  shows "ParseRequest uni (print_head m p v hs' @ print_chunks cs @ rest) =
    Ok (\<lparr>req_Method = m, req_Path = p, req_Version = v, req_Headers = header_map uni hs',
         req_Body = concat cs\<rparr>, rest)"
proof -
  let ?h = "fold (\<lambda>(k, x). header_field uni k x) hs' no_headers" and ?d = "print_head m p v hs'"
  have h: "chunked ?h = True" "hd_Headers ?h = header_map uni hs'"
    using assms(2) unfolding assms(3)
    by (simp_all add: fold_plain_headers header_field_def ToLower_special no_headers_def
        header_map_def Contains_iff)
  have "\<forall>kx \<in> set hs'. good_header kx"
    using assms(2) good_special(2) unfolding assms(3) by (auto intro: plain_good)
  note head = request_head_printed [OF assms(1) this refl, of uni "print_chunks cs @ rest"]
  have "length ?d = length ?d - 4 + 4" by (simp add: print_head_def)
  from chunked_body_printed [OF assms(4,5) this] head h show ?thesis
    by (simp add: ParseRequest_def request_body_def)
qed

theorem ParseRequest_chunked_roundtrip_witness:
  "ParseRequest id (print_head ''PUT'' ''/a'' ''HTTP/1.1''
       ([(''Host'', ''x'')] @ [(''Transfer-Encoding'', ''chunked'')]) @ print_chunks [''hel'', ''lo''] @ ''GET'')
   = Ok (\<lparr>req_Method = ''PUT'', req_Path = ''/a'', req_Version = ''HTTP/1.1'',
          req_Headers = header_map id ([(''Host'', ''x'')] @ [(''Transfer-Encoding'', ''chunked'')]),
          req_Body = concat [''hel'', ''lo'']\<rparr>, ''GET'')"
  by (rule ParseRequest_chunked_roundtrip [OF get_line host_header refl])
    (simp_all add: print_head_def print_chunks_def print_chunk_def print_nat.simps)

section \<open>Pipelined requests\<close>

text \<open>
  A buffer that is the concatenation of messages each of which parses alone is parsed by one
  run of the loop into those messages' values, in order, and is left empty.
\<close>

lemma pipelined_requests:
  assumes "list_all2 (\<lambda>m r. ParseRequest uni m = Ok (r, [])) ms reqs"
  shows "parse_all (ParseRequest uni) (concat ms) = Some (reqs, [], False)"
  by (rule h1_req.loop_messages [OF assms]) (simp add: ParseRequest_def request_head_def)

definition two_requests :: "bytes list" where
  "two_requests = [''GET /a HTTP/1.1'' @ crlf2, ''GET /b HTTP/1.1'' @ crlf2]"

definition get_request :: "bytes \<Rightarrow> HTTPRequest" where
  "get_request p = \<lparr>req_Method = ''GET'', req_Path = p, req_Version = ''HTTP/1.1'',
     req_Headers = Map.empty, req_Body = []\<rparr>"

end
