(* ===== verification/Tables.thy ===== *)
theory Tables
  imports Prelude
begin

text \<open>
  The interface through which the components use a Go map whose size they read: lookup, store,
  delete and len, with the laws the Go language gives them. The locale's own lemmas are the ones
  a client needs to keep a table under a limit; the interpretation is the association lists that
  model the maps of the program.
\<close>

locale table =
  fixes get :: "'t \<Rightarrow> 'k \<Rightarrow> 'v option"
    and put :: "'k \<Rightarrow> 'v \<Rightarrow> 't \<Rightarrow> 't"
    and del :: "'k \<Rightarrow> 't \<Rightarrow> 't"
    and len :: "'t \<Rightarrow> nat"
    and ok :: "'t \<Rightarrow> bool"
  assumes get_put: "get (put k v t) = (get t)(k \<mapsto> v)"
    and get_del: "get (del k t) = (get t)(k := None)"
    and len_put: "ok t \<Longrightarrow> len (put k v t) = (if get t k = None then Suc (len t) else len t)"
    and len_del: "ok t \<Longrightarrow> len (del k t) = (if get t k = None then len t else len t - 1)"
    and ok_put: "ok t \<Longrightarrow> ok (put k v t)"
    and ok_del: "ok t \<Longrightarrow> ok (del k t)"
begin

definition within :: "nat \<Rightarrow> ('v \<Rightarrow> bool) \<Rightarrow> 't \<Rightarrow> bool" where
  "within n P t \<longleftrightarrow> ok t \<and> len t \<le> n \<and> (\<forall>k v. get t k = Some v \<longrightarrow> P v)"

text \<open>A store to a key that is present, or to a new one while there is room, keeps the limit.\<close>

lemma within_put:
  assumes "within n P t" "P v" "get t k = None \<Longrightarrow> len t < n"
  shows "within n P (put k v t)"
  using assms by (auto simp: within_def get_put len_put ok_put)

lemma within_del: "within n P t \<Longrightarrow> within n P (del k t)"
  by (auto simp: within_def get_del len_del ok_del split: if_splits)

lemma within_get: "within n P t \<Longrightarrow> get t k = Some v \<Longrightarrow> P v"
  by (auto simp: within_def)

end

lemma length_delete:
  "distinct (map fst al) \<Longrightarrow>
     length (AList.delete k al) = (if map_of al k = None then length al else length al - 1)"
proof (induction al)
  case (Cons kv al)
  show ?case
  proof (cases "fst kv = k")
    case True
    with Cons.prems have "map_of al k = None" by (auto simp: map_of_eq_None_iff)
    with True Cons show ?thesis by (cases kv) auto
  next
    case False
    with Cons show ?thesis by (cases kv; cases al) (auto simp: map_of_eq_None_iff)
  qed
qed simp

interpretation alist: table map_of AList.update AList.delete length "\<lambda>al. distinct (map fst al)"
  by unfold_locales
    (simp_all add: map_of_update map_of_delete length_update length_delete distinct_update distinct_delete)

lemma alist_within_iff:
  "alist.within n P al \<longleftrightarrow> distinct (map fst al) \<and> length al \<le> n \<and> (\<forall>(k, v) \<in> set al. P v)"
  by (auto simp: alist.within_def dest: map_of_SomeD)

end
