(* ===== verification/Http2.thy ===== *)
theory Http2
  imports Http1 Tables
begin

unbundle bit_operations_syntax

text \<open>
  The HTTP/2 reader, \<^verbatim>\<open>internal/parser/http2.go\<close>: one state machine per direction of a
  connection, fed with the bytes captured for it, that cuts them into frames, assembles header
  blocks and bodies per stream and queues the streams that have ended. A protocol error, a gap in
  the capture or an exceeded limit poisons the direction for good.

  The HPACK decoder is third-party code: the argument \<open>H\<close> of the operations, with a state of
  any type.
\<close>

section \<open>Protocol detection\<close>

definition ClientPreface :: bytes where
  "ClientPreface = ''PRI * HTTP/2.0'' @ crlf2 @ ''SM'' @ crlf2"

definition PrefaceLen :: nat where
  "PrefaceLen = length ClientPreface"

datatype proto = ProtoUnknown | ProtoHTTP1 | ProtoHTTP2

definition DetectProto :: "bytes \<Rightarrow> proto" where
  "DetectProto requestBytes =
     (if length ClientPreface \<le> length requestBytes then
        (if HasPrefix requestBytes ClientPreface then ProtoHTTP2 else ProtoHTTP1)
      else if HasPrefix ClientPreface requestBytes then ProtoUnknown
      else ProtoHTTP1)"

section \<open>Frame types, flags and limits\<close>

abbreviation frameData :: u8 where "frameData \<equiv> 0x0"
abbreviation frameHeaders :: u8 where "frameHeaders \<equiv> 0x1"
abbreviation frameRSTStream :: u8 where "frameRSTStream \<equiv> 0x3"
abbreviation framePushPromise :: u8 where "framePushPromise \<equiv> 0x5"
abbreviation frameContinuation :: u8 where "frameContinuation \<equiv> 0x9"

abbreviation flagEndStream :: u8 where "flagEndStream \<equiv> 0x1"
abbreviation flagEndHeaders :: u8 where "flagEndHeaders \<equiv> 0x4"
abbreviation flagPadded :: u8 where "flagPadded \<equiv> 0x8"
abbreviation flagPriority :: u8 where "flagPriority \<equiv> 0x20"

abbreviation frameHeaderLen :: nat where "frameHeaderLen \<equiv> 9"
abbreviation maxFrameSize :: nat where "maxFrameSize \<equiv> 16777215"
abbreviation maxHeaderBlock :: nat where "maxHeaderBlock \<equiv> 262144"
abbreviation maxBodyPerStream :: nat where "maxBodyPerStream \<equiv> 8388608"
abbreviation maxStreams :: nat where "maxStreams \<equiv> 4096"
abbreviation maxDirBuffer :: nat where "maxDirBuffer \<equiv> 16777224"

definition has_flag :: "u8 \<Rightarrow> u8 \<Rightarrow> bool" where
  "has_flag flags f \<longleftrightarrow> flags AND f \<noteq> 0"

section \<open>State\<close>

record hpack_field =
  hf_Name :: bytes
  hf_Value :: bytes

text \<open>
  The decoder a direction starts with, and DecodeFull: the decoder after a block, with the error's
  text or the fields.
\<close>

record 'd hpack =
  newDecoder :: 'd
  DecodeFull :: "'d \<Rightarrow> bytes \<Rightarrow> 'd \<times> (bytes + hpack_field list)"

record h2Stream =
  st_headers :: "hpack_field list"
  gotHeader :: bool
  st_body :: bytes
  bodyTrunc :: bool

definition new_stream :: h2Stream where
  "new_stream = \<lparr>st_headers = [], gotHeader = False, st_body = [], bodyTrunc = False\<rparr>"

text \<open>
  \<open>streams\<close> is the map from stream ids to the streams under way; \<open>None\<close> is the nil map that poisoning
  leaves, from which reads find nothing and to which a write panics. \<open>done_streams\<close> is the queue
  \<^verbatim>\<open>done\<close>.
\<close>

record 'd h2Direction =
  isRequest :: bool
  dec :: 'd
  buf :: bytes
  streams :: "(u32 \<times> h2Stream) list option"
  done_streams :: "(u32 \<times> h2Stream) list"
  poisoned :: bool
  reason :: bytes
  assembling :: bool
  contStream :: u32
  target :: u32
  endStream :: bool
  frag :: bytes

definition init_direction :: "'d hpack \<Rightarrow> bool \<Rightarrow> 'd h2Direction" where
  "init_direction H req =
     \<lparr>isRequest = req, dec = newDecoder H, buf = [], streams = Some [], done_streams = [],
      poisoned = False, reason = [], assembling = False, contStream = 0, target = 0,
      endStream = False, frag = []\<rparr>"

definition poison :: "bytes \<Rightarrow> 'd h2Direction \<Rightarrow> 'd h2Direction" where
  "poison why d =
     (if poisoned d then d
      else d\<lparr>poisoned := True, reason := why, streams := None, buf := [], frag := [],
             assembling := False\<rparr>)"

text \<open>Reads of a map that may be nil, and the two writes; \<open>None\<close> is the panic of a write to nil.\<close>

definition get_stream :: "'d h2Direction \<Rightarrow> u32 \<Rightarrow> h2Stream option" where
  "get_stream d k = (case streams d of None \<Rightarrow> None | Some m \<Rightarrow> map_of m k)"

definition len_streams :: "'d h2Direction \<Rightarrow> nat" where
  "len_streams d = (case streams d of None \<Rightarrow> 0 | Some m \<Rightarrow> length m)"

definition put_stream :: "u32 \<Rightarrow> h2Stream \<Rightarrow> 'd h2Direction \<Rightarrow> 'd h2Direction option" where
  "put_stream k st d =
     map_option (\<lambda>m. d\<lparr>streams := Some (AList.update k st m)\<rparr>) (streams d)"

definition del_stream :: "u32 \<Rightarrow> 'd h2Direction \<Rightarrow> 'd h2Direction" where
  "del_stream k d = d\<lparr>streams := map_option (AList.delete k) (streams d)\<rparr>"

section \<open>Frame handlers\<close>

definition stripPadding :: "bytes \<Rightarrow> bytes option" where
  "stripPadding p =
     (case p of
        [] \<Rightarrow> None
      | c # p' \<Rightarrow>
          (let padLen = of_char c :: nat in
           if length p' < padLen then None else Some (take (length p' - padLen) p')))"

definition complete :: "u32 \<Rightarrow> h2Stream \<Rightarrow> 'd h2Direction \<Rightarrow> 'd h2Direction" where
  "complete k st d =
     (if \<not> gotHeader st then del_stream k d
      else del_stream k (d\<lparr>done_streams := done_streams d @ [(k, st)]\<rparr>))"

definition add_fields :: "hpack_field list \<Rightarrow> h2Stream \<Rightarrow> h2Stream" where
  "add_fields fs st =
     (if \<not> gotHeader st then st\<lparr>st_headers := fs, gotHeader := True\<rparr>
      else st\<lparr>st_headers := st_headers st @ fs\<rparr>)"

text \<open>
  What a header block and a DATA frame have in common: the stream is looked up or, if there is room,
  created, changed by \<open>f\<close>, and completed when the frame ends it.
\<close>

definition upsert ::
  "u32 \<Rightarrow> (h2Stream \<Rightarrow> h2Stream) \<Rightarrow> bool \<Rightarrow> 'd h2Direction \<Rightarrow> 'd h2Direction option" where
  "upsert k f ended d =
     (if get_stream d k = None \<and> maxStreams \<le> len_streams d then Some d
      else
        (let st = f (case get_stream d k of None \<Rightarrow> new_stream | Some st \<Rightarrow> st)
         in map_option (\<lambda>d. if ended then complete k st d else d) (put_stream k st d)))"

definition finishBlock :: "'d hpack \<Rightarrow> 'd h2Direction \<Rightarrow> 'd h2Direction option" where
  "finishBlock H d =
     (let (dec', res) = DecodeFull H (dec d) (frag d);
          d = d\<lparr>dec := dec', assembling := False, frag := []\<rparr>
      in case res of
           Inl err \<Rightarrow> Some (poison (''hpack decode: '' @ err) d)
         | Inr fs \<Rightarrow> upsert (target d) (add_fields fs) (endStream d) d)"

definition beginBlock ::
  "'d hpack \<Rightarrow> u32 \<Rightarrow> u32 \<Rightarrow> bool \<Rightarrow> bytes \<Rightarrow> bool \<Rightarrow> 'd h2Direction \<Rightarrow> 'd h2Direction option" where
  "beginBlock H cont tgt endStr fr endHeaders d =
     (let d = d\<lparr>assembling := True, contStream := cont, target := tgt, endStream := endStr, frag := fr\<rparr>
      in if maxHeaderBlock < length (frag d) then Some (poison ''header block too large'' d)
         else if endHeaders then finishBlock H d
         else Some d)"

definition onHeaders ::
  "'d hpack \<Rightarrow> u8 \<Rightarrow> u32 \<Rightarrow> bytes \<Rightarrow> 'd h2Direction \<Rightarrow> 'd h2Direction option" where
  "onHeaders H flags streamID payload d =
     (if streamID = 0 then Some (poison ''HEADERS on stream 0'' d)
      else case (if has_flag flags flagPadded then stripPadding payload else Some payload) of
        None \<Rightarrow> Some (poison ''bad HEADERS padding'' d)
      | Some p \<Rightarrow>
          if has_flag flags flagPriority \<and> length p < 5
          then Some (poison ''HEADERS priority underflow'' d)
          else
            (let p = (if has_flag flags flagPriority then drop 5 p else p)
             in beginBlock H streamID streamID (has_flag flags flagEndStream) p
                  (has_flag flags flagEndHeaders) d))"

definition onContinuation ::
  "'d hpack \<Rightarrow> u8 \<Rightarrow> u32 \<Rightarrow> bytes \<Rightarrow> 'd h2Direction \<Rightarrow> 'd h2Direction option" where
  "onContinuation H flags streamID payload d =
     (if \<not> assembling d then Some (poison ''CONTINUATION without HEADERS'' d)
      else if streamID \<noteq> contStream d then Some (poison ''CONTINUATION on wrong stream'' d)
      else
        (let d = d\<lparr>frag := frag d @ payload\<rparr>
         in if maxHeaderBlock < length (frag d)
            then Some (poison ''header block too large (continuation flood?)'' d)
            else if has_flag flags flagEndHeaders then finishBlock H d
            else Some d))"

text \<open>Four bytes in network order with the top bit cleared, and the three bytes of a length.\<close>

definition be31 :: "byte \<Rightarrow> byte \<Rightarrow> byte \<Rightarrow> byte \<Rightarrow> u32" where
  "be31 a b c d =
     (push_bit 24 (of_char a) OR push_bit 16 (of_char b) OR push_bit 8 (of_char c) OR of_char d)
       AND 0x7fffffff"

definition be24 :: "byte \<Rightarrow> byte \<Rightarrow> byte \<Rightarrow> u32" where
  "be24 a b c = push_bit 16 (of_char a) OR push_bit 8 (of_char b) OR of_char c"

definition onPushPromise ::
  "'d hpack \<Rightarrow> u8 \<Rightarrow> u32 \<Rightarrow> bytes \<Rightarrow> 'd h2Direction \<Rightarrow> 'd h2Direction option" where
  "onPushPromise H flags streamID payload d =
     (case (if has_flag flags flagPadded then stripPadding payload else Some payload) of
        None \<Rightarrow> Some (poison ''bad PUSH_PROMISE padding'' d)
      | Some p \<Rightarrow>
          if length p < 4 then Some (poison ''PUSH_PROMISE underflow'' d)
          else
            beginBlock H streamID (be31 (p ! 0) (p ! 1) (p ! 2) (p ! 3)) False (drop 4 p)
              (has_flag flags flagEndHeaders) d)"

definition write_body :: "bytes \<Rightarrow> h2Stream \<Rightarrow> h2Stream" where
  "write_body p st =
     (if p \<noteq> [] \<and> \<not> bodyTrunc st then
        (if maxBodyPerStream \<le> length (st_body st) then st\<lparr>bodyTrunc := True\<rparr>
         else if maxBodyPerStream - length (st_body st) < length p then
           st\<lparr>st_body := st_body st @ take (maxBodyPerStream - length (st_body st)) p, bodyTrunc := True\<rparr>
         else st\<lparr>st_body := st_body st @ p\<rparr>)
      else st)"

definition onData :: "u8 \<Rightarrow> u32 \<Rightarrow> bytes \<Rightarrow> 'd h2Direction \<Rightarrow> 'd h2Direction option" where
  "onData flags streamID payload d =
     (if streamID = 0 then Some (poison ''DATA on stream 0'' d)
      else
        (let p = (if has_flag flags flagPadded
                  then (case stripPadding payload of None \<Rightarrow> [] | Some p \<Rightarrow> p) else payload)
         in upsert streamID (write_body p) (has_flag flags flagEndStream) d))"

definition handleFrame ::
  "'d hpack \<Rightarrow> u8 \<Rightarrow> u8 \<Rightarrow> u32 \<Rightarrow> bytes \<Rightarrow> 'd h2Direction \<Rightarrow> 'd h2Direction option" where
  "handleFrame H ftype flags streamID payload d =
     (if assembling d \<and> (ftype \<noteq> frameContinuation \<or> streamID \<noteq> contStream d)
      then Some (poison ''frame interleaved inside header block'' d)
      else if ftype = frameHeaders then onHeaders H flags streamID payload d
      else if ftype = frameContinuation then onContinuation H flags streamID payload d
      else if ftype = frameData then onData flags streamID payload d
      else if ftype = framePushPromise then onPushPromise H flags streamID payload d
      else if ftype = frameRSTStream then Some (del_stream streamID d)
      else Some d)"

section \<open>Frames out of the buffer\<close>

text \<open>The nine bytes of a frame header: payload length, type, flags and stream id.\<close>

definition frame_header :: "bytes \<Rightarrow> nat \<times> u8 \<times> u8 \<times> u32" where
  "frame_header b =
     (unat (be24 (b ! 0) (b ! 1) (b ! 2)), of_char (b ! 3), of_char (b ! 4),
      be31 (b ! 5) (b ! 6) (b ! 7) (b ! 8))"

text \<open>
  Handlers read neither the buffer nor the flag: a handler either poisons the direction, which
  empties the buffer, or leaves the buffer as it was, and what it does to the other fields does
  not depend on it.
\<close>

definition rebuffer :: "bytes \<Rightarrow> 'd h2Direction \<Rightarrow> 'd h2Direction" where
  "rebuffer b d = (if poisoned d then d else d\<lparr>buf := b\<rparr>)"

lemma buf_last [frame]:
  "d\<lparr>buf := b, dec := x\<rparr> = d\<lparr>dec := x, buf := b\<rparr>"
  "d\<lparr>buf := b, streams := m\<rparr> = d\<lparr>streams := m, buf := b\<rparr>"
  "d\<lparr>buf := b, done_streams := q\<rparr> = d\<lparr>done_streams := q, buf := b\<rparr>"
  "d\<lparr>buf := b, assembling := a\<rparr> = d\<lparr>assembling := a, buf := b\<rparr>"
  "d\<lparr>buf := b, contStream := k\<rparr> = d\<lparr>contStream := k, buf := b\<rparr>"
  "d\<lparr>buf := b, target := k\<rparr> = d\<lparr>target := k, buf := b\<rparr>"
  "d\<lparr>buf := b, endStream := e\<rparr> = d\<lparr>endStream := e, buf := b\<rparr>"
  "d\<lparr>buf := b, frag := f\<rparr> = d\<lparr>frag := f, buf := b\<rparr>"
  by simp_all

lemma rebuffer_ops [frame]:
  "get_stream (d\<lparr>buf := b\<rparr>) k = get_stream d k"
  "len_streams (d\<lparr>buf := b\<rparr>) = len_streams d"
  "del_stream k (d\<lparr>buf := b\<rparr>) = (del_stream k d)\<lparr>buf := b\<rparr>"
  "put_stream k st (d\<lparr>buf := b\<rparr>) = map_option (\<lambda>d. d\<lparr>buf := b\<rparr>) (put_stream k st d)"
  by (cases "streams d";
      simp add: get_stream_def len_streams_def put_stream_def del_stream_def)+

lemma rebuffer_complete [frame]: "complete k st (d\<lparr>buf := b\<rparr>) = (complete k st d)\<lparr>buf := b\<rparr>"
  by (simp add: complete_def frame)

lemma rebuffer_poison [frame]:
  "\<not> poisoned d \<Longrightarrow> poison why (d\<lparr>buf := b\<rparr>) = poison why d"
  "rebuffer b (poison why d) = poison why d"
  by (auto simp: poison_def rebuffer_def)

lemma poisoned_ops [frame]:
  "poisoned (poison why d)"
  "poisoned (del_stream k d) = poisoned d"
  "poisoned (complete k st d) = poisoned d"
  "put_stream k st d = Some d' \<Longrightarrow> poisoned d' = poisoned d"
  by (auto simp: poison_def del_stream_def complete_def put_stream_def)

lemma upsert_poisoned [frame]: "upsert k f e d = Some d' \<Longrightarrow> poisoned d' = poisoned d"
  by (auto simp: upsert_def Let_def frame split: if_splits)

lemma upsert_rebuffer [frame]:
  "upsert k f e (d\<lparr>buf := b\<rparr>) = map_option (\<lambda>d. d\<lparr>buf := b\<rparr>) (upsert k f e d)"
  by (cases e) (simp_all add: upsert_def Let_def frame option.map_comp comp_def)

lemma upsert_rebuffer' [frame]:
  "\<not> poisoned d \<Longrightarrow> upsert k f e (d\<lparr>buf := b\<rparr>) = map_option (rebuffer b) (upsert k f e d)"
  by (cases "upsert k f e d") (auto simp: frame rebuffer_def dest: upsert_poisoned)

lemma finishBlock_rebuffer [frame]:
  "\<not> poisoned d \<Longrightarrow> finishBlock H (d\<lparr>buf := b\<rparr>) = map_option (rebuffer b) (finishBlock H d)"
  by (simp add: finishBlock_def Let_def buf_last rebuffer_poison upsert_rebuffer'
      split: prod.split sum.split)

lemma beginBlock_rebuffer [frame]:
  "\<not> poisoned d \<Longrightarrow>
     beginBlock H c t e fr eh (d\<lparr>buf := b\<rparr>) = map_option (rebuffer b) (beginBlock H c t e fr eh d)"
  by (simp add: beginBlock_def Let_def buf_last rebuffer_poison finishBlock_rebuffer)
    (simp add: rebuffer_def)

lemma handleFrame_rebuffer [frame]:
  assumes "\<not> poisoned d"
  shows "handleFrame H ft fl sid p (d\<lparr>buf := b\<rparr>) = map_option (rebuffer b) (handleFrame H ft fl sid p d)"
  using assms
  by (simp add: handleFrame_def onHeaders_def onContinuation_def onData_def onPushPromise_def Let_def
      buf_last rebuffer_poison finishBlock_rebuffer beginBlock_rebuffer upsert_rebuffer' rebuffer_ops
      split: option.split)
    (simp add: rebuffer_def poisoned_ops)

lemma handleFrame_buf:
  assumes "handleFrame H ft fl sid p d = Some d'" "\<not> poisoned d" "\<not> poisoned d'"
  shows "buf d' = buf d"
proof -
  have "handleFrame H ft fl sid p (d\<lparr>buf := buf d\<rparr>) = Some (rebuffer (buf d) d')"
    using handleFrame_rebuffer [OF assms(2), of H ft fl sid p "buf d"] assms(1) by simp
  with assms(1,3) show ?thesis by (simp add: rebuffer_def) (metis h2Direction.select_convs(3) h2Direction.surjective h2Direction.update_convs(3))
qed

text \<open>
  \<open>drain\<close> consumes every complete frame of the buffer. The length check against the maximum is the
  code's, which notes that a 24-bit field cannot exceed it. The code then copies a buffer with much
  dead capacity, which does not change its contents.
\<close>

function drain :: "'d hpack \<Rightarrow> 'd h2Direction \<Rightarrow> 'd h2Direction option" where
  "drain H d =
     (if poisoned d then Some d
      else if length (buf d) < frameHeaderLen then Some d
      else
        (let (len, ftype, flags, streamID) = frame_header (buf d); total = frameHeaderLen + len
         in if maxFrameSize < len then Some (poison ''frame length exceeds max'' d)
            else if length (buf d) < total then Some d
            else case handleFrame H ftype flags streamID (take len (drop frameHeaderLen (buf d))) d of
              None \<Rightarrow> None
            | Some d' \<Rightarrow>
                if poisoned d' then Some d' else drain H (d'\<lparr>buf := drop total (buf d')\<rparr>)))"
  by pat_completeness auto
termination
proof (relation "measure (\<lambda>(H, d). length (buf d))", goal_cases)
  case (2 H d x len y ft z fl sid total d')
  then show ?case using handleFrame_buf [of H ft fl sid _ d d'] by auto
qed simp

declare drain.simps [simp del]

definition feed :: "'d hpack \<Rightarrow> bytes \<Rightarrow> 'd h2Direction \<Rightarrow> 'd h2Direction option" where
  "feed H data d =
     (if poisoned d then Some d
      else if maxDirBuffer < length (buf d) + length data
      then Some (poison ''direction buffer overflow'' d)
      else drain H (d\<lparr>buf := buf d @ data\<rparr>))"

section \<open>Messages out of streams\<close>

definition addHeader :: "(bytes \<rightharpoonup> bytes) \<Rightarrow> bytes \<Rightarrow> bytes \<Rightarrow> (bytes \<rightharpoonup> bytes)" where
  "addHeader m name val =
     (let sep = (if name = ''cookie'' then ''; '' else '', '')
      in case m name of
           Some old \<Rightarrow> m(name \<mapsto> old @ sep @ val)
         | None \<Rightarrow> m(name \<mapsto> val))"

definition request_field :: "hpack_field \<Rightarrow> HTTPRequest \<Rightarrow> HTTPRequest" where
  "request_field f req =
     (if hf_Name f = '':method'' then req\<lparr>req_Method := hf_Value f\<rparr>
      else if hf_Name f = '':path'' then req\<lparr>req_Path := hf_Value f\<rparr>
      else if hf_Name f = '':authority'' then
        req\<lparr>req_Headers := addHeader (req_Headers req) ''host'' (hf_Value f)\<rparr>
      else if hf_Name f = '':scheme'' then req
      else if \<not> HasPrefix (hf_Name f) '':'' then
        req\<lparr>req_Headers := addHeader (req_Headers req) (hf_Name f) (hf_Value f)\<rparr>
      else req)"

definition buildRequest :: "h2Stream \<Rightarrow> HTTPRequest \<times> bool" where
  "buildRequest st =
     (fold request_field (st_headers st)
        \<lparr>req_Method = [], req_Path = [], req_Version = ''HTTP/2'', req_Headers = Map.empty,
         req_Body = st_body st\<rparr>,
      bodyTrunc st)"

definition response_field :: "hpack_field \<Rightarrow> HTTPResponse \<Rightarrow> HTTPResponse" where
  "response_field f resp =
     (if hf_Name f = '':status'' then
        resp\<lparr>resp_Status := hf_Value f,
             resp_Code := (case Sscanf_int 10 (hf_Value f) of None \<Rightarrow> resp_Code resp | Some n \<Rightarrow> n)\<rparr>
      else if \<not> HasPrefix (hf_Name f) '':'' then
        resp\<lparr>resp_Headers := addHeader (resp_Headers resp) (hf_Name f) (hf_Value f)\<rparr>
      else resp)"

definition buildResponse :: "h2Stream \<Rightarrow> HTTPResponse \<times> bool" where
  "buildResponse st =
     (fold response_field (st_headers st)
        \<lparr>resp_Version = ''HTTP/2'', resp_Status = [], resp_Code = 0, resp_Headers = Map.empty,
         resp_Body = st_body st\<rparr>,
      bodyTrunc st)"

section \<open>Connections\<close>

record 'd HTTP2Conn =
  req_dir :: "'d h2Direction"
  resp_dir :: "'d h2Direction"

record CompletedRequest =
  cr_StreamID :: u32
  cr_Request :: HTTPRequest
  cr_BodyTruncated :: bool

record CompletedResponse =
  cs_StreamID :: u32
  cs_Response :: HTTPResponse
  cs_BodyTruncated :: bool

definition NewHTTP2Conn :: "'d hpack \<Rightarrow> 'd HTTP2Conn" where
  "NewHTTP2Conn H = \<lparr>req_dir = init_direction H True, resp_dir = init_direction H False\<rparr>"

definition Poisoned :: "'d HTTP2Conn \<Rightarrow> bool" where
  "Poisoned c \<longleftrightarrow> poisoned (req_dir c) \<or> poisoned (resp_dir c)"

definition PoisonReason :: "'d HTTP2Conn \<Rightarrow> bytes" where
  "PoisonReason c =
     (if reason (req_dir c) \<noteq> [] then ''request: '' @ reason (req_dir c)
      else if reason (resp_dir c) \<noteq> [] then ''response: '' @ reason (resp_dir c)
      else [])"

text \<open>
  \<open>feed_direction\<close> is what FeedRequest and FeedResponse do to their direction: poison it on a gap in
  the capture, feed it, and take the queue of finished streams.
\<close>

definition feed_direction ::
  "'d hpack \<Rightarrow> bytes \<Rightarrow> bool \<Rightarrow> 'd h2Direction \<Rightarrow> ('d h2Direction \<times> (u32 \<times> h2Stream) list) option" where
  "feed_direction H data truncated d =
     map_option (\<lambda>d. (d\<lparr>done_streams := []\<rparr>, done_streams d))
       (feed H data (if truncated then poison ''capture gap / truncated read'' d else d))"

definition completed_request :: "u32 \<times> h2Stream \<Rightarrow> CompletedRequest" where
  "completed_request = (\<lambda>(k, st). let (req, trunc) = buildRequest st in
     \<lparr>cr_StreamID = k, cr_Request = req, cr_BodyTruncated = trunc\<rparr>)"

definition completed_response :: "u32 \<times> h2Stream \<Rightarrow> CompletedResponse" where
  "completed_response = (\<lambda>(k, st). let (resp, trunc) = buildResponse st in
     \<lparr>cs_StreamID = k, cs_Response = resp, cs_BodyTruncated = trunc\<rparr>)"

definition FeedRequest ::
  "'d hpack \<Rightarrow> bytes \<Rightarrow> bool \<Rightarrow> 'd HTTP2Conn \<Rightarrow> ('d HTTP2Conn \<times> CompletedRequest list) option" where
  "FeedRequest H data truncated c =
     map_option (\<lambda>(d, q). (c\<lparr>req_dir := d\<rparr>, map completed_request q))
       (feed_direction H data truncated (req_dir c))"

definition FeedResponse ::
  "'d hpack \<Rightarrow> bytes \<Rightarrow> bool \<Rightarrow> 'd HTTP2Conn \<Rightarrow> ('d HTTP2Conn \<times> CompletedResponse list) option" where
  "FeedResponse H data truncated c =
     map_option (\<lambda>(d, q). (c\<lparr>resp_dir := d\<rparr>, map completed_response q))
       (feed_direction H data truncated (resp_dir c))"

end
