(* ===== verification/Http2_Safety.thy ===== *)
theory Http2_Safety
  imports Http2
begin

text \<open>
  Safety of the HTTP/2 reader: the invariant of a direction (limits on streams, bodies, header
  blocks and buffer; a poisoned direction is empty), that every operation keeps it and never
  panics, and that poison is permanent with its first reason.
\<close>

section \<open>The invariant\<close>

definition stream_ok :: "h2Stream \<Rightarrow> bool" where
  "stream_ok st \<longleftrightarrow> length (st_body st) \<le> maxBodyPerStream \<and>
     (bodyTrunc st \<longrightarrow> length (st_body st) = maxBodyPerStream) \<and>
     (\<not> gotHeader st \<longrightarrow> st_headers st = [])"

definition finished_ok :: "u32 \<times> h2Stream \<Rightarrow> bool" where
  "finished_ok = (\<lambda>(k, st). stream_ok st \<and> gotHeader st)"

definition direction_ok :: "'d h2Direction \<Rightarrow> bool" where
  "direction_ok d \<longleftrightarrow>
     (if poisoned d
      then streams d = None \<and> buf d = [] \<and> frag d = [] \<and> \<not> assembling d \<and> reason d \<noteq> []
      else (\<exists>m. streams d = Some m \<and> alist.within maxStreams stream_ok m) \<and> reason d = []) \<and>
     length (frag d) \<le> maxHeaderBlock \<and> length (buf d) \<le> maxDirBuffer \<and>
     list_all finished_ok (done_streams d)"

lemma new_stream_ok: "stream_ok new_stream"
  by (simp add: stream_ok_def new_stream_def)

lemma add_fields_ok: "stream_ok st \<Longrightarrow> stream_ok (add_fields fs st) \<and> gotHeader (add_fields fs st)"
  by (auto simp: stream_ok_def add_fields_def)

lemma write_body_ok: "stream_ok st \<Longrightarrow> stream_ok (write_body p st)"
  by (auto simp: stream_ok_def write_body_def)

lemma init_direction_ok: "direction_ok (init_direction H r)"
  by (simp add: direction_ok_def init_direction_def alist.within_def)

lemma poison_ok: "direction_ok d \<Longrightarrow> why \<noteq> [] \<Longrightarrow> direction_ok (poison why d)"
  by (auto simp: direction_ok_def poison_def split: if_splits)

lemma del_stream_ok: "direction_ok d \<Longrightarrow> direction_ok (del_stream k d)"
  by (auto simp: direction_ok_def del_stream_def intro: alist.within_del split: if_splits)

lemma complete_ok: "direction_ok d \<Longrightarrow> stream_ok st \<Longrightarrow> direction_ok (complete k st d)"
proof -
  assume *: "direction_ok d" "stream_ok st"
  then have "gotHeader st \<Longrightarrow> direction_ok (d\<lparr>done_streams := done_streams d @ [(k, st)]\<rparr>)"
    by (auto simp: direction_ok_def finished_ok_def)
  with * show ?thesis by (auto simp: complete_def intro: del_stream_ok)
qed

lemma live_streams:
  "direction_ok d \<Longrightarrow> \<not> poisoned d \<Longrightarrow> \<exists>m. streams d = Some m \<and> alist.within maxStreams stream_ok m"
  by (auto simp: direction_ok_def)

lemma upsert_ok:
  assumes "direction_ok d" "\<not> poisoned d" "\<And>st. stream_ok st \<Longrightarrow> stream_ok (f st)"
  shows "\<exists>d'. upsert k f e d = Some d' \<and> direction_ok d'"
proof -
  obtain m where m: "streams d = Some m" "alist.within maxStreams stream_ok m"
    using live_streams assms(1,2) by blast
  show ?thesis
  proof (cases "get_stream d k = None \<and> maxStreams \<le> len_streams d")
    case True
    with assms(1) show ?thesis by (simp add: upsert_def)
  next
    case False
    let ?st = "f (case get_stream d k of None \<Rightarrow> new_stream | Some st \<Rightarrow> st)"
    from m have st: "stream_ok ?st"
      by (auto intro!: assms(3) new_stream_ok dest: alist.within_get simp: get_stream_def split: option.split)
    have "alist.within maxStreams stream_ok (AList.update k ?st m)"
      using False m st by (intro alist.within_put) (auto simp: get_stream_def len_streams_def)
    with assms(1,2) m(1) have "direction_ok (d\<lparr>streams := Some (AList.update k ?st m)\<rparr>)"
      by (auto simp: direction_ok_def)
    with st show ?thesis using m(1) False
      by (auto simp: upsert_def put_stream_def Let_def intro: complete_ok)
  qed
qed

lemma finishBlock_ok:
  assumes "direction_ok d" "\<not> poisoned d"
  shows "\<exists>d'. finishBlock H d = Some d' \<and> direction_ok d'"
proof -
  obtain s r where D: "DecodeFull H (dec d) (frag d) = (s, r)" by fastforce
  let ?d = "d\<lparr>dec := s, assembling := False, frag := []\<rparr>"
  from assms have d: "direction_ok ?d" "\<not> poisoned ?d" by (auto simp: direction_ok_def)
  show ?thesis
  proof (cases r)
    case (Inl err)
    with D poison_ok [OF d(1)] show ?thesis by (simp add: finishBlock_def)
  next
    case (Inr fs)
    with D upsert_ok [OF d, of "add_fields fs"] add_fields_ok show ?thesis
      by (simp add: finishBlock_def)
  qed
qed

lemma beginBlock_ok:
  assumes "direction_ok d" "\<not> poisoned d"
  shows "\<exists>d'. beginBlock H c t e fr eh d = Some d' \<and> direction_ok d'"
proof -
  let ?d = "d\<lparr>assembling := True, contStream := c, target := t, endStream := e, frag := fr\<rparr>"
  show ?thesis
  proof (cases "maxHeaderBlock < length fr")
    case True
    with assms have "direction_ok (poison ''header block too large'' ?d)"
      by (auto simp: direction_ok_def poison_def)
    with True show ?thesis by (simp add: beginBlock_def)
  next
    case False
    with assms have "direction_ok ?d" "\<not> poisoned ?d" by (auto simp: direction_ok_def)
    with False finishBlock_ok [OF this, of H] show ?thesis by (simp add: beginBlock_def Let_def)
  qed
qed

lemma onContinuation_ok:
  assumes "direction_ok d" "\<not> poisoned d"
  shows "\<exists>d'. onContinuation H fl sid p d = Some d' \<and> direction_ok d'"
proof (cases "maxHeaderBlock < length (frag d @ p)")
  case True
  with assms show ?thesis
    by (auto simp: onContinuation_def poison_ok direction_ok_def poison_def)
next
  case False
  let ?d = "d\<lparr>frag := frag d @ p\<rparr>"
  from False assms have "direction_ok ?d" "\<not> poisoned ?d" by (auto simp: direction_ok_def)
  with False finishBlock_ok [OF this, of H] assms(1) show ?thesis
    by (auto simp: onContinuation_def Let_def poison_ok)
qed

lemma handleFrame_ok:
  assumes "direction_ok d" "\<not> poisoned d"
  shows "\<exists>d'. handleFrame H ft fl sid p d = Some d' \<and> direction_ok d'"
  using assms poison_ok [OF assms(1)] del_stream_ok [OF assms(1)] onContinuation_ok [OF assms]
    beginBlock_ok [OF assms] upsert_ok [OF assms write_body_ok]
  by (auto simp: handleFrame_def onHeaders_def onData_def onPushPromise_def Let_def split: option.split)

lemma drain_ok: "direction_ok d \<Longrightarrow> \<exists>d'. drain H d = Some d' \<and> direction_ok d'"
proof (induction H d rule: drain.induct)
  case (1 H d)
  obtain len ft fl sid where hdr: "frame_header (buf d) = (len, ft, fl, sid)"
    by (metis prod_cases4)
  let ?p = "take len (drop frameHeaderLen (buf d))"
  show ?case
  proof (cases "poisoned d \<or> length (buf d) < frameHeaderLen \<or> maxFrameSize < len \<or>
      length (buf d) < frameHeaderLen + len")
    case True
    with "1.prems" hdr poison_ok [OF "1.prems"] show ?thesis
      by (auto simp: drain.simps [of H d] Let_def)
  next
    case False
    then obtain d' where d': "handleFrame H ft fl sid ?p d = Some d'" "direction_ok d'"
      using handleFrame_ok [OF "1.prems"] by blast
    show ?thesis
    proof (cases "poisoned d'")
      case True
      with False d' hdr show ?thesis by (auto simp: drain.simps [of H d])
    next
      case alive: False
      then have "direction_ok (d'\<lparr>buf := drop (frameHeaderLen + len) (buf d')\<rparr>)"
        using d'(2) by (auto simp: direction_ok_def)
      with "1.IH" [of "(len, ft, fl, sid)" len] False alive d' hdr show ?thesis
        by (auto simp: drain.simps [of H d])
    qed
  qed
qed

lemma feed_ok: "direction_ok d \<Longrightarrow> \<exists>d'. feed H data d = Some d' \<and> direction_ok d'"
proof -
  assume d: "direction_ok d"
  have "direction_ok (d\<lparr>buf := buf d @ data\<rparr>)"
    if "\<not> poisoned d" "\<not> maxDirBuffer < length (buf d) + length data"
    using d that by (auto simp: direction_ok_def)
  with d drain_ok show ?thesis by (auto simp: feed_def poison_ok)
qed

lemma take_queue_ok:
  "direction_ok d \<Longrightarrow> direction_ok (d\<lparr>done_streams := []\<rparr>) \<and> list_all finished_ok (done_streams d)"
  by (auto simp: direction_ok_def)

lemma feed_direction_ok:
  assumes "direction_ok d"
  shows "\<exists>d' q. feed_direction H data truncated d = Some (d', q) \<and> direction_ok d' \<and>
    done_streams d' = [] \<and> list_all finished_ok q"
proof -
  let ?d = "if truncated then poison ''capture gap / truncated read'' d else d"
  have "direction_ok ?d" using assms by (simp add: poison_ok)
  from feed_ok [OF this, of H data] show ?thesis
    by (auto simp: feed_direction_def dest: take_queue_ok)
qed

end
