(* ===== verification/Http2_Frames.thy ===== *)
theory Http2_Frames
  imports Http2_Safety
begin

text \<open>
  Frames in the capture buffer of the HTTP/2 reader: the numbers of a frame header, a printer of
  frames that the reader inverts, when the loop over the buffer stops, and that the way the bytes
  of a direction are cut into reads does not change what is delivered.
\<close>

section \<open>The numbers of a frame header\<close>

lemma be24_of_nat:
  "be24 (char_of (drop_bit 16 n)) (char_of (drop_bit 8 n)) (char_of n) = take_bit 24 (of_nat n)"
  unfolding be24_def of_char_char_of_word by (rule bit_word_eqI) (auto simp: bit_simps)

lemma be31_of_nat:
  "be31 (char_of (drop_bit 24 n)) (char_of (drop_bit 16 n)) (char_of (drop_bit 8 n)) (char_of n)
    = take_bit 31 (of_nat n)"
proof -
  have "(0x7fffffff :: u32) = mask 31" by (simp add: mask_eq_exp_minus_1)
  then have "be31 (char_of (drop_bit 24 n)) (char_of (drop_bit 16 n)) (char_of (drop_bit 8 n)) (char_of n)
    = take_bit 31 (push_bit 24 (take_bit 8 (of_nat (drop_bit 24 n))) OR
        push_bit 16 (take_bit 8 (of_nat (drop_bit 16 n))) OR
        push_bit 8 (take_bit 8 (of_nat (drop_bit 8 n))) OR take_bit 8 (of_nat n))"
    unfolding be31_def of_char_char_of_word by (simp only: take_bit_eq_mask)
  also have "\<dots> = take_bit 31 (of_nat n)" by (rule bit_word_eqI) (auto simp: bit_simps)
  finally show ?thesis .
qed

lemma be24_less: "unat (be24 a b c) < 2 ^ 24"
proof -
  have "be24 a b c = push_bit 16 (take_bit 8 (of_char a)) OR push_bit 8 (take_bit 8 (of_char b)) OR
    take_bit 8 (of_char c)"
    unfolding be24_def take_bit_of_char ..
  then have "be24 a b c = take_bit 24 (be24 a b c)"
    by (elim ssubst, intro bit_word_eqI) (auto simp: bit_simps)
  then have "unat (be24 a b c) = take_bit 24 (unat (be24 a b c))"
    by (metis unsigned_take_bit_eq)
  then show ?thesis by (metis take_bit_nat_less_exp)
qed

text \<open>A 24-bit length never exceeds the maximum, so that check of the loop never fires.\<close>

lemma frame_header_length: "frame_header b = (len, r) \<Longrightarrow> len \<le> maxFrameSize"
  using be24_less [of "b ! 0" "b ! 1" "b ! 2"] by (auto simp: frame_header_def)

lemma frame_header_append: "frameHeaderLen \<le> length b \<Longrightarrow> frame_header (b @ e) = frame_header b"
proof -
  assume "frameHeaderLen \<le> length b"
  then have "(b @ e) ! i = b ! i" if "i < frameHeaderLen" for i using that by (simp add: nth_append)
  then show ?thesis by (simp add: frame_header_def)
qed

section \<open>Printing frames\<close>

definition frame_bytes :: "u8 \<Rightarrow> u8 \<Rightarrow> u32 \<Rightarrow> bytes \<Rightarrow> bytes" where
  "frame_bytes ft fl sid p =
     (let n = length p; k = unat sid in
      [char_of (drop_bit 16 n), char_of (drop_bit 8 n), char_of n, char_of (unat ft), char_of (unat fl),
       char_of (drop_bit 24 k), char_of (drop_bit 16 k), char_of (drop_bit 8 k), char_of k] @ p)"

lemma length_frame_bytes [simp]: "length (frame_bytes ft fl sid p) = frameHeaderLen + length p"
  by (simp add: frame_bytes_def Let_def)

lemma of_char_unat: "of_char (char_of (unat (w :: u8))) = w"
  by (simp add: of_char_char_of_word take_bit_word_eq_self)

lemma frame_header_bytes:
  assumes "length p \<le> maxFrameSize" "sid < 2 ^ 31"
  shows "frame_header (frame_bytes ft fl sid p @ e) = (length p, ft, fl, sid)"
proof -
  from assms(1) have "unat (take_bit 24 (of_nat (length p) :: u32)) = length p"
    by (simp add: unsigned_take_bit_eq unat_of_nat take_bit_nat_eq_self)
  moreover from assms(2) have "take_bit 31 sid = sid"
    by (simp add: word_less_nat_alt word_unat_eq_iff unsigned_take_bit_eq take_bit_nat_eq_self)
  ultimately show ?thesis
    by (simp add: frame_header_def frame_bytes_def Let_def be24_of_nat be31_of_nat of_char_unat)
qed

section \<open>The loop over the buffer\<close>

definition frame_ready :: "bytes \<Rightarrow> bool" where
  "frame_ready b \<longleftrightarrow> frameHeaderLen \<le> length b \<and>
     frameHeaderLen + fst (frame_header b) \<le> length b"

text \<open>
  One turn of the loop, without the length check, which never fires: \<open>next_frame\<close> is what is
  handled, and the loop ends when there is no frame or the direction is poisoned.
\<close>

definition next_frame :: "'d hpack \<Rightarrow> 'd h2Direction \<Rightarrow> 'd h2Direction option" where
  "next_frame H d =
     (let (len, ftype, flags, streamID) = frame_header (buf d) in
      map_option (\<lambda>d'. rebuffer (drop (frameHeaderLen + len) (buf d)) d')
        (handleFrame H ftype flags streamID (take len (drop frameHeaderLen (buf d))) d))"

lemma drain_step:
  "drain H d =
     (if poisoned d \<or> \<not> frame_ready (buf d) then Some d
      else Option.bind (next_frame H d) (drain H))"
proof -
  obtain len ft fl sid where hdr: "frame_header (buf d) = (len, ft, fl, sid)"
    by (metis prod_cases4)
  from frame_header_length [OF hdr] have len: "\<not> maxFrameSize < len" by simp
  show ?thesis
  proof (cases "poisoned d \<or> \<not> frame_ready (buf d)")
    case True
    with hdr len show ?thesis by (auto simp: drain.simps [of H d] frame_ready_def)
  next
    case False
    let ?h = "handleFrame H ft fl sid (take len (drop frameHeaderLen (buf d))) d"
    show ?thesis
    proof (cases ?h)
      case None
      with False hdr len show ?thesis
        by (auto simp: drain.simps [of H d] frame_ready_def next_frame_def)
    next
      case (Some d')
      with False hdr len handleFrame_buf [OF Some] show ?thesis
        by (cases "poisoned d'")
          (auto simp: drain.simps [of H d] drain.simps [of H d'] frame_ready_def next_frame_def rebuffer_def)
    qed
  qed
qed

lemma next_frame_shorter:
  assumes "next_frame H d = Some d'" "\<not> poisoned d" "frame_ready (buf d)" "\<not> poisoned d'"
  shows "length (buf d') < length (buf d)"
proof -
  from assms(1) obtain len h where "d' = rebuffer (drop (frameHeaderLen + len) (buf d)) h"
    by (auto simp: next_frame_def Let_def split: prod.splits)
  with assms(4) have "buf d' = drop (frameHeaderLen + len) (buf d)"
    by (auto simp: rebuffer_def split: if_splits)
  with assms(3) show ?thesis unfolding frame_ready_def by (simp only: length_drop) linarith
qed

text \<open>Induction over the turns of the loop.\<close>

lemma drain_induct [case_names stop step]:
  assumes stop: "\<And>d. poisoned d \<or> \<not> frame_ready (buf d) \<Longrightarrow> P d"
    and step: "\<And>d. \<not> poisoned d \<Longrightarrow> frame_ready (buf d) \<Longrightarrow>
      (\<And>d'. next_frame H d = Some d' \<Longrightarrow> P d') \<Longrightarrow> P d"
  shows "P d"
proof (induction "length (buf d)" arbitrary: d rule: less_induct)
  case less
  show ?case
  proof (cases "poisoned d \<or> \<not> frame_ready (buf d)")
    case True
    then show ?thesis by (rule stop)
  next
    case False
    show ?thesis
    proof (rule step)
      fix d' assume "next_frame H d = Some d'"
      with False less stop show "P d'" by (metis next_frame_shorter)
    qed (use False in auto)
  qed
qed

lemma drain_leaves:
  "drain H d = Some d' \<Longrightarrow> poisoned d' \<or> \<not> frame_ready (buf d')"
proof (induction d rule: drain_induct [where H = H])
  case (stop d)
  then show ?case by (auto simp: drain_step [of H d])
next
  case (step d)
  then show ?case by (auto simp: drain_step [of H d] bind_eq_Some_conv)
qed

lemma drain_shrinks:
  "drain H d = Some d' \<Longrightarrow> \<not> poisoned d' \<Longrightarrow> length (buf d') \<le> length (buf d)"
proof (induction d rule: drain_induct [where H = H])
  case (stop d)
  then show ?case by (auto simp: drain_step [of H d])
next
  case (step d)
  then obtain e where e: "next_frame H d = Some e" "drain H e = Some d'"
    by (auto simp: drain_step [of H d] bind_eq_Some_conv)
  show ?case
  proof (cases "poisoned e")
    case True
    with e step.prems show ?thesis by (simp add: drain_step [of H e])
  next
    case False
    with e step show ?thesis by (meson less_imp_le next_frame_shorter order_trans)
  qed
qed

lemma frame_ready_append: "frame_ready b \<Longrightarrow> frame_ready (b @ e)"
  by (auto simp: frame_ready_def frame_header_append)

lemma next_frame_append:
  assumes "\<not> poisoned d" "frame_ready (buf d)"
  shows "next_frame H (d\<lparr>buf := buf d @ e\<rparr>)
    = map_option (\<lambda>d'. rebuffer (buf d' @ e) d') (next_frame H d)"
proof -
  obtain len ft fl sid where hdr: "frame_header (buf d) = (len, ft, fl, sid)"
    by (metis prod_cases4)
  with assms show ?thesis
    by (auto simp: next_frame_def frame_header_append frame_ready_def handleFrame_rebuffer
        option.map_comp comp_def rebuffer_def intro!: option.map_cong)
qed

lemma drain_append:
  "\<not> poisoned d \<Longrightarrow>
     drain H (d\<lparr>buf := buf d @ e\<rparr>) = Option.bind (drain H d) (\<lambda>d'. drain H (rebuffer (buf d' @ e) d'))"
proof (induction d rule: drain_induct [where H = H])
  case (stop d)
  then show ?case by (simp add: drain_step [of H d] rebuffer_def)
next
  case (step d)
  show ?case
  proof (cases "next_frame H d")
    case None
    with step show ?thesis
      by (simp add: drain_step [of H d] drain_step [of H "d\<lparr>buf := buf d @ e\<rparr>"] next_frame_append frame_ready_append)
  next
    case (Some d')
    with step have "drain H (d\<lparr>buf := buf d @ e\<rparr>) = drain H (rebuffer (buf d' @ e) d')"
      by (simp add: drain_step [of H "d\<lparr>buf := buf d @ e\<rparr>"] next_frame_append frame_ready_append)
    also have "\<dots> = Option.bind (drain H d') (\<lambda>d'. drain H (rebuffer (buf d' @ e) d'))"
      using step.IH [OF Some] by (cases "poisoned d'") (simp_all add: rebuffer_def drain_step [of H d'])
    finally show ?thesis using step Some by (simp add: drain_step [of H d])
  qed
qed

lemma feed_append:
  assumes "length (buf d) + length a + length b \<le> maxDirBuffer"
  shows "feed H (a @ b) d = Option.bind (feed H a d) (feed H b)"
proof (cases "poisoned d")
  case False
  let ?d = "d\<lparr>buf := buf d @ a\<rparr>"
  have "feed H (a @ b) d = drain H (?d\<lparr>buf := buf ?d @ b\<rparr>)"
    using False assms(1) by (simp add: feed_def)
  also have "\<dots> = Option.bind (drain H ?d) (\<lambda>d'. drain H (rebuffer (buf d' @ b) d'))"
    using False by (intro drain_append) simp
  also have "drain H ?d = feed H a d" using False assms(1) by (simp add: feed_def)
  also have "Option.bind (feed H a d) (\<lambda>d'. drain H (rebuffer (buf d' @ b) d')) =
    Option.bind (feed H a d) (feed H b)"
  proof (rule bind_option_cong [OF refl])
    fix d' assume "d' \<in> set_option (feed H a d)"
    with False assms have "drain H ?d = Some d'" by (simp add: feed_def)
    then show "drain H (rebuffer (buf d' @ b) d') = feed H b d'"
      using assms drain_shrinks [of H ?d d'] by (auto simp: feed_def rebuffer_def drain_step [of H d'])
  qed
  finally show ?thesis .
qed (simp add: feed_def)

end
