(* ===== verification/Http2_Queue.thy ===== *)
theory Http2_Queue
  imports Http2_Frames
begin

text \<open>
  The queue of finished streams: operations only append to it, so taking it between two reads
  delivers the same streams in the same order as one larger read.
\<close>

definition prequeue :: "(u32 \<times> h2Stream) list \<Rightarrow> 'd h2Direction \<Rightarrow> 'd h2Direction" where
  "prequeue q d = d\<lparr>done_streams := q @ done_streams d\<rparr>"

lemma prequeue_fields [frame]:
  "poisoned (prequeue q d) = poisoned d" "buf (prequeue q d) = buf d" "dec (prequeue q d) = dec d"
  "frag (prequeue q d) = frag d" "assembling (prequeue q d) = assembling d"
  "contStream (prequeue q d) = contStream d" "target (prequeue q d) = target d"
  "endStream (prequeue q d) = endStream d" "streams (prequeue q d) = streams d"
  "done_streams (prequeue q d) = q @ done_streams d"
  by (simp_all add: prequeue_def)

lemma prequeue_updates [frame]:
  "(prequeue q d)\<lparr>buf := b\<rparr> = prequeue q (d\<lparr>buf := b\<rparr>)"
  "(prequeue q d)\<lparr>dec := x\<rparr> = prequeue q (d\<lparr>dec := x\<rparr>)"
  "(prequeue q d)\<lparr>streams := m\<rparr> = prequeue q (d\<lparr>streams := m\<rparr>)"
  "(prequeue q d)\<lparr>assembling := a\<rparr> = prequeue q (d\<lparr>assembling := a\<rparr>)"
  "(prequeue q d)\<lparr>contStream := k\<rparr> = prequeue q (d\<lparr>contStream := k\<rparr>)"
  "(prequeue q d)\<lparr>target := k\<rparr> = prequeue q (d\<lparr>target := k\<rparr>)"
  "(prequeue q d)\<lparr>endStream := e\<rparr> = prequeue q (d\<lparr>endStream := e\<rparr>)"
  "(prequeue q d)\<lparr>frag := f\<rparr> = prequeue q (d\<lparr>frag := f\<rparr>)"
  "(prequeue q d)\<lparr>poisoned := p\<rparr> = prequeue q (d\<lparr>poisoned := p\<rparr>)"
  "(prequeue q d)\<lparr>reason := r\<rparr> = prequeue q (d\<lparr>reason := r\<rparr>)"
  "(prequeue q d)\<lparr>done_streams := (q @ done_streams d) @ s\<rparr> = prequeue q (d\<lparr>done_streams := done_streams d @ s\<rparr>)"
  by (simp_all add: prequeue_def)

lemma prequeue_poison: "poison why (prequeue q d) = prequeue q (poison why d)"
  by (simp add: poison_def frame)

lemma prequeue_streams:
  "get_stream (prequeue q d) k = get_stream d k"
  "len_streams (prequeue q d) = len_streams d"
  "del_stream k (prequeue q d) = prequeue q (del_stream k d)"
  "put_stream k st (prequeue q d) = map_option (prequeue q) (put_stream k st d)"
  by (cases "streams d"; simp add: get_stream_def len_streams_def del_stream_def put_stream_def frame)+

lemma prequeue_complete: "complete k st (prequeue q d) = prequeue q (complete k st d)"
  by (simp add: complete_def prequeue_streams frame del: append_assoc)

lemma prequeue_upsert:
  "upsert k f e (prequeue q d) = map_option (prequeue q) (upsert k f e d)"
  by (cases e) (simp_all add: upsert_def Let_def prequeue_streams prequeue_complete option.map_comp comp_def)

lemma prequeue_finishBlock:
  "finishBlock H (prequeue q d) = map_option (prequeue q) (finishBlock H d)"
  by (simp add: finishBlock_def Let_def prequeue_poison prequeue_upsert prequeue_fields prequeue_updates
      split: prod.split sum.split)

lemma prequeue_beginBlock:
  "beginBlock H c t e fr eh (prequeue q d) = map_option (prequeue q) (beginBlock H c t e fr eh d)"
  by (simp add: beginBlock_def Let_def prequeue_poison prequeue_finishBlock prequeue_fields prequeue_updates)

lemma prequeue_handleFrame:
  "handleFrame H ft fl sid p (prequeue q d) = map_option (prequeue q) (handleFrame H ft fl sid p d)"
  by (simp add: handleFrame_def onHeaders_def onContinuation_def onData_def onPushPromise_def Let_def
      prequeue_poison prequeue_finishBlock prequeue_beginBlock prequeue_upsert prequeue_streams
      prequeue_fields prequeue_updates split: option.split)

lemma prequeue_next_frame:
  "next_frame H (prequeue q d) = map_option (prequeue q) (next_frame H d)"
  by (auto simp: next_frame_def prequeue_handleFrame prequeue_fields prequeue_updates rebuffer_def
      option.map_comp comp_def intro!: option.map_cong split: prod.split)

lemma prequeue_drain: "drain H (prequeue q d) = map_option (prequeue q) (drain H d)"
proof (induction d rule: drain_induct [where H = H])
  case (stop d)
  then show ?case by (simp add: drain_step [of H d] drain_step [of H "prequeue q d"] prequeue_fields)
next
  case (step d)
  then show ?case
    by (cases "next_frame H d")
      (simp_all add: drain_step [of H d] drain_step [of H "prequeue q d"] prequeue_fields prequeue_next_frame)
qed

lemma prequeue_feed: "feed H data (prequeue q d) = map_option (prequeue q) (feed H data d)"
  by (simp add: feed_def prequeue_fields prequeue_updates prequeue_poison prequeue_drain)

section \<open>Segmentation\<close>

lemma feed_direction_append:
  assumes "length (buf d) + length a + length b \<le> maxDirBuffer"
  shows "feed_direction H (a @ b) False d =
    Option.bind (feed_direction H a False d) (\<lambda>(d', q).
      map_option (\<lambda>(d'', q'). (d'', q @ q')) (feed_direction H b False d'))"
proof (cases "feed H a d")
  case None
  with feed_append [OF assms] show ?thesis by (simp add: feed_direction_def)
next
  case (Some d1)
  let ?e = "d1\<lparr>done_streams := []\<rparr>"
  have "prequeue (done_streams d1) ?e = d1" by (simp add: prequeue_def)
  then have "feed H b d1 = map_option (prequeue (done_streams d1)) (feed H b ?e)"
    using prequeue_feed [of H b "done_streams d1" ?e] by simp
  with Some feed_append [OF assms] show ?thesis
    by (auto simp: feed_direction_def prequeue_def option.map_comp comp_def intro!: option.map_cong)
qed

end
