(* ===== verification/Http2_Reader.thy ===== *)
theory Http2_Reader
  imports Http2_Queue
begin

text \<open>
  The properties of the HTTP/2 reader that hold of every connection it is used on: a step relation
  over the calls of FeedRequest and FeedResponse, the connections reachable by it, their safety,
  and what gaps, poison and the segmentation of reads do.
\<close>

section \<open>Runs of a connection\<close>

text \<open>
  A step is one call, labelled with what it delivers; a run is a sequence of calls, with everything
  delivered in it.
\<close>

inductive h2_step ::
  "'d hpack \<Rightarrow> 'd HTTP2Conn \<Rightarrow> CompletedRequest list \<times> CompletedResponse list \<Rightarrow> 'd HTTP2Conn \<Rightarrow> bool"
  for H where
  feed_req: "FeedRequest H data truncated c = Some (c', rs) \<Longrightarrow> h2_step H c (rs, []) c'"
| feed_resp: "FeedResponse H data truncated c = Some (c', ss) \<Longrightarrow> h2_step H c ([], ss) c'"

inductive h2_run ::
  "'d hpack \<Rightarrow> 'd HTTP2Conn \<Rightarrow> CompletedRequest list \<times> CompletedResponse list \<Rightarrow> 'd HTTP2Conn \<Rightarrow> bool"
  for H where
  run_nil: "h2_run H c ([], []) c"
| run_step: "h2_run H c (rs, ss) c' \<Longrightarrow> h2_step H c' (rs', ss') c'' \<Longrightarrow>
    h2_run H c (rs @ rs', ss @ ss') c''"

inductive_cases h2_stepE: "h2_step H c out c'"
inductive_simps h2_step_iff: "h2_step H c (rs, ss) c'"

lemma FeedRequest_cases:
  assumes "FeedRequest H data tr c = Some (c', rs)"
  obtains d' q where "feed_direction H data tr (req_dir c) = Some (d', q)"
    "c' = c\<lparr>req_dir := d'\<rparr>" "rs = map completed_request q"
  using assms by (auto simp: FeedRequest_def)

lemma FeedResponse_cases:
  assumes "FeedResponse H data tr c = Some (c', ss)"
  obtains d' q where "feed_direction H data tr (resp_dir c) = Some (d', q)"
    "c' = c\<lparr>resp_dir := d'\<rparr>" "ss = map completed_response q"
  using assms by (auto simp: FeedResponse_def)

section \<open>Safety\<close>

text \<open>Between calls the queues are empty.\<close>

definition conn_ok :: "'d HTTP2Conn \<Rightarrow> bool" where
  "conn_ok c \<longleftrightarrow> direction_ok (req_dir c) \<and> done_streams (req_dir c) = [] \<and>
     direction_ok (resp_dir c) \<and> done_streams (resp_dir c) = []"

lemma NewHTTP2Conn_ok: "conn_ok (NewHTTP2Conn H)"
  by (simp add: conn_ok_def NewHTTP2Conn_def init_direction_ok) (simp add: init_direction_def)

lemma h2_step_ok: "h2_step H c out c' \<Longrightarrow> conn_ok c \<Longrightarrow> conn_ok c'"
proof (induction rule: h2_step.induct)
  case (feed_req data tr c c' rs)
  with feed_direction_ok [of "req_dir c" H data tr] show ?case
    by (elim FeedRequest_cases) (auto simp: conn_ok_def)
next
  case (feed_resp data tr c c' ss)
  with feed_direction_ok [of "resp_dir c" H data tr] show ?case
    by (elim FeedResponse_cases) (auto simp: conn_ok_def)
qed

lemma h2_run_ok: "h2_run H c out c' \<Longrightarrow> conn_ok c \<Longrightarrow> conn_ok c'"
  by (induction rule: h2_run.induct) (auto intro: h2_step_ok)

lemma conn_ok_feeds:
  "conn_ok c \<Longrightarrow> FeedRequest H data tr c \<noteq> None \<and> FeedResponse H data tr c \<noteq> None"
  using feed_direction_ok [of "req_dir c" H data tr] feed_direction_ok [of "resp_dir c" H data tr]
  by (auto simp: conn_ok_def FeedRequest_def FeedResponse_def)

text \<open>
  C17: a connection fed with any reads whatever, for any HPACK decoder, stays within the limits of
  the reader (4096 streams, 8 MiB of body each, a 256 KiB header block, one maximal frame of buffer;
  a poisoned direction holds nothing), and no call on it ever panics: the map of streams that
  poisoning sets to nil is never written.
\<close>

theorem h2_connection_safe:
  assumes "h2_run H (NewHTTP2Conn H) out c"
  shows "conn_ok c \<and> FeedRequest H data truncated c \<noteq> None \<and> FeedResponse H data truncated c \<noteq> None"
  using h2_run_ok [OF assms NewHTTP2Conn_ok] conn_ok_feeds by blast

section \<open>A decoder to run the reader on\<close>

text \<open>
  The HPACK decoder is a parameter; to evaluate the reader, one that keeps no state, takes the block
  for the request's path, and fails on a block that starts with \<^verbatim>\<open>!\<close>.
\<close>

definition sample_hpack :: "unit hpack" where
  "sample_hpack = \<lparr>newDecoder = (), DecodeFull = \<lambda>s b.
     (s, if HasPrefix b ''!'' then Inl ''bad block''
         else Inr [\<lparr>hf_Name = '':path'', hf_Value = b\<rparr>])\<rparr>"

definition gap_conn :: "unit HTTP2Conn" where
  "gap_conn = (NewHTTP2Conn sample_hpack)
     \<lparr>req_dir := poison ''capture gap / truncated read'' (init_direction sample_hpack True)\<rparr>"

lemma gap_step: "FeedRequest sample_hpack ''abc'' True (NewHTTP2Conn sample_hpack) = Some (gap_conn, [])"
  by (simp add: FeedRequest_def feed_direction_def NewHTTP2Conn_def gap_conn_def feed_def
      init_direction_def poison_def)

lemma gap_run: "h2_run sample_hpack (NewHTTP2Conn sample_hpack) ([], []) gap_conn"
  using run_step [OF run_nil feed_req [OF gap_step]] by simp

theorem h2_connection_safe_witness:
  "conn_ok gap_conn \<and> FeedRequest sample_hpack ''x'' False gap_conn \<noteq> None \<and>
     FeedResponse sample_hpack ''x'' False gap_conn \<noteq> None"
  by (rule h2_connection_safe [OF gap_run])

section \<open>Poison\<close>

lemma poisoned_feed:
  assumes "poisoned d" "done_streams d = []"
  shows "feed_direction H data tr d = Some (d, [])"
  using assms by (simp add: feed_direction_def feed_def poison_def)

lemma req_poison_step:
  assumes "h2_step H c (rs, ss) c'" "poisoned (req_dir c)" "conn_ok c"
  shows "rs = [] \<and> req_dir c' = req_dir c"
  using assms by (auto simp: h2_step_iff conn_ok_def poisoned_feed
      elim!: FeedRequest_cases FeedResponse_cases)

lemma resp_poison_step:
  assumes "h2_step H c (rs, ss) c'" "poisoned (resp_dir c)" "conn_ok c"
  shows "ss = [] \<and> resp_dir c' = resp_dir c"
  using assms by (auto simp: h2_step_iff conn_ok_def poisoned_feed
      elim!: FeedRequest_cases FeedResponse_cases)

lemma req_poison_run:
  "h2_run H c out c' \<Longrightarrow> poisoned (req_dir c) \<Longrightarrow> conn_ok c \<Longrightarrow> fst out = [] \<and> req_dir c' = req_dir c"
proof (induction rule: h2_run.induct)
  case (run_step c rs ss c' rs' ss' c'')
  with req_poison_step [OF run_step.hyps(2)] h2_run_ok [OF run_step.hyps(1)] show ?case by auto
qed simp

lemma resp_poison_run:
  "h2_run H c out c' \<Longrightarrow> poisoned (resp_dir c) \<Longrightarrow> conn_ok c \<Longrightarrow> snd out = [] \<and> resp_dir c' = resp_dir c"
proof (induction rule: h2_run.induct)
  case (run_step c rs ss c' rs' ss' c'')
  with resp_poison_step [OF run_step.hyps(2)] h2_run_ok [OF run_step.hyps(1)] show ?case by auto
qed simp

text \<open>
  C27: poison is permanent. From a state of a connection in which the request direction is poisoned,
  whatever is fed to either direction, no request is delivered any more and the direction, its first
  reason included, never changes; the same holds of the response direction.
\<close>

theorem poison_is_permanent:
  assumes "h2_run H (NewHTTP2Conn H) out c" "h2_run H c (rs, ss) c'"
  shows "(poisoned (req_dir c) \<longrightarrow> rs = [] \<and> req_dir c' = req_dir c) \<and>
    (poisoned (resp_dir c) \<longrightarrow> ss = [] \<and> resp_dir c' = resp_dir c)"
  using req_poison_run [OF assms(2)] resp_poison_run [OF assms(2)]
    h2_run_ok [OF assms(1) NewHTTP2Conn_ok] by auto

theorem poison_is_permanent_witness:
  "\<exists>c' rs. FeedRequest sample_hpack ''abc'' False gap_conn = Some (c', rs) \<and> rs = [] \<and>
     req_dir c' = req_dir gap_conn"
proof -
  have "poisoned (req_dir gap_conn)"
    by (simp add: gap_conn_def poison_def init_direction_def)
  moreover obtain c' rs where c': "FeedRequest sample_hpack ''abc'' False gap_conn = Some (c', rs)"
    using conn_ok_feeds [of gap_conn] h2_run_ok [OF gap_run NewHTTP2Conn_ok] by fastforce
  moreover have "h2_run sample_hpack gap_conn (rs, []) c'"
    using run_step [OF run_nil feed_req [OF c']] by simp
  ultimately show ?thesis using poison_is_permanent [OF gap_run] by blast
qed

text \<open>
  A read that was truncated in the capture poisons its direction before any of its bytes is
  read: nothing is delivered and, unless it was poisoned already, the reason is the gap.
\<close>

lemma truncated_read_poisons:
  assumes "h2_run H (NewHTTP2Conn H) out c"
  shows "\<exists>c'. FeedRequest H data True c = Some (c', []) \<and> Poisoned c' \<and>
    resp_dir c' = resp_dir c \<and>
    reason (req_dir c') =
      (if poisoned (req_dir c) then reason (req_dir c) else ''capture gap / truncated read'')"
proof -
  let ?d = "poison ''capture gap / truncated read'' (req_dir c)"
  have "done_streams (req_dir c) = []"
    using h2_run_ok [OF assms NewHTTP2Conn_ok] by (simp add: conn_ok_def)
  then have "feed_direction H data True (req_dir c) = Some (?d, [])"
    by (simp add: feed_direction_def feed_def poison_def)
  then show ?thesis
    by (auto simp: FeedRequest_def Poisoned_def poisoned_ops) (simp_all add: poison_def)
qed

section \<open>Segmentation\<close>

text \<open>
  Where a read ends does not matter: feeding two reads one after the other delivers the requests
  that one read of all their bytes delivers, in the same order, and leaves the same connection, as
  long as the bytes fit the direction's buffer.
\<close>

lemma FeedRequest_segmentation:
  assumes "length (buf (req_dir c)) + length a + length b \<le> maxDirBuffer"
  shows "FeedRequest H (a @ b) False c =
    Option.bind (FeedRequest H a False c) (\<lambda>(c', rs).
      map_option (\<lambda>(c'', rs'). (c'', rs @ rs')) (FeedRequest H b False c'))"
  using feed_direction_append [OF assms, of H]
  by (cases "feed_direction H a False (req_dir c)")
    (auto simp: FeedRequest_def option.map_comp comp_def split_beta intro!: option.map_cong)

end
