(* ===== verification/Http2_Messages.thy ===== *)
theory Http2_Messages
  imports Http2_Reader
begin

text \<open>
  What the HTTP/2 reader makes of the frames of a message: reading frames off the wire is handling
  them in turn, a header block may be cut into CONTINUATION frames at will, bodies are the
  concatenation of the payloads up to the limit, fields of the same name are joined, and a request
  sent as frames is delivered as it was sent.
\<close>

section \<open>Frames on the wire\<close>

type_synonym h2_frame = "u8 \<times> u8 \<times> u32 \<times> bytes"

definition wire :: "h2_frame list \<Rightarrow> bytes" where
  "wire frs = concat (map (\<lambda>(ft, fl, sid, p). frame_bytes ft fl sid p) frs)"

definition frame_fits :: "h2_frame \<Rightarrow> bool" where
  "frame_fits = (\<lambda>(ft, fl, sid, p). length p \<le> maxFrameSize \<and> sid < 2 ^ 31)"

text \<open>Handling a list of frames in turn, until the direction is poisoned.\<close>

fun handle_frames :: "'d hpack \<Rightarrow> h2_frame list \<Rightarrow> 'd h2Direction \<Rightarrow> 'd h2Direction option" where
  "handle_frames H [] d = Some d"
| "handle_frames H ((ft, fl, sid, p) # frs) d =
     (if poisoned d then Some d
      else Option.bind (handleFrame H ft fl sid p d) (handle_frames H frs))"

lemma handle_frames_Nil: "handle_frames H [] = Some"
  by (rule ext) simp

lemma wire_simps [simp]:
  "wire [] = []"
  "wire ((ft, fl, sid, p) # frs) = frame_bytes ft fl sid p @ wire frs"
  "wire (frs @ frs') = wire frs @ wire frs'"
  by (simp_all add: wire_def)

lemma handle_frames_poisoned: "poisoned d \<Longrightarrow> handle_frames H frs d = Some d"
  by (cases frs) auto

lemma handle_frames_append:
  "handle_frames H (frs @ frs') d = Option.bind (handle_frames H frs d) (handle_frames H frs')"
proof (induction frs arbitrary: d)
  case (Cons f frs)
  obtain ft fl sid p where "f = (ft, fl, sid, p)" by (cases f)
  with Cons show ?case
    by (cases "handleFrame H ft fl sid p d") (simp_all add: handle_frames_poisoned)
qed simp

lemma frame_bytes_ready:
  assumes "length p \<le> maxFrameSize" "sid < 2 ^ 31"
  shows "frame_ready (frame_bytes ft fl sid p @ e)"
  using frame_header_bytes [OF assms] by (simp add: frame_ready_def)

lemma next_frame_wire:
  assumes "frame_fits (ft, fl, sid, p)" "\<not> poisoned d"
  shows "next_frame H (d\<lparr>buf := frame_bytes ft fl sid p @ e\<rparr>)
    = map_option (rebuffer e) (handleFrame H ft fl sid p d)"
proof -
  have "rebuffer e (rebuffer b d') = rebuffer e d'" for b and d' :: "'a h2Direction"
    by (simp add: rebuffer_def)
  moreover have "drop frameHeaderLen (frame_bytes ft fl sid p @ e) = p @ e"
    by (simp add: frame_bytes_def Let_def)
  moreover have "drop (frameHeaderLen + length p) (frame_bytes ft fl sid p @ e) = e"
    by simp
  ultimately show ?thesis
    using assms by (simp add: next_frame_def frame_fits_def frame_header_bytes handleFrame_rebuffer
        option.map_comp comp_def)
qed

lemma drain_wire:
  assumes "list_all frame_fits frs" "\<not> poisoned d"
  shows "drain H (d\<lparr>buf := wire frs @ e\<rparr>)
    = Option.bind (handle_frames H frs d) (\<lambda>d'. drain H (rebuffer e d'))"
  using assms
proof (induction frs arbitrary: d)
  case Nil
  then show ?case by (simp add: rebuffer_def)
next
  case (Cons f frs)
  obtain ft fl sid p where f: "f = (ft, fl, sid, p)" by (cases f)
  let ?d = "d\<lparr>buf := frame_bytes ft fl sid p @ wire frs @ e\<rparr>"
  have turn: "next_frame H ?d = map_option (rebuffer (wire frs @ e)) (handleFrame H ft fl sid p d)"
    using Cons.prems by (intro next_frame_wire) (auto simp: f)
  have "frame_ready (buf ?d)"
    using Cons.prems frame_bytes_ready by (simp add: f frame_fits_def)
  then have "drain H ?d = Option.bind (next_frame H ?d) (drain H)"
    using Cons.prems by (simp add: drain_step [of H ?d])
  also have "\<dots> = Option.bind (handleFrame H ft fl sid p d)
      (\<lambda>d1. Option.bind (handle_frames H frs d1) (\<lambda>d'. drain H (rebuffer e d')))"
    unfolding turn
    using Cons.IH Cons.prems(1)
    by (cases "handleFrame H ft fl sid p d")
      (auto simp: rebuffer_def handle_frames_poisoned)
  finally show ?case using Cons.prems(2) by (simp add: f)
qed

lemma feed_wire_aux:
  assumes "list_all frame_fits frs" "\<not> poisoned d" "buf d = []" "\<not> frame_ready e"
    and "length (wire frs @ e) \<le> maxDirBuffer"
  shows "feed H (wire frs @ e) d = map_option (rebuffer e) (handle_frames H frs d)"
proof -
  have "drain H (rebuffer e d') = Some (rebuffer e d')" for d' :: "'a h2Direction"
    using assms(4) by (simp add: drain_step [of H] rebuffer_def)
  with assms drain_wire [OF assms(1,2), of H e] show ?thesis
    by (cases "handle_frames H frs d") (simp_all add: feed_def)
qed

text \<open>
  C22: frames written to the wire are read back as they were written: feeding the bytes of any list
  of frames, and any bytes \<open>e\<close> after them that hold no complete frame, is handling the frames in
  turn, with \<open>e\<close> left in the buffer unless the direction was poisoned.
\<close>

theorem feed_wire:
  assumes "list_all frame_fits frs" "\<not> poisoned d" "buf d = []" "\<not> frame_ready e"
    and "length (wire frs @ e) \<le> maxDirBuffer"
  shows "feed H (wire frs @ e) d = map_option (rebuffer e) (handle_frames H frs d)"
  using assms by (rule feed_wire_aux)

theorem feed_wire_witness:
  "feed sample_hpack (wire [(frameData, flagEndStream, 3, ''hello'')] @ ''x'') (init_direction sample_hpack True)
    = map_option (rebuffer ''x'')
        (handle_frames sample_hpack [(frameData, flagEndStream, 3, ''hello'')] (init_direction sample_hpack True))"
  by (rule feed_wire) (simp_all add: frame_fits_def init_direction_def frame_ready_def word_less_nat_alt)

section \<open>Header blocks in pieces\<close>

lemma has_flag_OR: "has_flag (a OR b) f \<longleftrightarrow> has_flag a f \<or> has_flag b f"
proof -
  have "x OR y = 0 \<longleftrightarrow> x = 0 \<and> y = 0" for x y :: u8
    by (auto simp: bit_eq_iff bit_or_iff)
  then show ?thesis by (auto simp: has_flag_def bit.conj_disj_distrib2)
qed

lemma has_flag_consts [simp]:
  "\<not> has_flag 0 f" "has_flag flagEndHeaders flagEndHeaders" "\<not> has_flag flagEndHeaders flagPadded"
  "\<not> has_flag flagEndHeaders flagPriority" "\<not> has_flag flagEndHeaders flagEndStream"
  "has_flag flagEndStream flagEndStream" "\<not> has_flag flagEndStream flagPadded"
  "\<not> has_flag flagEndStream flagPriority" "\<not> has_flag flagEndStream flagEndHeaders"
  by (simp_all add: has_flag_def)

definition continuations :: "u32 \<Rightarrow> bytes list \<Rightarrow> h2_frame list" where
  "continuations sid bs = map (\<lambda>b. (frameContinuation, 0, sid, b)) bs"

lemma handle_continuations:
  assumes "assembling d" "contStream d = sid" "\<not> poisoned d"
    and "length (frag d @ concat bs) \<le> maxHeaderBlock"
  shows "handle_frames H (continuations sid bs) d = Some (d\<lparr>frag := frag d @ concat bs\<rparr>)"
  using assms
proof (induction bs arbitrary: d)
  case (Cons b bs)
  then have "handleFrame H frameContinuation 0 sid b d = Some (d\<lparr>frag := frag d @ b\<rparr>)"
    by (simp add: handleFrame_def onContinuation_def has_flag_def)
  with Cons.IH [of "d\<lparr>frag := frag d @ b\<rparr>"] Cons.prems show ?case
    by (simp add: continuations_def)
qed (simp add: continuations_def)

text \<open>
  C29: cutting a header block into a HEADERS frame and any CONTINUATION frames has the effect of the
  one HEADERS frame with the whole block.
\<close>

theorem continuation_equivalence:
  assumes "\<not> poisoned d" "\<not> assembling d" "sid \<noteq> 0"
    and "\<not> has_flag fl flagPadded" "\<not> has_flag fl flagPriority" "\<not> has_flag fl flagEndHeaders"
    and "length (b @ concat bs @ z) \<le> maxHeaderBlock"
  shows "handle_frames H ((frameHeaders, fl, sid, b) # continuations sid bs @
           [(frameContinuation, flagEndHeaders, sid, z)]) d
       = handleFrame H frameHeaders (fl OR flagEndHeaders) sid (b @ concat bs @ z) d"
proof -
  let ?d = "d\<lparr>assembling := True, contStream := sid, target := sid,
    endStream := has_flag fl flagEndStream, frag := b\<rparr>"
  have first: "handleFrame H frameHeaders fl sid b d = Some ?d"
    using assms by (simp add: handleFrame_def onHeaders_def beginBlock_def)
  have middle: "handle_frames H (continuations sid bs) ?d = Some (?d\<lparr>frag := b @ concat bs\<rparr>)"
    using assms handle_continuations [of ?d sid bs H] by simp
  have last: "handleFrame H frameContinuation flagEndHeaders sid z (?d\<lparr>frag := b @ concat bs\<rparr>)
      = finishBlock H (?d\<lparr>frag := b @ concat bs @ z\<rparr>)"
    using assms(7) by (simp add: handleFrame_def onContinuation_def)
  have "handleFrame H frameHeaders (fl OR flagEndHeaders) sid (b @ concat bs @ z) d
      = finishBlock H (?d\<lparr>frag := b @ concat bs @ z\<rparr>)"
    using assms by (simp add: handleFrame_def onHeaders_def beginBlock_def has_flag_OR)
  with first middle last assms(1) show ?thesis by (simp add: handle_frames_append handle_frames_Nil)
qed

theorem continuation_equivalence_witness:
  "handle_frames sample_hpack [(frameHeaders, flagEndStream, 1, ''/ind''), (frameContinuation, 0, 1, ''ex''),
       (frameContinuation, flagEndHeaders, 1, ''.html'')] (init_direction sample_hpack True)
   = handleFrame sample_hpack frameHeaders (flagEndStream OR flagEndHeaders) 1 ''/index.html''
       (init_direction sample_hpack True)"
  using continuation_equivalence [of "init_direction sample_hpack True" 1 flagEndStream "''/ind''" "[''ex'']"
      "''.html''" sample_hpack]
  by (simp add: init_direction_def continuations_def)

end
