(* ===== verification/Header_Fields.thy ===== *)
theory Header_Fields
  imports Http2
begin

text \<open>
  How a list of header fields becomes the header map of a message: each of the four builders, of
  requests and responses over HTTP/2 and HTTP/3, adds the fields one by one with addHeader, each under
  a name of its own or not at all. The locale is that contract; what the map holds in the end is proved
  once inside it.
\<close>

definition join_sep :: "bytes \<Rightarrow> bytes" where
  "join_sep name = (if name = ''cookie'' then ''; '' else '', '')"

definition join_values :: "bytes \<Rightarrow> bytes list \<Rightarrow> bytes option" where
  "join_values name vs =
     (case vs of [] \<Rightarrow> None | v # vs \<Rightarrow> Some (v @ concat (map (\<lambda>v. join_sep name @ v) vs)))"

lemma join_values_snoc:
  "join_values name (vs @ [v]) =
     Some (case join_values name vs of None \<Rightarrow> v | Some old \<Rightarrow> old @ join_sep name @ v)"
  by (cases vs) (simp_all add: join_values_def)

locale header_fields =
  fixes add :: "'f \<Rightarrow> 'm \<Rightarrow> 'm"
    and headers :: "'m \<Rightarrow> bytes \<rightharpoonup> bytes"
    and name_of :: "'f \<Rightarrow> bytes option"
    and val_of :: "'f \<Rightarrow> bytes"
  assumes headers_add: "headers (add f m) =
      (case name_of f of None \<Rightarrow> headers m | Some name \<Rightarrow> addHeader (headers m) name (val_of f))"
begin

lemma headers_fold_from:
  assumes "headers m = (\<lambda>name. join_values name (vals name))"
  shows "headers (fold add fs m) name =
    join_values name (vals name @ map val_of (filter (\<lambda>f. name_of f = Some name) fs))"
  using assms
proof (induction fs arbitrary: m vals)
  case (Cons f fs)
  let ?vals = "\<lambda>n. vals n @ (if name_of f = Some n then [val_of f] else [])"
  have "headers (add f m) = (\<lambda>n. join_values n (?vals n))"
    using Cons.prems
    by (auto simp: fun_eq_iff headers_add addHeader_def join_values_snoc join_sep_def Let_def
        split: option.split)
  from Cons.IH [OF this] show ?case by simp
qed simp

lemma headers_fold:
  assumes "headers m = Map.empty"
  shows "headers (fold add fs m) name = join_values name (map val_of (filter (\<lambda>f. name_of f = Some name) fs))"
  using headers_fold_from [of m "\<lambda>_. []" fs name] assms by (simp add: join_values_def)

end

text \<open>The name under which a field is added to a request's or a response's headers.\<close>

definition request_name :: "bytes \<Rightarrow> bytes option" where
  "request_name n =
     (if n = '':authority'' then Some ''host'' else if HasPrefix n '':'' then None else Some n)"

definition response_name :: "bytes \<Rightarrow> bytes option" where
  "response_name n = (if HasPrefix n '':'' then None else Some n)"

interpretation h2_request: header_fields request_field req_Headers "\<lambda>f. request_name (hf_Name f)" hf_Value
  by unfold_locales (auto simp: request_field_def request_name_def HasPrefix_def)

interpretation h2_response: header_fields response_field resp_Headers "\<lambda>f. response_name (hf_Name f)" hf_Value
  by unfold_locales (auto simp: response_field_def response_name_def HasPrefix_def)

end
