(* ===== verification/Http2_Delivery.thy ===== *)
theory Http2_Delivery
  imports Http2_Messages Header_Fields
begin

text \<open>
  What the HTTP/2 reader delivers: bodies, header fields, whole requests, and the streams a frame
  leaves alone.
\<close>

section \<open>Protocol detection\<close>

text \<open>
  DetectProto says HTTP/2 exactly of the buffers that start with the client preface and leaves
  open exactly the proper prefixes of it, the empty buffer included; more bytes never change an
  answer it has given.
\<close>

lemma DetectProto_classifies:
  "(DetectProto b = ProtoHTTP2 \<longleftrightarrow> prefix ClientPreface b) \<and>
   (DetectProto b = ProtoUnknown \<longleftrightarrow> strict_prefix b ClientPreface) \<and>
   (DetectProto b = ProtoUnknown \<or> DetectProto (b @ e) = DetectProto b)"
proof -
  have "prefix ClientPreface b \<Longrightarrow> length ClientPreface \<le> length b"
    by (rule prefix_length_le)
  moreover have "strict_prefix b ClientPreface \<longleftrightarrow> prefix b ClientPreface \<and> length b < length ClientPreface"
    by (auto simp: strict_prefix_def dest: prefix_length_le intro: prefix_length_less)
  moreover have "prefix ClientPreface (b @ e) \<longleftrightarrow> prefix ClientPreface b" if "length ClientPreface \<le> length b"
    using that by (auto dest: prefix_appendD)
  moreover have "prefix b ClientPreface" if "prefix (b @ e) ClientPreface"
    using that by (rule append_prefixD)
  moreover have "prefix b ClientPreface" if "prefix ClientPreface (b @ e)" "length b < length ClientPreface"
    using that prefix_length_prefix [of b "b @ e" ClientPreface] by simp
  ultimately show ?thesis
    unfolding DetectProto_def HasPrefix_def by (auto simp: not_le)
qed

section \<open>Bodies\<close>

lemma write_body_capped:
  assumes "st_body st = take maxBodyPerStream s" "bodyTrunc st \<longleftrightarrow> maxBodyPerStream < length s"
  shows "st_body (write_body p st) = take maxBodyPerStream (s @ p) \<and>
    (bodyTrunc (write_body p st) \<longleftrightarrow> maxBodyPerStream < length (s @ p))"
  using assms by (auto simp: write_body_def)

lemma write_bodies_capped:
  assumes "st_body st = take maxBodyPerStream s" "bodyTrunc st \<longleftrightarrow> maxBodyPerStream < length s"
  shows "st_body (fold write_body ps st) = take maxBodyPerStream (s @ concat ps) \<and>
    (bodyTrunc (fold write_body ps st) \<longleftrightarrow> maxBodyPerStream < length (s @ concat ps))"
  using assms
proof (induction ps arbitrary: st s)
  case (Cons p ps)
  from write_body_capped [OF Cons.prems, of p] Cons.IH [of "write_body p st" "s @ p"]
  show ?case by simp
qed simp

text \<open>
  The body of a stream is what was sent on it, up to the limit: after DATA payloads \<open>ps\<close> it is the
  first 8 MiB of their concatenation, and it is marked as truncated exactly when there was more.
\<close>

lemma body_is_payloads:
  "st_body (fold write_body ps new_stream) = take maxBodyPerStream (concat ps) \<and>
   (bodyTrunc (fold write_body ps new_stream) \<longleftrightarrow> maxBodyPerStream < length (concat ps))"
  using write_bodies_capped [of new_stream "[]" ps] by (simp add: new_stream_def)

section \<open>Header fields\<close>

text \<open>The header a field adds to: \<^verbatim>\<open>:authority\<close> is the host, other pseudo-headers are none.\<close>

abbreviation header_name :: "hpack_field \<Rightarrow> bytes option" where
  "header_name f \<equiv> request_name (hf_Name f)"

lemma request_fields_other:
  "req_Body (fold request_field fs req) = req_Body req"
  "req_Version (fold request_field fs req) = req_Version req"
  by (induction fs arbitrary: req) (simp_all add: request_field_def)

lemma request_fields_pseudo:
  "req_Method (fold request_field fs req) =
     last (req_Method req # map hf_Value (filter (\<lambda>f. hf_Name f = '':method'') fs))"
  "req_Path (fold request_field fs req) =
     last (req_Path req # map hf_Value (filter (\<lambda>f. hf_Name f = '':path'') fs))"
  by (induction fs arbitrary: req) (simp_all add: request_field_def)

text \<open>
  The request built from a stream has as method and path the last value of the pseudo-header,
  as each header the values of the fields of that name in the order received, joined by a comma
  (cookies by a semicolon), the authority counting as a host field, and as body the stream's.
\<close>

lemma buildRequest_fields:
  "req_Headers (fst (buildRequest st)) name =
     join_values name (map hf_Value (filter (\<lambda>f. header_name f = Some name) (st_headers st))) \<and>
   req_Method (fst (buildRequest st)) =
     last ([] # map hf_Value (filter (\<lambda>f. hf_Name f = '':method'') (st_headers st))) \<and>
   req_Path (fst (buildRequest st)) =
     last ([] # map hf_Value (filter (\<lambda>f. hf_Name f = '':path'') (st_headers st))) \<and>
   req_Body (fst (buildRequest st)) = st_body st \<and>
   req_Version (fst (buildRequest st)) = ''HTTP/2'' \<and> snd (buildRequest st) = bodyTrunc st"
  unfolding buildRequest_def
  by (simp only: fst_conv snd_conv request_fields_other request_fields_pseudo HTTPRequest.select_convs
      h2_request.headers_fold)

section \<open>Whole requests\<close>

definition request_frames :: "u32 \<Rightarrow> bytes \<Rightarrow> bytes list \<Rightarrow> bytes \<Rightarrow> h2_frame list" where
  "request_frames sid block ps z =
     (frameHeaders, flagEndHeaders, sid, block) # map (\<lambda>p. (frameData, 0, sid, p)) ps @
     [(frameData, flagEndStream, sid, z)]"

lemma update_new: "map_of m k = None \<Longrightarrow> AList.update k v m = m @ [(k, v)]"
  by (induction m) (auto split: if_splits)

lemma delete_new: "map_of m k = None \<Longrightarrow> AList.delete k m = m"
  by (induction m) (auto split: if_splits)

lemma map_of_snoc: "map_of (m @ [(k, v)]) k = (case map_of m k of None \<Rightarrow> Some v | r \<Rightarrow> r)"
  by (simp add: map_add_def split: option.split)

lemma update_snoc: "map_of m k = None \<Longrightarrow> AList.update k w (m @ [(k, v)]) = m @ [(k, w)]"
  by (induction m) (auto split: if_splits)

lemma delete_snoc: "map_of m k = None \<Longrightarrow> AList.delete k (m @ [(k, v)]) = m"
  by (induction m) (auto split: if_splits)

lemma headers_frame:
  assumes "\<not> poisoned d" "\<not> assembling d" "streams d = Some m" "map_of m sid = None"
    and "length m < maxStreams" "sid \<noteq> 0" "length block \<le> maxHeaderBlock"
    and "DecodeFull H (dec d) block = (s, Inr fs)"
  shows "handleFrame H frameHeaders flagEndHeaders sid block d =
    Some (d\<lparr>dec := s, assembling := False, contStream := sid, target := sid, endStream := False, frag := [],
            streams := Some (m @ [(sid, add_fields fs new_stream)])\<rparr>)"
  using assms by (simp add: handleFrame_def onHeaders_def beginBlock_def finishBlock_def upsert_def
      get_stream_def len_streams_def put_stream_def update_new)

lemma data_frames:
  assumes "\<not> poisoned d" "\<not> assembling d" "streams d = Some (m @ [(sid, st)])" "map_of m sid = None"
    and "sid \<noteq> 0"
  shows "handle_frames H (map (\<lambda>p. (frameData, 0, sid, p)) ps) d =
    Some (d\<lparr>streams := Some (m @ [(sid, fold write_body ps st)])\<rparr>)"
  using assms
proof (induction ps arbitrary: d st)
  case (Cons p ps)
  let ?d = "d\<lparr>streams := Some (m @ [(sid, write_body p st)])\<rparr>"
  have "handleFrame H frameData 0 sid p d = Some ?d"
    using Cons.prems by (simp add: handleFrame_def onData_def upsert_def get_stream_def put_stream_def
        map_of_snoc update_snoc del: map_of_append)
  with Cons.IH [of ?d] Cons.prems show ?case by simp
qed simp

lemma last_data_frame:
  assumes "\<not> assembling d" "streams d = Some (m @ [(sid, st)])" "map_of m sid = None" "sid \<noteq> 0" "gotHeader st"
  shows "handleFrame H frameData flagEndStream sid z d =
    Some (d\<lparr>done_streams := done_streams d @ [(sid, write_body z st)], streams := Some m\<rparr>)"
proof -
  have "gotHeader (write_body z st)" using assms(5) by (simp add: write_body_def)
  with assms show ?thesis
    by (simp add: handleFrame_def onData_def upsert_def get_stream_def put_stream_def complete_def
        del_stream_def map_of_snoc update_snoc delete_snoc del: map_of_append)
qed

lemma gotHeader_write_bodies: "gotHeader (fold write_body ps st) = gotHeader st"
  by (induction ps arbitrary: st) (simp_all add: write_body_def)

lemma st_headers_write_bodies: "st_headers (fold write_body ps st) = st_headers st"
  by (induction ps arbitrary: st) (simp_all add: write_body_def)

lemma request_frames_handled:
  assumes "\<not> poisoned d" "\<not> assembling d" "streams d = Some m" "map_of m sid = None"
    and "length m < maxStreams" "sid \<noteq> 0" "length block \<le> maxHeaderBlock"
    and "DecodeFull H (dec d) block = (s, Inr fs)"
  shows "handle_frames H (request_frames sid block ps z) d =
    Some (d\<lparr>dec := s, assembling := False, contStream := sid, target := sid, endStream := False, frag := [],
            done_streams := done_streams d @ [(sid, fold write_body (ps @ [z]) (add_fields fs new_stream))]\<rparr>)"
proof -
  let ?st = "add_fields fs new_stream"
  let ?d = "d\<lparr>dec := s, assembling := False, contStream := sid, target := sid, endStream := False, frag := [],
              streams := Some (m @ [(sid, ?st)])\<rparr>"
  have got: "gotHeader (fold write_body ps ?st)"
    by (simp add: gotHeader_write_bodies add_fields_def new_stream_def)
  have "handle_frames H (map (\<lambda>p. (frameData, 0, sid, p)) ps) ?d =
    Some (?d\<lparr>streams := Some (m @ [(sid, fold write_body ps ?st)])\<rparr>)"
    using assms(1,4,6) by (intro data_frames) simp_all
  with headers_frame [OF assms] assms(1,3,4,6) got show ?thesis
    by (simp add: request_frames_def handle_frames_append handle_frames_Nil last_data_frame)
qed

text \<open>
  C18: a request sent as a header block and any number of DATA frames, on a stream that is not in
  use, is delivered by the read that holds it, once: its method and path are the last values of the decoded
  pseudo-headers, its headers are the other decoded fields and its body is the payloads'. The other streams
  under way and the response direction stay as they were.
\<close>

theorem request_delivered:
  assumes "\<not> poisoned (req_dir c)" "\<not> assembling (req_dir c)" "buf (req_dir c) = []"
    and "done_streams (req_dir c) = []" "streams (req_dir c) = Some m" "map_of m sid = None"
    and "length m < maxStreams" "sid \<noteq> 0" "length block \<le> maxHeaderBlock"
    and "DecodeFull H (dec (req_dir c)) block = (s, Inr fs)"
    and "list_all frame_fits (request_frames sid block ps z)"
    and "length (wire (request_frames sid block ps z)) \<le> maxDirBuffer"
  shows "\<exists>c' req. FeedRequest H (wire (request_frames sid block ps z)) False c =
      Some (c', [\<lparr>cr_StreamID = sid, cr_Request = req,
                  cr_BodyTruncated = (maxBodyPerStream < length (concat ps @ z))\<rparr>]) \<and>
    req_Method req = last ([] # map hf_Value (filter (\<lambda>f. hf_Name f = '':method'') fs)) \<and>
    req_Path req = last ([] # map hf_Value (filter (\<lambda>f. hf_Name f = '':path'') fs)) \<and>
    req_Version req = ''HTTP/2'' \<and>
    req_Body req = take maxBodyPerStream (concat ps @ z) \<and>
    (\<forall>name. req_Headers req name =
       join_values name (map hf_Value (filter (\<lambda>f. header_name f = Some name) fs))) \<and>
    \<not> poisoned (req_dir c') \<and> streams (req_dir c') = Some m \<and> dec (req_dir c') = s \<and>
    resp_dir c' = resp_dir c"
proof -
  let ?st = "fold write_body (ps @ [z]) (add_fields fs new_stream)"
  let ?d = "req_dir c\<lparr>dec := s, assembling := False, contStream := sid, target := sid,
    endStream := False, frag := []\<rparr>"
  have body: "st_body ?st = take maxBodyPerStream (concat ps @ z)"
    "bodyTrunc ?st \<longleftrightarrow> maxBodyPerStream < length (concat ps @ z)"
    using write_bodies_capped [of "add_fields fs new_stream" "[]" "ps @ [z]"]
    by (simp_all add: add_fields_def new_stream_def)
  have "st_headers ?st = fs"
    by (simp only: st_headers_write_bodies) (simp add: add_fields_def new_stream_def)
  note req = buildRequest_fields [of ?st, unfolded this]
  have "feed H (wire (request_frames sid block ps z) @ []) (req_dir c) =
    Some (?d\<lparr>done_streams := [(sid, ?st)]\<rparr>)"
    using assms request_frames_handled [OF assms(1,2,5-10), of ps z]
    by (subst feed_wire_aux) (simp_all add: frame_ready_def rebuffer_def)
  then have "FeedRequest H (wire (request_frames sid block ps z)) False c =
    Some (c\<lparr>req_dir := ?d\<rparr>, [completed_request (sid, ?st)])"
    using assms(4) by (simp add: FeedRequest_def feed_direction_def)
  moreover have "completed_request (sid, ?st) = \<lparr>cr_StreamID = sid, cr_Request = fst (buildRequest ?st),
      cr_BodyTruncated = (maxBodyPerStream < length (concat ps @ z))\<rparr>"
    using body(2) by (simp add: completed_request_def split_beta buildRequest_def)
  ultimately show ?thesis using assms body(1) req
    by (intro exI [of _ "c\<lparr>req_dir := ?d\<rparr>"] exI [of _ "fst (buildRequest ?st)"]) simp
qed

definition post_hpack :: "unit hpack" where
  "post_hpack = \<lparr>newDecoder = (), DecodeFull = \<lambda>s b.
     (s, Inr [\<lparr>hf_Name = '':method'', hf_Value = ''POST''\<rparr>, \<lparr>hf_Name = '':path'', hf_Value = b\<rparr>,
              \<lparr>hf_Name = ''te'', hf_Value = ''gzip''\<rparr>])\<rparr>"

theorem request_delivered_witness:
  "\<exists>c' req. FeedRequest post_hpack (wire (request_frames 1 ''/upload'' [''ab''] ''cd'')) False
      (NewHTTP2Conn post_hpack) =
    Some (c', [\<lparr>cr_StreamID = 1, cr_Request = req, cr_BodyTruncated = False\<rparr>]) \<and>
    req_Method req = ''POST'' \<and> req_Path req = ''/upload'' \<and> req_Version req = ''HTTP/2'' \<and>
    req_Body req = ''abcd'' \<and> req_Headers req ''te'' = Some ''gzip''"
proof -
  let ?fs = "[\<lparr>hf_Name = '':method'', hf_Value = ''POST''\<rparr>, \<lparr>hf_Name = '':path'', hf_Value = ''/upload''\<rparr>,
    \<lparr>hf_Name = ''te'', hf_Value = ''gzip''\<rparr>]"
  obtain c' req where "FeedRequest post_hpack (wire (request_frames 1 ''/upload'' [''ab''] ''cd'')) False (NewHTTP2Conn post_hpack) =
      Some (c', [\<lparr>cr_StreamID = 1, cr_Request = req, cr_BodyTruncated = (maxBodyPerStream < length (concat [''ab''] @ ''cd''))\<rparr>])"
    and "req_Method req = last ([] # map hf_Value (filter (\<lambda>f. hf_Name f = '':method'') ?fs))"
    and "req_Path req = last ([] # map hf_Value (filter (\<lambda>f. hf_Name f = '':path'') ?fs))"
    and "req_Version req = ''HTTP/2''"
    and "req_Body req = take maxBodyPerStream (concat [''ab''] @ ''cd'')"
    and "\<forall>name. req_Headers req name = join_values name (map hf_Value (filter (\<lambda>f. header_name f = Some name) ?fs))"
    using request_delivered [of "NewHTTP2Conn post_hpack" "[]" 1 "''/upload''" post_hpack "()" ?fs "[''ab'']" "''cd''"]
    by (fastforce simp: NewHTTP2Conn_def init_direction_def post_hpack_def request_frames_def frame_fits_def word_less_nat_alt)
  then show ?thesis
    by (intro exI [of _ c'] exI [of _ req] conjI) (simp_all add: request_name_def HasPrefix_def join_values_def)
qed

section \<open>Streams do not disturb each other\<close>

text \<open>The stream a frame is about: for a header block, the one the block was opened for.\<close>

definition frame_stream :: "u8 \<Rightarrow> u8 \<Rightarrow> u32 \<Rightarrow> bytes \<Rightarrow> 'd h2Direction \<Rightarrow> u32" where
  "frame_stream ft fl sid p d =
     (if ft = frameContinuation then target d
      else if ft = framePushPromise then
        (case (if has_flag fl flagPadded then stripPadding p else Some p) of
           None \<Rightarrow> sid
         | Some q \<Rightarrow> if length q < 4 then sid else be31 (q ! 0) (q ! 1) (q ! 2) (q ! 3))
      else sid)"

definition same_stream :: "u32 \<Rightarrow> 'd h2Direction \<Rightarrow> 'd h2Direction \<Rightarrow> bool" where
  "same_stream j d d' \<longleftrightarrow> get_stream d' j = get_stream d j \<and>
     filter (\<lambda>(k, st). k = j) (done_streams d') = filter (\<lambda>(k, st). k = j) (done_streams d)"

lemma same_stream_refl: "same_stream j d d"
  by (simp add: same_stream_def)

lemma del_stream_same: "j \<noteq> k \<Longrightarrow> same_stream j d (del_stream k d)"
  by (auto simp: same_stream_def del_stream_def get_stream_def map_of_delete split: option.split)

lemma upsert_same: "upsert k f e d = Some d' \<Longrightarrow> j \<noteq> k \<Longrightarrow> same_stream j d d'"
  by (auto simp: upsert_def Let_def same_stream_def put_stream_def complete_def del_stream_def get_stream_def
      map_of_delete map_of_update split: if_splits option.splits)

lemma finishBlock_same:
  assumes "finishBlock H d = Some d'" "\<not> poisoned d'" "j \<noteq> target d"
  shows "same_stream j d d'"
proof -
  obtain s r where D: "DecodeFull H (dec d) (frag d) = (s, r)" by fastforce
  let ?d = "d\<lparr>dec := s, assembling := False, frag := []\<rparr>"
  from assms D obtain fs where "upsert (target d) (add_fields fs) (endStream d) ?d = Some d'"
    by (auto simp: finishBlock_def Let_def poisoned_ops split: sum.splits)
  from upsert_same [OF this assms(3)] show ?thesis by (simp add: same_stream_def get_stream_def)
qed

lemma beginBlock_same:
  assumes "beginBlock H c t e fr eh d = Some d'" "\<not> poisoned d'" "j \<noteq> t"
  shows "same_stream j d d'"
proof -
  let ?d = "d\<lparr>assembling := True, contStream := c, target := t, endStream := e, frag := fr\<rparr>"
  from assms have "finishBlock H ?d = Some d' \<or> d' = ?d"
    by (auto simp: beginBlock_def Let_def poisoned_ops split: if_splits)
  with assms(2,3) finishBlock_same [of H ?d d' j] have "same_stream j ?d d'"
    by (auto intro: same_stream_refl)
  then show ?thesis by (simp add: same_stream_def get_stream_def)
qed

lemma onContinuation_same:
  assumes "onContinuation H fl sid p d = Some d'" "\<not> poisoned d'" "j \<noteq> target d"
  shows "same_stream j d d'"
proof -
  let ?d = "d\<lparr>frag := frag d @ p\<rparr>"
  from assms have "finishBlock H ?d = Some d' \<or> d' = ?d"
    by (auto simp: onContinuation_def Let_def poisoned_ops split: if_splits)
  with assms(2,3) finishBlock_same [of H ?d d' j] have "same_stream j ?d d'"
    by (auto intro: same_stream_refl)
  then show ?thesis by (simp add: same_stream_def get_stream_def)
qed

lemma onPushPromise_same:
  assumes "onPushPromise H fl sid p d = Some d'" "\<not> poisoned d'"
    and "j \<noteq> frame_stream framePushPromise fl sid p d"
  shows "same_stream j d d'"
proof -
  from assms(1,2) obtain q where q: "(if has_flag fl flagPadded then stripPadding p else Some p) = Some q"
    and len: "4 \<le> length q"
    and B: "beginBlock H sid (be31 (q ! 0) (q ! 1) (q ! 2) (q ! 3)) False (drop 4 q)
      (has_flag fl flagEndHeaders) d = Some d'"
    by (auto simp: onPushPromise_def poisoned_ops not_less split: option.splits if_splits)
  from q len assms(3) have "j \<noteq> be31 (q ! 0) (q ! 1) (q ! 2) (q ! 3)"
    by (simp add: frame_stream_def)
  from beginBlock_same [OF B assms(2) this] show ?thesis .
qed

text \<open>
  C35: a frame changes only the stream it is about: every other stream, under way or finished, is left
  as it was, whatever the frame holds, unless it poisons the direction.
\<close>

theorem streams_isolated:
  assumes "handleFrame H ft fl sid p d = Some d'" "\<not> poisoned d'" "j \<noteq> frame_stream ft fl sid p d"
  shows "same_stream j d d'"
proof -
  have headers: "onHeaders H fl sid p d = Some d' \<Longrightarrow> j \<noteq> sid \<Longrightarrow> same_stream j d d'"
    using assms(2) beginBlock_same
    by (auto simp: onHeaders_def Let_def poisoned_ops split: if_splits option.splits)
  have data: "onData fl sid p d = Some d' \<Longrightarrow> j \<noteq> sid \<Longrightarrow> same_stream j d d'"
    using assms(2) upsert_same by (auto simp: onData_def Let_def poisoned_ops split: if_splits)
  consider "ft = frameContinuation" "onContinuation H fl sid p d = Some d'"
    | "ft = framePushPromise" "onPushPromise H fl sid p d = Some d'"
    | "j \<noteq> sid" "onHeaders H fl sid p d = Some d' \<or> onData fl sid p d = Some d' \<or>
        d' = del_stream sid d \<or> d' = d"
    using assms by (auto simp: handleFrame_def poisoned_ops frame_stream_def split: if_splits)
  then show ?thesis
  proof cases
    case 1
    with assms show ?thesis by (intro onContinuation_same) (simp_all add: frame_stream_def)
  next
    case 2
    with assms show ?thesis by (intro onPushPromise_same) simp_all
  next
    case 3
    with headers data show ?thesis by (auto intro: del_stream_same same_stream_refl)
  qed
qed

theorem streams_isolated_witness:
  "\<exists>d'. handleFrame sample_hpack frameData 0 3 ''x'' (init_direction sample_hpack True) = Some d' \<and>
     same_stream 1 (init_direction sample_hpack True) d'"
proof -
  have "\<exists>d'. handleFrame sample_hpack frameData 0 3 ''x'' (init_direction sample_hpack True) = Some d' \<and> \<not> poisoned d'"
    by (simp add: handleFrame_def onData_def init_direction_def upsert_def get_stream_def len_streams_def
        put_stream_def has_flag_def)
  then show ?thesis
    using streams_isolated [of sample_hpack frameData 0 3 "''x''" "init_direction sample_hpack True" _ 1]
    by (auto simp: frame_stream_def)
qed

section \<open>Header blocks that never end\<close>

lemma continuations_flood:
  assumes "assembling d" "contStream d = sid" "\<not> poisoned d" "length (frag d) \<le> maxHeaderBlock"
    and "maxHeaderBlock < length (frag d @ concat bs)"
  shows "\<exists>d'. handle_frames H (continuations sid bs) d = Some d' \<and> poisoned d'"
  using assms
proof (induction bs arbitrary: d)
  case (Cons b bs)
  let ?d = "d\<lparr>frag := frag d @ b\<rparr>"
  show ?case
  proof (cases "maxHeaderBlock < length (frag d @ b)")
    case True
    with Cons.prems show ?thesis
      by (simp add: continuations_def handleFrame_def onContinuation_def handle_frames_poisoned poisoned_ops)
  next
    case False
    with Cons.prems have "handleFrame H frameContinuation 0 sid b d = Some ?d"
      by (simp add: handleFrame_def onContinuation_def)
    with False Cons.prems Cons.IH [of ?d] show ?thesis by (simp add: continuations_def)
  qed
qed simp

text \<open>
  A header block continued for ever is cut off: once its pieces exceed 256 KiB the direction is
  poisoned, however many or few frames it took.
\<close>

lemma continuation_flood:
  assumes "\<not> poisoned d" "\<not> assembling d" "sid \<noteq> 0"
    and "\<not> has_flag fl flagPadded" "\<not> has_flag fl flagPriority" "\<not> has_flag fl flagEndHeaders"
    and "maxHeaderBlock < length (b @ concat bs)"
  shows "\<exists>d'. handle_frames H ((frameHeaders, fl, sid, b) # continuations sid bs) d = Some d' \<and> poisoned d'"
proof -
  let ?d = "d\<lparr>assembling := True, contStream := sid, target := sid,
    endStream := has_flag fl flagEndStream, frag := b\<rparr>"
  show ?thesis
  proof (cases "maxHeaderBlock < length b")
    case True
    with assms show ?thesis
      by (simp add: handleFrame_def onHeaders_def beginBlock_def handle_frames_poisoned poisoned_ops)
  next
    case False
    with assms have "handleFrame H frameHeaders fl sid b d = Some ?d"
      by (simp add: handleFrame_def onHeaders_def beginBlock_def)
    with False assms(1,7) continuations_flood [of ?d sid bs H] show ?thesis by simp
  qed
qed

end
