(* ===== verification/Regexp.thy ===== *)
theory Regexp
  imports GoText
begin

text \<open>
  The part of package regexp that masking uses, as a backtracking matcher: expressions over bytes,
  leftmost-first matching with one capture group, and ReplaceAllString. The patterns of the program
  match a multi-byte character only inside negated classes or as a case variant that is written out,
  so matching bytes and matching Go's runes find the same text.
\<close>

section \<open>Expressions\<close>

text \<open>
  \<open>Star True\<close> prefers more repetitions, \<open>Star False\<close> fewer; \<open>Group\<close> is the group \<^verbatim>\<open>$1\<close>.
\<close>

datatype re =
    Eps
  | Cls "bytes"
  | NCls "bytes"
  | WordB
  | Cat re re
  | Alt re re
  | Star bool re
  | Group re

type_synonym match = "nat \<times> (nat \<times> nat) option"

definition word_byte :: "byte \<Rightarrow> bool" where
  "word_byte c \<longleftrightarrow> (let n = of_char c :: nat in
     48 \<le> n \<and> n \<le> 57 \<or> 65 \<le> n \<and> n \<le> 90 \<or> 97 \<le> n \<and> n \<le> 122 \<or> n = 95)"

definition boundary :: "bytes \<Rightarrow> nat \<Rightarrow> bool" where
  "boundary s i \<longleftrightarrow> (0 < i \<and> i \<le> length s \<and> word_byte (s ! (i - 1))) \<noteq> (i < length s \<and> word_byte (s ! i))"

section \<open>Matching\<close>

text \<open>
  \<open>rm r s k x\<close> tries the ways \<open>r\<close> can match \<open>s\<close> from the position of \<open>x\<close>, in order of preference,
  until the continuation \<open>k\<close> accepts one. A repetition goes on only when it has consumed something,
  so \<open>length s\<close> turns are enough.
\<close>

primrec rep :: "((match \<Rightarrow> 'a option) \<Rightarrow> match \<Rightarrow> 'a option) \<Rightarrow> bool \<Rightarrow> (match \<Rightarrow> 'a option) \<Rightarrow> nat \<Rightarrow> match \<Rightarrow> 'a option" where
  "rep m greedy k 0 x = k x"
| "rep m greedy k (Suc n) x =
     (if greedy then
        (case m (\<lambda>y. if fst x < fst y then rep m greedy k n y else None) x of
           None \<Rightarrow> k x | Some z \<Rightarrow> Some z)
      else
        (case k x of
           None \<Rightarrow> m (\<lambda>y. if fst x < fst y then rep m greedy k n y else None) x | Some z \<Rightarrow> Some z))"

primrec rm :: "re \<Rightarrow> bytes \<Rightarrow> (match \<Rightarrow> 'a option) \<Rightarrow> match \<Rightarrow> 'a option" where
  "rm Eps s k x = k x"
| "rm (Cls cs) s k x = (if fst x < length s \<and> s ! fst x \<in> set cs then k (Suc (fst x), snd x) else None)"
| "rm (NCls cs) s k x = (if fst x < length s \<and> s ! fst x \<notin> set cs then k (Suc (fst x), snd x) else None)"
| "rm WordB s k x = (if boundary s (fst x) then k x else None)"
| "rm (Cat a b) s k x = rm a s (rm b s k) x"
| "rm (Alt a b) s k x = (case rm a s k x of None \<Rightarrow> rm b s k x | Some z \<Rightarrow> Some z)"
| "rm (Star greedy a) s k x = rep (rm a s) greedy k (length s) x"
| "rm (Group a) s k x = rm a s (\<lambda>y. k (fst y, Some (fst x, fst y))) x"

text \<open>The least number of bytes an expression matches.\<close>

primrec min_width :: "re \<Rightarrow> nat" where
  "min_width Eps = 0"
| "min_width (Cls cs) = 1"
| "min_width (NCls cs) = 1"
| "min_width WordB = 0"
| "min_width (Cat a b) = min_width a + min_width b"
| "min_width (Alt a b) = min (min_width a) (min_width b)"
| "min_width (Star greedy a) = 0"
| "min_width (Group a) = min_width a"

text \<open>Whatever a match returns, the continuation returned at a position within the text.\<close>

definition reaches :: "nat \<Rightarrow> nat \<Rightarrow> (match \<Rightarrow> 'a option) \<Rightarrow> match \<Rightarrow> 'a \<Rightarrow> bool" where
  "reaches w len k x z \<longleftrightarrow>
     (\<exists>y. k y = Some z \<and> fst x + w \<le> fst y \<and> (fst x \<le> len \<longrightarrow> fst y \<le> len))"

lemma reaches_refl: "k x = Some z \<Longrightarrow> reaches 0 len k x z"
  unfolding reaches_def by (intro exI [of _ x]) simp

lemma reaches_weaken: "reaches w len k x z \<Longrightarrow> w' \<le> w \<Longrightarrow> reaches w' len k x z"
  unfolding reaches_def by (meson add_left_mono order_trans)

lemma reaches_trans:
  assumes "reaches w len k x z" "\<And>y. k y = Some z \<Longrightarrow> reaches w' len k' y z"
  shows "reaches (w + w') len k' x z"
proof -
  from assms(1) obtain y where y: "k y = Some z" "fst x + w \<le> fst y" "fst x \<le> len \<longrightarrow> fst y \<le> len"
    by (auto simp: reaches_def)
  from assms(2) [OF y(1)] obtain y' where "k' y' = Some z" "fst y + w' \<le> fst y'" "fst y \<le> len \<longrightarrow> fst y' \<le> len"
    by (auto simp: reaches_def)
  with y show ?thesis unfolding reaches_def by (intro exI [of _ y']) auto
qed

lemma rep_reaches:
  assumes "\<And>k x. m k x = Some z \<Longrightarrow> reaches 0 len k x z"
  shows "rep m greedy k n x = Some z \<Longrightarrow> reaches 0 len k x z"
proof (induction n arbitrary: x)
  case (Suc n)
  let ?k = "\<lambda>y. if fst x < fst y then rep m greedy k n y else None"
  have "m ?k x = Some z \<or> k x = Some z"
  proof -
    have "(case m ?k x of None \<Rightarrow> k x | Some z \<Rightarrow> Some z) = Some z \<or>
        (case k x of None \<Rightarrow> m ?k x | Some z \<Rightarrow> Some z) = Some z"
      using Suc.prems by (simp only: rep.simps split: if_splits) simp_all
    then show ?thesis by (auto split: option.splits)
  qed
  then show ?case
  proof
    assume "m ?k x = Some z"
    from assms [OF this] have "reaches (0 + 0) len k x z"
      by (rule reaches_trans) (auto split: if_splits intro: Suc.IH)
    then show ?thesis by simp
  qed (rule reaches_refl)
qed (simp add: reaches_refl)

lemma rm_reaches: "rm r s k x = Some z \<Longrightarrow> reaches (min_width r) (length s) k x z"
proof (induction r arbitrary: k x)
  case (Cat a b)
  then have "reaches (min_width a) (length s) (rm b s k) x z" by simp
  then show ?case using Cat.IH(2) by (auto intro: reaches_trans)
next
  case (Alt a b)
  then have "reaches (min_width a) (length s) k x z \<or> reaches (min_width b) (length s) k x z"
    by (auto split: option.splits)
  then show ?case by (auto intro: reaches_weaken)
next
  case (Star greedy a)
  have "rm a s k x = Some z \<Longrightarrow> reaches 0 (length s) k x z" for k x
    using Star.IH by (blast intro: reaches_weaken)
  from rep_reaches [OF this] Star.prems show ?case by simp
next
  case (Group a)
  then show ?case by (fastforce simp: reaches_def)
qed (auto simp: reaches_def split: if_splits)

section \<open>Search and replacement\<close>

definition match_at :: "re \<Rightarrow> bytes \<Rightarrow> nat \<Rightarrow> match option" where
  "match_at r s i = rm r s Some (i, None)"

definition first_match :: "re \<Rightarrow> bytes \<Rightarrow> nat \<Rightarrow> nat option" where
  "first_match r s i = find (\<lambda>j. match_at r s j \<noteq> None) [i..<Suc (length s)]"

text \<open>A replacement template: text, and the place of \<^verbatim>\<open>$1\<close>.\<close>

datatype piece = Text bytes | Cap1

definition expand :: "piece list \<Rightarrow> bytes \<Rightarrow> (nat \<times> nat) option \<Rightarrow> bytes" where
  "expand pieces s cap =
     concat (map (\<lambda>p. case p of Text t \<Rightarrow> t
        | Cap1 \<Rightarrow> (case cap of None \<Rightarrow> [] | Some (a, b) \<Rightarrow> take (b - a) (drop a s))) pieces)"

lemma match_at_bounds:
  assumes "match_at r s i = Some (e, cap)" "i \<le> length s"
  shows "i + min_width r \<le> e" "e \<le> length s"
  using rm_reaches [OF assms(1) [unfolded match_at_def]] assms(2) by (auto simp: reaches_def)

lemma first_match_Some:
  assumes "first_match r s i = Some j"
  shows "i \<le> j" "j \<le> length s" "\<exists>e cap. match_at r s j = Some (e, cap)"
proof -
  from assms have "j \<in> set [i..<Suc (length s)] \<and> match_at r s j \<noteq> None"
    unfolding first_match_def by (auto simp: find_Some_iff in_set_conv_nth simp del: upt_Suc)
  then show "i \<le> j" "j \<le> length s" "\<exists>e cap. match_at r s j = Some (e, cap)" by auto
qed

lemma first_match_None_iff:
  "first_match r s i = None \<longleftrightarrow> (\<forall>j. i \<le> j \<and> j \<le> length s \<longrightarrow> match_at r s j = None)"
  unfolding first_match_def find_None_iff set_upt by (auto simp del: not_None_eq simp: less_Suc_eq_le)

text \<open>
  ReplaceAllString from a position on. The empty match, after which Go steps over one character, is
  not written out: an expression of positive width has none.
\<close>

function replace_from :: "re \<Rightarrow> piece list \<Rightarrow> bytes \<Rightarrow> nat \<Rightarrow> bytes" where
  "replace_from r pieces s i =
     (case first_match r s i of
        None \<Rightarrow> drop i s
      | Some j \<Rightarrow>
          (case match_at r s j of
             None \<Rightarrow> drop i s
           | Some (e, cap) \<Rightarrow>
               if e \<le> j then drop i s
               else take (j - i) (drop i s) @ expand pieces s cap @ replace_from r pieces s e))"
  by pat_completeness auto
termination
proof (relation "measure (\<lambda>(r, pieces, s, i). Suc (length s) - i)", goal_cases)
  case (2 r pieces s i j x e cap)
  then have "i \<le> j" "j \<le> length s" by (auto dest: first_match_Some)
  with 2 show ?case by auto
qed simp

declare replace_from.simps [simp del]

definition ReplaceAllString :: "re \<Rightarrow> piece list \<Rightarrow> bytes \<Rightarrow> bytes" where
  "ReplaceAllString r pieces s = replace_from r pieces s 0"

lemma match_nonempty:
  assumes "0 < min_width r" "first_match r s i = Some j" "match_at r s j = Some (e, cap)"
  shows "j < e"
  using match_at_bounds [OF assms(3)] first_match_Some [OF assms(2)] assms(1) by simp

lemma ReplaceAllString_no_match: "first_match r s 0 = None \<Longrightarrow> ReplaceAllString r pieces s = s"
  by (simp add: ReplaceAllString_def replace_from.simps)

lemma replace_at_end:
  assumes "0 < min_width r"
  shows "replace_from r pieces s (length s) = []"
proof -
  have "match_at r s (length s) = None"
    using match_at_bounds [of r s "length s"] assms by (cases "match_at r s (length s)") auto
  then have "first_match r s (length s) = None"
    by (auto simp: first_match_None_iff dest: order_antisym)
  then show ?thesis by (simp add: replace_from.simps)
qed

text \<open>A match of the whole text is replaced as a whole.\<close>

lemma ReplaceAllString_whole:
  assumes "match_at r s 0 = Some (length s, cap)" "s \<noteq> []" "0 < min_width r"
  shows "ReplaceAllString r pieces s = expand pieces s cap"
proof -
  have "[0..<Suc (length s)] = 0 # [Suc 0..<Suc (length s)]" by (rule upt_conv_Cons) simp
  with assms(1) have "first_match r s 0 = Some 0" unfolding first_match_def by simp
  with assms show ?thesis
    by (simp add: ReplaceAllString_def replace_from.simps [of _ _ _ 0] replace_at_end)
qed

section \<open>Derived expressions\<close>

fun cats :: "re list \<Rightarrow> re" where
  "cats [] = Eps"
| "cats [r] = r"
| "cats (r # rs) = Cat r (cats rs)"

definition lit :: "bytes \<Rightarrow> re" where
  "lit cs = cats (map (\<lambda>c. Cls [c]) cs)"

fun alts :: "re list \<Rightarrow> re" where
  "alts [] = Cls []"
| "alts [r] = r"
| "alts (r # rs) = Alt r (alts rs)"

definition plus_re :: "re \<Rightarrow> re" where
  "plus_re r = Cat r (Star True r)"

definition opt :: "re \<Rightarrow> re" where
  "opt r = Alt r Eps"

fun times_re :: "nat \<Rightarrow> re \<Rightarrow> re" where
  "times_re 0 r = Eps"
| "times_re (Suc n) r = Cat r (times_re n r)"

text \<open>\<open>r{n,}\<close> and \<open>r{n,n+m}\<close>.\<close>

definition at_least :: "nat \<Rightarrow> re \<Rightarrow> re" where
  "at_least n r = Cat (times_re n r) (Star True r)"

fun up_to :: "nat \<Rightarrow> re \<Rightarrow> re" where
  "up_to 0 r = Eps"
| "up_to (Suc m) r = opt (Cat r (up_to m r))"

text \<open>
  A letter under \<^verbatim>\<open>(?i)\<close>: both cases, and for \<^verbatim>\<open>s\<close> and \<^verbatim>\<open>k\<close> the long s and the Kelvin sign, which
  Unicode folds to them.
\<close>

definition long_s :: bytes where "long_s = [CHR 0xC5, CHR 0xBF]"
definition kelvin :: bytes where "kelvin = [CHR 0xE2, CHR 0x84, CHR 0xAA]"

fun clear_bit5 :: "byte \<Rightarrow> byte" where
  "clear_bit5 (Char b0 b1 b2 b3 b4 b5 b6 b7) = Char b0 b1 b2 b3 b4 False b6 b7"

definition upper_of :: "byte \<Rightarrow> byte" where
  "upper_of c = (if c \<in> set ''abcdefghijklmnopqrstuvwxyz'' then clear_bit5 c else c)"

definition fold_byte :: "byte \<Rightarrow> re" where
  "fold_byte c =
     (if c = CHR ''s'' then Alt (Cls ''sS'') (lit long_s)
      else if c = CHR ''k'' then Alt (Cls ''kK'') (lit kelvin)
      else Cls [c, upper_of c])"

definition lit_ci :: "bytes \<Rightarrow> re" where
  "lit_ci cs = cats (map fold_byte cs)"

definition lower_letters :: bytes where "lower_letters = ''abcdefghijklmnopqrstuvwxyz''"
definition upper_letters :: bytes where "upper_letters = ''ABCDEFGHIJKLMNOPQRSTUVWXYZ''"
definition digits :: bytes where "digits = ''0123456789''"
definition spaces :: bytes where "spaces = [CHR 0x09, CHR 0x0A, CHR 0x0C, CHR 0x0D, CHR 0x20]"

text \<open>A class that holds all letters, under \<^verbatim>\<open>(?i)\<close>.\<close>

definition letters_ci :: "bytes \<Rightarrow> re" where
  "letters_ci cs = alts [Cls (lower_letters @ upper_letters @ cs), lit long_s, lit kelvin]"

end
