(* ===== verification/Masking.thy ===== *)
theory Masking
  imports Http1 Regexp
begin

text \<open>
  Masking of secrets before a message is logged, \<^verbatim>\<open>internal/masking/masking.go\<close>: sensitive headers,
  sensitive fields of JSON bodies at any depth, and a list of patterns in any other body. The
  library's JSON reader and writer are parameters.
\<close>

section \<open>Headers\<close>

definition sensitiveHeaders :: "bytes list" where
  "sensitiveHeaders =
     [''authorization'', ''proxy-authorization'', ''cookie'', ''set-cookie'', ''x-api-key'', ''x-auth-token'',
      ''x-csrf-token'', ''x-amz-security-token'']"

definition redacted_header :: bytes where
  "redacted_header = ''[REDACTED_HEADER]''"

definition maskHeaders :: "(bytes \<Rightarrow> bytes) \<Rightarrow> (bytes \<rightharpoonup> bytes) \<Rightarrow> (bytes \<rightharpoonup> bytes)" where
  "maskHeaders uni headers =
     (\<lambda>headerName. if ToLower uni headerName \<in> set sensitiveHeaders
        then map_option (\<lambda>_. redacted_header) (headers headerName) else headers headerName)"

section \<open>JSON\<close>

definition sensitiveFields :: "bytes list" where
  "sensitiveFields =
     [''password'', ''passwd'', ''pwd'', ''token'', ''access_token'', ''refresh_token'', ''secret'',
      ''client_secret'', ''api_key'', ''apikey'', ''email'', ''phone'', ''ssn'', ''credit_card'', ''card_number'',
      ''private_key'', ''jwt'', ''aadhaar'', ''aadhaar_number'', ''pan'', ''pan_number'', ''upi'', ''upi_id'',
      ''ifsc'', ''account_number'', ''bank_account'', ''passport'', ''passport_no'', ''driver_license'', ''dl'',
      ''voter_id'', ''cvv'', ''expiry'', ''expiry_date'', ''dob'', ''date_of_birth'']"

text \<open>
  A value as Unmarshal makes it for a target of type any: a number is the 64 bits of a float, an
  object a map, here the list of its entries.
\<close>

datatype json =
    JNull
  | JBool bool
  | JNumber u64
  | JString bytes
  | JArray "json list"
  | JObject "(bytes \<times> json) list"

definition redacted :: json where
  "redacted = JString ''[REDACTED]''"

definition sensitive :: "(bytes \<Rightarrow> bytes) \<Rightarrow> bytes \<Rightarrow> bool" where
  "sensitive uni key \<longleftrightarrow> ToLower uni key \<in> set sensitiveFields"

fun maskJSON :: "(bytes \<Rightarrow> bytes) \<Rightarrow> json \<Rightarrow> json" where
  "maskJSON uni (JObject kvs) =
     JObject (map (\<lambda>(key, val). (key, if sensitive uni key then redacted else maskJSON uni val)) kvs)"
| "maskJSON uni (JArray items) = JArray (map (maskJSON uni) items)"
| "maskJSON uni v = v"

section \<open>Plain text\<close>

definition value_stops :: bytes where
  "value_stops = spaces @ [CHR ''&'', CHR '','', CHR 0x22, CHR 0x27]"

text \<open>\<^verbatim>\<open>(?i)(names)\s*[:=]\s*([^\s&,"']+)\<close>\<close>

definition assignment :: "bytes list \<Rightarrow> re" where
  "assignment names =
     cats [Group (alts (map lit_ci names)), Star True (Cls spaces), Cls '':='', Star True (Cls spaces),
       plus_re (NCls value_stops)]"

definition password_pattern :: re where
  "password_pattern = assignment [''password'', ''passwd'', ''pwd'']"

definition token_pattern :: re where
  "token_pattern = assignment
     [''token'', ''access_token'', ''refresh_token'', ''jwt'', ''api_key'', ''apikey'', ''client_secret'', ''secret'',
      ''bearer'']"

definition authorization_pattern :: re where
  "authorization_pattern =
     cats [lit_ci ''authorization'', Star True (Cls spaces), Cls '':'', Star True (Cls spaces),
       lit_ci ''bearer'', plus_re (Cls spaces), plus_re (letters_ci (digits @ ''-._~+/'')), Star True (Cls ''='')]"

definition jwt_pattern :: re where
  "jwt_pattern =
     (let alnum = lower_letters @ upper_letters @ digits in
      cats [lit ''eyJ'', plus_re (Cls (alnum @ ''_-'')), Cls ''.'', plus_re (Cls (alnum @ ''._-'')), Cls ''.'',
        plus_re (Cls (alnum @ ''._-''))])"

definition email_pattern :: re where
  "email_pattern =
     cats [plus_re (letters_ci (digits @ ''._%+-'')), Cls ''@'', plus_re (letters_ci (digits @ ''.-'')), Cls ''.'',
       at_least 2 (letters_ci [])]"

definition phone_pattern :: re where
  "phone_pattern =
     cats [opt (Cat (lit ''+91'') (opt (Cls ''- ''))), Cls ''6789'', times_re 9 (Cls digits)]"

definition aadhaar_pattern :: re where
  "aadhaar_pattern =
     (let d4 = times_re 4 (Cls digits); sp = opt (Cls spaces) in cats [WordB, d4, sp, d4, sp, d4, WordB])"

definition pan_pattern :: re where
  "pan_pattern =
     cats [WordB, times_re 5 (Cls upper_letters), times_re 4 (Cls digits), Cls upper_letters, WordB]"

definition upi_pattern :: re where
  "upi_pattern =
     (let letters = lower_letters @ upper_letters in
      cats [WordB, at_least 2 (Cls (letters @ digits @ ''.-_'')), Cls ''@'', at_least 2 (Cls letters), WordB])"

definition ifsc_pattern :: re where
  "ifsc_pattern =
     cats [WordB, times_re 4 (Cls upper_letters), Cls ''0'', times_re 6 (Cls (upper_letters @ digits)), WordB]"

definition passport_pattern :: re where
  "passport_pattern = cats [WordB, Cls upper_letters, times_re 7 (Cls digits), WordB]"

definition voter_pattern :: re where
  "voter_pattern = cats [WordB, times_re 3 (Cls upper_letters), times_re 7 (Cls digits), WordB]"

definition card_pattern :: re where
  "card_pattern =
     (let d = Cat (Cls digits) (Star False (Cls '' -'')) in cats [WordB, times_re 13 d, up_to 6 d, WordB])"

definition ip_pattern :: re where
  "ip_pattern =
     (let d13 = Cat (Cls digits) (up_to 2 (Cls digits))
      in cats [WordB, times_re 3 (Cat d13 (Cls ''.'')), d13, WordB])"

definition plaintextPatterns :: "(re \<times> piece list) list" where
  "plaintextPatterns =
     [(password_pattern, [Cap1, Text ''=[REDACTED]'']),
      (token_pattern, [Cap1, Text ''=[REDACTED]'']),
      (authorization_pattern, [Text ''Authorization: Bearer [REDACTED]'']),
      (jwt_pattern, [Text ''[REDACTED_JWT]'']),
      (email_pattern, [Text ''[REDACTED_EMAIL]'']),
      (phone_pattern, [Text ''[REDACTED_PHONE]'']),
      (aadhaar_pattern, [Text ''[REDACTED_AADHAAR]'']),
      (pan_pattern, [Text ''[REDACTED_PAN]'']),
      (upi_pattern, [Text ''[REDACTED_UPI]'']),
      (ifsc_pattern, [Text ''[REDACTED_IFSC]'']),
      (passport_pattern, [Text ''[REDACTED_PASSPORT]'']),
      (voter_pattern, [Text ''[REDACTED_VOTER_ID]'']),
      (card_pattern, [Text ''[REDACTED_CARD]'']),
      (ip_pattern, [Text ''[REDACTED_IP]''])]"

definition maskPlaintext :: "bytes \<Rightarrow> bytes" where
  "maskPlaintext body = foldl (\<lambda>s (re, repl). ReplaceAllString re repl s) body plaintextPatterns"

section \<open>Messages\<close>

text \<open>\<open>None\<close> is the error return of either.\<close>

record json_lib =
  Unmarshal :: "bytes \<Rightarrow> json option"
  Marshal :: "json \<Rightarrow> bytes option"

definition maskBody :: "json_lib \<Rightarrow> (bytes \<Rightarrow> bytes) \<Rightarrow> bytes \<Rightarrow> bytes" where
  "maskBody J uni body =
     (case Unmarshal J body of
        Some obj \<Rightarrow> (case Marshal J (maskJSON uni obj) of None \<Rightarrow> body | Some masked \<Rightarrow> masked)
      | None \<Rightarrow> maskPlaintext body)"

definition MaskRequest :: "json_lib \<Rightarrow> (bytes \<Rightarrow> bytes) \<Rightarrow> HTTPRequest \<Rightarrow> HTTPRequest" where
  "MaskRequest J uni req =
     req\<lparr>req_Headers := maskHeaders uni (req_Headers req), req_Body := maskBody J uni (req_Body req)\<rparr>"

definition MaskResponse :: "json_lib \<Rightarrow> (bytes \<Rightarrow> bytes) \<Rightarrow> HTTPResponse \<Rightarrow> HTTPResponse" where
  "MaskResponse J uni resp =
     resp\<lparr>resp_Headers := maskHeaders uni (resp_Headers resp), resp_Body := maskBody J uni (resp_Body resp)\<rparr>"

lemma patterns_positive: "list_all (\<lambda>(re, repl). 0 < min_width re) plaintextPatterns"
  unfolding plaintextPatterns_def list.pred_inject prod.case
  by (intro conjI TrueI; simp add: password_pattern_def token_pattern_def assignment_def plus_re_def
      authorization_pattern_def jwt_pattern_def email_pattern_def phone_pattern_def aadhaar_pattern_def
      pan_pattern_def upi_pattern_def ifsc_pattern_def passport_pattern_def voter_pattern_def card_pattern_def
      ip_pattern_def letters_ci_def at_least_def Let_def lit_def lit_ci_def fold_byte_def opt_def numeral_eq_Suc)

end
