(* ===== verification/Masking_Props.thy ===== *)
theory Masking_Props
  imports Masking
begin

text \<open>
  What masking guarantees: after it no sensitive header or JSON field, at any depth, keeps its value
  and nothing else changes; a password assignment in plain text leaves no trace of the password. And
  what it does not: three plain texts whose secret survives.
\<close>

section \<open>Headers\<close>

text \<open>
  After masking, every sensitive header of a request or response reads as redacted and every other
  one, the set of names and the rest of the message's head stay as they were.
\<close>

lemma MaskRequest_headers:
  "req_Headers (MaskRequest J uni req) name =
     (if ToLower uni name \<in> set sensitiveHeaders \<and> req_Headers req name \<noteq> None
      then Some ''[REDACTED_HEADER]'' else req_Headers req name) \<and>
   resp_Headers (MaskResponse J uni resp) name =
     (if ToLower uni name \<in> set sensitiveHeaders \<and> resp_Headers resp name \<noteq> None
      then Some ''[REDACTED_HEADER]'' else resp_Headers resp name) \<and>
   dom (req_Headers (MaskRequest J uni req)) = dom (req_Headers req) \<and>
   req_Path (MaskRequest J uni req) = req_Path req \<and> req_Method (MaskRequest J uni req) = req_Method req \<and>
   resp_Code (MaskResponse J uni resp) = resp_Code resp"
  by (auto simp: MaskRequest_def MaskResponse_def maskHeaders_def redacted_header_def dom_def split: if_splits)

section \<open>JSON\<close>

text \<open>No sensitive field of the value, at any depth, holds anything but the redaction.\<close>

fun clean :: "(bytes \<Rightarrow> bytes) \<Rightarrow> json \<Rightarrow> bool" where
  "clean uni (JObject kvs) \<longleftrightarrow>
     list_all (\<lambda>(key, val). if sensitive uni key then val = redacted else clean uni val) kvs"
| "clean uni (JArray items) \<longleftrightarrow> list_all (clean uni) items"
| "clean uni v \<longleftrightarrow> True"

lemma maskJSON_clean: "clean uni (maskJSON uni v)"
  by (induction uni v rule: maskJSON.induct) (auto simp: list_all_iff)

lemma clean_masked: "clean uni v \<Longrightarrow> maskJSON uni v = v"
proof (induction uni v rule: maskJSON.induct)
  case (1 uni kvs)
  then show ?case by (auto simp: list_all_iff intro!: map_idI)
next
  case (2 uni items)
  then show ?case by (auto simp: list_all_iff intro!: map_idI)
qed auto

text \<open>The value at a path of object keys and array positions.\<close>

datatype json_step = Key bytes | Idx nat

fun json_at :: "json_step list \<Rightarrow> json \<Rightarrow> json option" where
  "json_at [] v = Some v"
| "json_at (Key k # path) (JObject kvs) = Option.bind (map_of kvs k) (json_at path)"
| "json_at (Idx i # path) (JArray items) = (if i < length items then json_at path (items ! i) else None)"
| "json_at (st # path) v = None"

lemma map_of_masked:
  "map_of (map (\<lambda>(key, val). (key, f key val)) kvs) k = map_option (f k) (map_of kvs k)"
  by (induction kvs) auto

lemma json_at_masked:
  assumes "list_all (\<lambda>st. case st of Key k \<Rightarrow> \<not> sensitive uni k | Idx i \<Rightarrow> True) path"
  shows "json_at path (maskJSON uni v) = map_option (maskJSON uni) (json_at path v)"
  using assms
proof (induction path v rule: json_at.induct)
  case (2 k path kvs)
  then show ?case
    by (cases "map_of kvs k")
      (simp_all add: map_of_masked [where f = "\<lambda>key val. if sensitive uni key then redacted else maskJSON uni val"])
qed auto

lemma json_at_append:
  "json_at (path @ path') v = Option.bind (json_at path v) (json_at path')"
proof (induction path v rule: json_at.induct)
  case (2 k path kvs)
  then show ?case by (cases "map_of kvs k") simp_all
qed auto

text \<open>
  C30: masking a JSON value redacts exactly the sensitive fields: a path without sensitive keys leads to
  the masked form of what it led to, and one more key leads to the redaction if it is sensitive and was
  there; no sensitive field at any depth keeps its value, and masking twice is masking once.
\<close>

theorem maskJSON_redacts:
  assumes "list_all (\<lambda>st. case st of Key k \<Rightarrow> \<not> sensitive uni k | Idx i \<Rightarrow> True) path"
  shows "json_at path (maskJSON uni v) = map_option (maskJSON uni) (json_at path v) \<and>
    json_at (path @ [Key k]) (maskJSON uni v) =
      map_option (\<lambda>w. if sensitive uni k then JString ''[REDACTED]'' else maskJSON uni w)
        (json_at (path @ [Key k]) v) \<and>
    clean uni (maskJSON uni v) \<and> maskJSON uni (maskJSON uni v) = maskJSON uni v"
proof (intro conjI)
  show "json_at path (maskJSON uni v) = map_option (maskJSON uni) (json_at path v)"
    by (rule json_at_masked [OF assms])
  have "json_at [Key k] (maskJSON uni w) =
      map_option (\<lambda>u. if sensitive uni k then JString ''[REDACTED]'' else maskJSON uni u) (json_at [Key k] w)" for w
    by (cases w; cases "map_of (case w of JObject kvs \<Rightarrow> kvs) k")
      (simp_all add: map_of_masked [where f = "\<lambda>key val. if sensitive uni key then redacted else maskJSON uni val"],
        simp_all add: redacted_def)
  then show "json_at (path @ [Key k]) (maskJSON uni v) =
      map_option (\<lambda>w. if sensitive uni k then JString ''[REDACTED]'' else maskJSON uni w)
        (json_at (path @ [Key k]) v)"
    by (cases "json_at path v") (simp_all add: json_at_append json_at_masked [OF assms])
  show "clean uni (maskJSON uni v)" by (rule maskJSON_clean)
  then show "maskJSON uni (maskJSON uni v) = maskJSON uni v" by (rule clean_masked)
qed

theorem maskJSON_redacts_witness:
  "json_at [Key ''user'', Idx 0, Key ''Password''] (maskJSON id (JObject [(''user'', JArray [JObject
     [(''Password'', JString ''hunter2''), (''name'', JString ''bob'')]])])) = Some (JString ''[REDACTED]'')"
proof -
  have "sensitive id ''Password''" "\<not> sensitive id ''user''"
    by (simp_all add: sensitive_def sensitiveFields_def ToLower_def ascii_def lower_byte_def is_upper_def)
  with maskJSON_redacts [of id "[Key ''user'', Idx 0]" "JObject [(''user'', JArray [JObject
     [(''Password'', JString ''hunter2''), (''name'', JString ''bob'')]])]" "''Password''"]
  show ?thesis by simp
qed

text \<open>
  A body that reads as JSON is logged as the masked value, whatever library reads and writes it: if
  what is written reads back as it was, the logged body has no sensitive field left and is itself
  masked to the same bytes.
\<close>

lemma maskBody_json:
  assumes "Unmarshal J body = Some v" "Marshal J (maskJSON uni v) = Some out"
    and "Unmarshal J out = Some (maskJSON uni v)"
  shows "maskBody J uni body = out \<and> maskBody J uni (maskBody J uni body) = out \<and>
    (\<exists>w. Unmarshal J (maskBody J uni body) = Some w \<and> clean uni w)"
  using assms maskJSON_clean [of uni v] clean_masked [OF maskJSON_clean]
  by (simp add: maskBody_def)

section \<open>Plain text\<close>

lemma rep_class:
  assumes "length s \<le> i + n" "i \<le> length s"
  shows "rep (rm (NCls cs) s) True Some n (i, c) = Some (i + length (takeWhile (\<lambda>x. x \<notin> set cs) (drop i s)), c)"
  using assms
proof (induction n arbitrary: i)
  case (Suc n)
  show ?case
  proof (cases "i < length s")
    case True
    then have "drop i s = s ! i # drop (Suc i) s" by (simp add: Cons_nth_drop_Suc)
    with True Suc show ?thesis by simp
  qed simp
qed simp
lemma star_stops:
  "\<not> (i < length s \<and> s ! i \<in> set cs) \<Longrightarrow> rm (Star True (Cls cs)) s k (i, c) = k (i, c)"
  by (cases "length s") auto

lemma password_names:
  "lit_ci ''password'' = cats [Cls ''pP'', Cls ''aA'', Alt (Cls ''sS'') (lit long_s), Alt (Cls ''sS'') (lit long_s),
     Cls ''wW'', Cls ''oO'', Cls ''rR'', Cls ''dD'']"
  "lit_ci ''passwd'' = cats [Cls ''pP'', Cls ''aA'', Alt (Cls ''sS'') (lit long_s), Alt (Cls ''sS'') (lit long_s),
     Cls ''wW'', Cls ''dD'']"
  "lit_ci ''pwd'' = cats [Cls ''pP'', Cls ''wW'', Cls ''dD'']"
  by code_simp+

lemma password_group:
  "rm (Group (alts (map lit_ci [''password'', ''passwd'', ''pwd'']))) (''password='' @ v) k (0, None) =
     k (length ''password'', Some (0, length ''password''))"
  by (simp add: password_names long_s_def lit_def split: option.split)

lemma plus_class:
  assumes "i < length s" "list_all (\<lambda>c. c \<notin> set cs) (drop i s)"
  shows "rm (plus_re (NCls cs)) s Some (i, c) = Some (length s, c)"
proof -
  have "s ! i \<notin> set cs" "takeWhile (\<lambda>x. x \<notin> set cs) (drop (Suc i) s) = drop (Suc i) s"
    using assms by (auto simp: list_all_iff Cons_nth_drop_Suc [symmetric] takeWhile_eq_all_conv simp del: drop_Suc_Cons)
  with assms(1) rep_class [of s "Suc i" "length s" cs c] show ?thesis by (simp add: plus_re_def)
qed

lemma password_match:
  assumes "v \<noteq> []" "list_all (\<lambda>c. c \<notin> set value_stops) v"
  shows "match_at password_pattern (''password='' @ v) 0 =
    Some (length (''password='' @ v), Some (0, length ''password''))"
proof -
  let ?s = "''password='' @ v"
  have eq: "?s ! length ''password'' = CHR ''=''" by simp
  have val: "rm (plus_re (NCls value_stops)) ?s Some (length ''password='', c) = Some (length ?s, c)" for c
    using assms by (intro plus_class) simp_all
  have "hd v \<notin> set spaces" using assms by (cases v) (auto simp: value_stops_def)
  then have "?s ! length ''password='' \<notin> set spaces" using assms(1) by (cases v) simp_all
  then have sp2: "rm (Star True (Cls spaces)) ?s k (length ''password='', c) = k (length ''password='', c)" for k :: "match \<Rightarrow> match option" and c
    by (intro star_stops) blast
  have "CHR ''='' \<notin> set spaces" by (simp add: spaces_def)
  with eq have sp1: "rm (Star True (Cls spaces)) ?s k (length ''password'', c) = k (length ''password'', c)" for k :: "match \<Rightarrow> match option" and c
    by (intro star_stops) metis
  have colon: "rm (Cls '':='') ?s k (length ''password'', c) = k (length ''password='', c)" for k :: "match \<Rightarrow> match option" and c
    by simp
  show ?thesis
    unfolding match_at_def password_pattern_def assignment_def cats.simps rm.simps(5) password_group sp1 colon sp2 val ..
qed

lemma password_replaced:
  assumes "v \<noteq> []" "list_all (\<lambda>c. c \<notin> set value_stops) v"
  shows "ReplaceAllString password_pattern [Cap1, Text ''=[REDACTED]''] (''password='' @ v) = ''password=[REDACTED]''"
proof -
  have "0 < min_width password_pattern"
    using patterns_positive by (simp add: plaintextPatterns_def)
  from ReplaceAllString_whole [OF password_match [OF assms] _ this]
  have "ReplaceAllString password_pattern pieces (''password='' @ v)
    = expand pieces (''password='' @ v) (Some (0, length ''password''))" for pieces by simp
  then show ?thesis by (simp add: expand_def)
qed

text \<open>
  A password given in a plain text body is gone after masking, however long it is and whatever is in
  it: the masked text is the same for every password.
\<close>

lemma password_redacted:
  assumes "v \<noteq> []" "list_all (\<lambda>c. c \<notin> set value_stops) v"
  shows "maskPlaintext (''password='' @ v) = ''password=[REDACTED]''"
proof -
  have "ReplaceAllString password_pattern [Cap1, Text ''=[REDACTED]''] (''password='' @ v) = ''password=[REDACTED]''"
    by (rule password_replaced [OF assms])
  moreover have "foldl (\<lambda>s (re, repl). ReplaceAllString re repl s) ''password=[REDACTED]'' (tl plaintextPatterns)
    = ''password=[REDACTED]''"
    by code_simp
  ultimately show ?thesis by (simp add: maskPlaintext_def plaintextPatterns_def)
qed

text \<open>
  Three plain texts whose secret survives masking: a token introduced by \<^verbatim>\<open>Bearer\<close>, of which the
  word Bearer is redacted; a card number, whose first ten digits are taken for a phone number; and a
  password field of a JSON text that was cut off, where a quote stands before the colon.
\<close>

lemma plaintext_secrets_survive:
  "maskPlaintext ''token: Bearer s3cret'' = ''token=[REDACTED] s3cret'' \<and>
   maskPlaintext ''card 6011000990139424'' = ''card [REDACTED_PHONE]139424'' \<and>
   maskPlaintext (CHR 0x22 # ''password'' @ CHR 0x22 # '':'' @ CHR 0x22 # ''hunter2'')
     = CHR 0x22 # ''password'' @ CHR 0x22 # '':'' @ CHR 0x22 # ''hunter2''"
proof (intro conjI)
  show "maskPlaintext ''token: Bearer s3cret'' = ''token=[REDACTED] s3cret''" by code_simp
  show "maskPlaintext ''card 6011000990139424'' = ''card [REDACTED_PHONE]139424''" by code_simp
  show "maskPlaintext (CHR 0x22 # ''password'' @ CHR 0x22 # '':'' @ CHR 0x22 # ''hunter2'')
     = CHR 0x22 # ''password'' @ CHR 0x22 # '':'' @ CHR 0x22 # ''hunter2''" by code_simp
qed

end
