(* ===== verification/Analysis.thy ===== *)
theory Analysis
  imports Http1
begin

text \<open>
  Attack detection, \<^verbatim>\<open>internal/analysis/analyse.go\<close>: four detectors that look for fixed
  patterns in the lower-cased and query-unescaped text of a request, and AnalyseReq, which runs
  them in order and keeps the first detection. The detectors share one contract, the locale
  \<open>pattern_detector\<close>, from which what they detect is proved once.
\<close>

section \<open>Data\<close>

record RequestContext =
  ctx_Timestamp :: bytes
  ctx_ClientIP :: bytes

record Detection =
  det_Timestamp :: bytes
  det_ClientIP :: bytes
  det_Method :: bytes
  det_Path :: bytes
  AttackType :: bytes
  Pattern :: bytes
  Score :: int

type_synonym Detector = "RequestContext \<Rightarrow> HTTPRequest \<Rightarrow> Detection option"

definition sqlPatterns :: "bytes list" where
  "sqlPatterns =
     [''union select'', ''or 1=1'', ''drop table'', ''information_schema'', ''sleep('', ''benchmark('',
      ''waitfor delay'']"

definition cmdPatterns :: "bytes list" where
  "cmdPatterns =
     ['';'', ''&&'', ''||'', ''|'', [CHR 0x60], ''$('',
      ''bash'', ''sh'', ''cmd.exe'', ''powershell'', ''wget'', ''curl'', ''nc'', ''netcat'', ''python'', ''perl'',
      ''cat /etc/passwd'', ''cat /etc/shadow'', ''whoami'', ''uname -a'', ''ls'', ''pwd'',
      ''rm -rf'', ''chmod'', ''chown'', ''mkfifo'']"

definition traversalPatterns :: "bytes list" where
  "traversalPatterns =
     [''../'', ''..'' @ [CHR 0x5C], ''/etc/passwd'', ''/etc/shadow'', ''windows/system32'', ''boot.ini'']"

definition xssPatterns :: "bytes list" where
  "xssPatterns =
     [''localstorage'', ''sessionstorage'', ''document.cookie'', ''xmlhttpRequest'', ''location'']"

section \<open>Detectors\<close>

text \<open>The text a detector searches: lower-cased, then unescaped when it can be.\<close>

definition search_data :: "(bytes \<Rightarrow> bytes) \<Rightarrow> bytes \<Rightarrow> bytes" where
  "search_data uni input =
     (let data = ToLower uni input
      in case QueryUnescape data of Some decoded \<Rightarrow> decoded | None \<Rightarrow> data)"

definition whole_input :: "HTTPRequest \<Rightarrow> bytes" where
  "whole_input req = req_Path req @ '' '' @ req_Body req"

definition detection :: "RequestContext \<Rightarrow> HTTPRequest \<Rightarrow> bytes \<Rightarrow> bytes \<Rightarrow> Detection" where
  "detection ctx req attack pattern =
     \<lparr>det_Timestamp = ctx_Timestamp ctx, det_ClientIP = ctx_ClientIP ctx, det_Method = req_Method req,
      det_Path = req_Path req, AttackType = attack, Pattern = pattern, Score = 90\<rparr>"

definition detectSQLi :: "(bytes \<Rightarrow> bytes) \<Rightarrow> Detector" where
  "detectSQLi uni ctx req =
     map_option (detection ctx req ''SQL Injection'')
       (find (Contains (search_data uni (whole_input req))) sqlPatterns)"

definition detectCmdi :: "(bytes \<Rightarrow> bytes) \<Rightarrow> Detector" where
  "detectCmdi uni ctx req =
     map_option (detection ctx req ''Command Injection'')
       (find (Contains (search_data uni (whole_input req))) cmdPatterns)"

definition detectTraversal :: "(bytes \<Rightarrow> bytes) \<Rightarrow> Detector" where
  "detectTraversal uni ctx req =
     map_option (detection ctx req ''Path Traversal'')
       (find (Contains (search_data uni (req_Path req))) traversalPatterns)"

definition detectXSS :: "(bytes \<Rightarrow> bytes) \<Rightarrow> Detector" where
  "detectXSS uni ctx req =
     map_option (detection ctx req ''XSS'')
       (find (Contains (search_data uni (whole_input req))) xssPatterns)"

definition detectors :: "(bytes \<Rightarrow> bytes) \<Rightarrow> Detector list" where
  "detectors uni = [detectSQLi uni, detectCmdi uni, detectTraversal uni, detectXSS uni]"

text \<open>The loop over the detectors, which stops at the first that detects something.\<close>

fun run_detectors :: "Detector list \<Rightarrow> RequestContext \<Rightarrow> HTTPRequest \<Rightarrow> Detection list" where
  "run_detectors [] ctx req = []"
| "run_detectors (detector # ds) ctx req =
     (case detector ctx req of Some det \<Rightarrow> [det] | None \<Rightarrow> run_detectors ds ctx req)"

definition AnalyseReq :: "(bytes \<Rightarrow> bytes) \<Rightarrow> HTTPRequest \<Rightarrow> RequestContext \<Rightarrow> Detection list" where
  "AnalyseReq uni req ctx = run_detectors (detectors uni) ctx req"

section \<open>The contract of a detector\<close>

locale pattern_detector =
  fixes detect :: Detector
    and input :: "HTTPRequest \<Rightarrow> bytes"
    and patterns :: "bytes list"
    and attack :: bytes
  assumes finds: "detect ctx req =
    map_option (detection ctx req attack) (find (Contains (input req)) patterns)"
begin

lemma detects_iff: "detect ctx req \<noteq> None \<longleftrightarrow> (\<exists>p \<in> set patterns. sublist p (input req))"
  by (auto simp: finds find_None_iff Contains_iff)

lemma detects_None: "detect ctx req = None \<longleftrightarrow> \<not> (\<exists>p \<in> set patterns. sublist p (input req))"
  using detects_iff by blast

lemma reports:
  assumes "detect ctx req = Some det"
  shows "det_ClientIP det = ctx_ClientIP ctx" "det_Timestamp det = ctx_Timestamp ctx"
    "det_Method det = req_Method req" "det_Path det = req_Path req"
    "AttackType det = attack" "Score det = 90"
    "Pattern det \<in> set patterns" "sublist (Pattern det) (input req)"
  using assms by (auto simp: finds detection_def find_Some_iff Contains_iff)

lemma first_pattern:
  assumes "patterns = ps @ p # qs" "sublist p (input req)" "\<not> (\<exists>q \<in> set ps. sublist q (input req))"
  shows "detect ctx req = Some (detection ctx req attack p)"
proof -
  have "find (Contains (input req)) (ps @ p # qs) = Some p"
    using assms(2,3) by (induction ps) (auto simp: Contains_iff)
  with assms(1) show ?thesis by (simp add: finds)
qed

end

interpretation sqli: pattern_detector "detectSQLi uni" "\<lambda>req. search_data uni (whole_input req)" sqlPatterns
  "''SQL Injection''" for uni
  by unfold_locales (simp add: detectSQLi_def)

interpretation cmdi: pattern_detector "detectCmdi uni" "\<lambda>req. search_data uni (whole_input req)" cmdPatterns
  "''Command Injection''" for uni
  by unfold_locales (simp add: detectCmdi_def)

interpretation traversal: pattern_detector "detectTraversal uni" "\<lambda>req. search_data uni (req_Path req)"
  traversalPatterns "''Path Traversal''" for uni
  by unfold_locales (simp add: detectTraversal_def)

interpretation xss: pattern_detector "detectXSS uni" "\<lambda>req. search_data uni (whole_input req)" xssPatterns
  "''XSS''" for uni
  by unfold_locales (simp add: detectXSS_def)

lemmas detectors_None = sqli.detects_None cmdi.detects_None traversal.detects_None xss.detects_None

section \<open>What is detected\<close>

lemma run_detectors_iff:
  "run_detectors ds ctx req \<noteq> [] \<longleftrightarrow> (\<exists>d \<in> set ds. d ctx req \<noteq> None)"
  by (induction ds) (auto split: option.split)

lemma AnalyseReq_iff:
  "AnalyseReq uni req ctx \<noteq> [] \<longleftrightarrow>
     (\<exists>p \<in> set (sqlPatterns @ cmdPatterns @ xssPatterns). sublist p (search_data uni (whole_input req))) \<or>
     (\<exists>p \<in> set traversalPatterns. sublist p (search_data uni (req_Path req)))"
  unfolding AnalyseReq_def run_detectors_iff detectors_def
  using sqli.detects_iff cmdi.detects_iff traversal.detects_iff xss.detects_iff by auto

lemma AnalyseReq_none:
  "AnalyseReq uni req ctx = [] \<longleftrightarrow>
     \<not> (\<exists>p \<in> set (sqlPatterns @ cmdPatterns @ xssPatterns). sublist p (search_data uni (whole_input req))) \<and>
     \<not> (\<exists>p \<in> set traversalPatterns. sublist p (search_data uni (req_Path req)))"
  using AnalyseReq_iff [of uni req ctx] by blast

lemma run_detectors_cases:
  "run_detectors ds ctx req = [] \<or> (\<exists>d \<in> set ds. \<exists>det. d ctx req = Some det \<and> run_detectors ds ctx req = [det])"
  by (induction ds) (auto split: option.split)

text \<open>
  What is looked for, in order, apart from the detectors: the kind of attack, the pattern, and the part of the
  request that is searched for it.
\<close>

definition rules :: "HTTPRequest \<Rightarrow> (bytes \<times> bytes \<times> bytes) list" where
  "rules req =
     map (\<lambda>p. (''SQL Injection'', p, req_Path req @ '' '' @ req_Body req)) sqlPatterns @
     map (\<lambda>p. (''Command Injection'', p, req_Path req @ '' '' @ req_Body req)) cmdPatterns @
     map (\<lambda>p. (''Path Traversal'', p, req_Path req)) traversalPatterns @
     map (\<lambda>p. (''XSS'', p, req_Path req @ '' '' @ req_Body req)) xssPatterns"

lemma find_append: "find P (xs @ ys) = (case find P xs of None \<Rightarrow> find P ys | Some x \<Rightarrow> Some x)"
  by (induction xs) auto

lemma find_rule:
  "find (\<lambda>(kind, p, text). sublist p (search_data uni text)) (map (\<lambda>p. (kind, p, text)) ps) =
     map_option (\<lambda>p. (kind, p, text)) (find (Contains (search_data uni text)) ps)"
  by (induction ps) (simp_all add: Contains_iff)

lemma AnalyseReq_rules:
  "AnalyseReq uni req ctx =
     (case find (\<lambda>(kind, p, text). sublist p (search_data uni text)) (rules req) of
        None \<Rightarrow> []
      | Some (kind, p, text) \<Rightarrow> [detection ctx req kind p])"
  unfolding rules_def find_append find_rule AnalyseReq_def detectors_def
  by (simp add: sqli.finds cmdi.finds traversal.finds xss.finds whole_input_def split: option.split)


end
