(* ===== verification/Logger.thy ===== *)
theory Logger
  imports Analysis
begin

text \<open>
  The event logger, \<^verbatim>\<open>internal/logger/logger.go\<close>: two bounded queues, for messages and for detections,
  that the sniffers fill without ever waiting and a worker each empties into Elasticsearch. What the
  workers send is in \<open>Logger_Workers\<close>; here a turn of a worker is taking an event off its queue.
\<close>

section \<open>Events\<close>

record DetectionEvent =
  de_Timestamp :: bytes
  de_ClientIP :: bytes
  de_Method :: bytes
  de_Path :: bytes
  de_AttackType :: bytes
  de_Pattern :: bytes
  de_Score :: int

record HTTPEvent =
  ev_Timestamp :: bytes
  ev_PID :: u32
  ev_TID :: u32
  ev_Direction :: bytes
  ev_ClientIP :: bytes
  ev_ClientPort :: u16
  ev_ServerIP :: bytes
  ev_ServerPort :: u16
  ev_Method :: bytes
  ev_Path :: bytes
  ev_Version :: bytes
  ev_Status :: int
  ev_Headers :: "bytes \<rightharpoonup> bytes"
  ev_Body :: bytes

text \<open>\<open>Client\<close> is whether the Elasticsearch client is there; logging is disabled until it is.\<close>

record logger =
  Client :: bool
  eventQueue :: "HTTPEvent list"
  detectionQueue :: "DetectionEvent list"

definition queue_capacity :: nat where
  "queue_capacity = 4096"

definition new_logger :: logger where
  "new_logger = \<lparr>Client = False, eventQueue = [], detectionQueue = []\<rparr>"

section \<open>Operations\<close>

definition enqueue :: "HTTPEvent \<Rightarrow> logger \<Rightarrow> logger" where
  "enqueue event l =
     (if \<not> Client l then l
      else if length (eventQueue l) < queue_capacity then l\<lparr>eventQueue := eventQueue l @ [event]\<rparr>
      else l)"

definition enqueueDetection :: "DetectionEvent \<Rightarrow> logger \<Rightarrow> logger" where
  "enqueueDetection det l =
     (if \<not> Client l then l
      else if length (detectionQueue l) < queue_capacity then l\<lparr>detectionQueue := detectionQueue l @ [det]\<rparr>
      else l)"

text \<open>A turn of a worker: the event it takes and indexes; \<open>None\<close> while it waits for one.\<close>

definition work :: "logger \<Rightarrow> (HTTPEvent \<times> logger) option" where
  "work l = (case eventQueue l of [] \<Rightarrow> None | ev # q \<Rightarrow> Some (ev, l\<lparr>eventQueue := q\<rparr>))"

definition workDetection :: "logger \<Rightarrow> (DetectionEvent \<times> logger) option" where
  "workDetection l = (case detectionQueue l of [] \<Rightarrow> None | det # q \<Rightarrow> Some (det, l\<lparr>detectionQueue := q\<rparr>))"

record endpoints =
  ep_pid :: u32
  ep_tid :: u32
  clientIP :: bytes
  clientPort :: u16
  serverIP :: bytes
  serverPort :: u16

definition request_event :: "HTTPRequest \<Rightarrow> endpoints \<Rightarrow> bytes \<Rightarrow> HTTPEvent" where
  "request_event req ep t =
     \<lparr>ev_Timestamp = t, ev_PID = ep_pid ep, ev_TID = ep_tid ep, ev_Direction = ''request'',
      ev_ClientIP = clientIP ep, ev_ClientPort = clientPort ep, ev_ServerIP = serverIP ep,
      ev_ServerPort = serverPort ep, ev_Method = req_Method req, ev_Path = req_Path req,
      ev_Version = req_Version req, ev_Status = 0, ev_Headers = req_Headers req, ev_Body = req_Body req\<rparr>"

definition response_event :: "HTTPResponse \<Rightarrow> endpoints \<Rightarrow> bytes \<Rightarrow> HTTPEvent" where
  "response_event resp ep t =
     \<lparr>ev_Timestamp = t, ev_PID = ep_pid ep, ev_TID = ep_tid ep, ev_Direction = ''response'',
      ev_ClientIP = clientIP ep, ev_ClientPort = clientPort ep, ev_ServerIP = serverIP ep,
      ev_ServerPort = serverPort ep, ev_Method = [], ev_Path = [], ev_Version = resp_Version resp,
      ev_Status = resp_Code resp, ev_Headers = resp_Headers resp, ev_Body = resp_Body resp\<rparr>"

definition detection_event :: "Detection \<Rightarrow> DetectionEvent" where
  "detection_event det =
     \<lparr>de_Timestamp = det_Timestamp det, de_ClientIP = det_ClientIP det, de_Method = det_Method det,
      de_Path = det_Path det, de_AttackType = AttackType det, de_Pattern = Pattern det, de_Score = Score det\<rparr>"

definition LogRequest :: "HTTPRequest \<Rightarrow> endpoints \<Rightarrow> bytes \<Rightarrow> logger \<Rightarrow> logger" where
  "LogRequest req ep t = enqueue (request_event req ep t)"

definition LogResponse :: "HTTPResponse \<Rightarrow> endpoints \<Rightarrow> bytes \<Rightarrow> logger \<Rightarrow> logger" where
  "LogResponse resp ep t = enqueue (response_event resp ep t)"

definition LogDetection :: "Detection \<Rightarrow> logger \<Rightarrow> logger" where
  "LogDetection det = enqueueDetection (detection_event det)"

section \<open>Senders and a worker on a bounded queue\<close>

text \<open>
  Any interleaving of sends and turns of the worker, as a sequence: the state after it, what was
  accepted and what was indexed.
\<close>

datatype 'e queue_op = Send 'e | Work

fun queue_run ::
  "('e \<Rightarrow> 's \<Rightarrow> 's) \<Rightarrow> ('s \<Rightarrow> ('e \<times> 's) option) \<Rightarrow> ('s \<Rightarrow> 'e list) \<Rightarrow> 'e queue_op list \<Rightarrow> 's \<Rightarrow> 's \<times> 'e list \<times> 'e list" where
  "queue_run push pop items [] s = (s, [], [])"
| "queue_run push pop items (Send e # ops) s =
     (let (s', acc, out) = queue_run push pop items ops (push e s)
      in (s', (if items (push e s) = items s then acc else e # acc), out))"
| "queue_run push pop items (Work # ops) s =
     (case pop s of
        None \<Rightarrow> queue_run push pop items ops s
      | Some (e, s1) \<Rightarrow> (let (s', acc, out) = queue_run push pop items ops s1 in (s', acc, e # out)))"

locale bounded_queue =
  fixes push :: "'e \<Rightarrow> 's \<Rightarrow> 's"
    and pop :: "'s \<Rightarrow> ('e \<times> 's) option"
    and items :: "'s \<Rightarrow> 'e list"
    and enabled :: "'s \<Rightarrow> bool"
    and cap :: nat
  assumes items_push: "items (push e s) =
      (if enabled s \<and> length (items s) < cap then items s @ [e] else items s)"
    and enabled_push: "enabled (push e s) = enabled s"
    and pop_None: "items s = [] \<Longrightarrow> pop s = None"
    and pop_Some: "items s = e # q \<Longrightarrow> \<exists>s'. pop s = Some (e, s') \<and> items s' = q \<and> enabled s' = enabled s"
begin

lemma run_spec:
  assumes "queue_run push pop items ops s = (s', acc, out)" "length (items s) \<le> cap"
  shows "items s @ acc = out @ items s' \<and> length (items s') \<le> cap \<and> enabled s' = enabled s"
  using assms
proof (induction ops arbitrary: s s' acc out)
  case (Cons op ops)
  show ?case
  proof (cases op)
    case (Send e)
    obtain s1 acc1 out1 where run: "queue_run push pop items ops (push e s) = (s1, acc1, out1)"
      by (metis prod_cases3)
    have "length (items (push e s)) \<le> cap" using Cons.prems(2) by (simp add: items_push)
    from Cons.IH [OF run this] Cons.prems(1) run show ?thesis
      by (auto simp: Send items_push enabled_push split: if_splits)
  next
    case Work
    show ?thesis
    proof (cases "items s")
      case Nil
      with Cons.prems Work have "queue_run push pop items ops s = (s', acc, out)" by (simp add: pop_None)
      from Cons.IH [OF this Cons.prems(2)] show ?thesis .
    next
      case (Cons e q)
      then obtain s1 where pop: "pop s = Some (e, s1)" "items s1 = q" "enabled s1 = enabled s"
        using pop_Some by blast
      obtain s2 acc1 out1 where run: "queue_run push pop items ops s1 = (s2, acc1, out1)"
        by (metis prod_cases3)
      have "length (items s1) \<le> cap" using Cons.prems(2) Cons pop by simp
      from Cons.IH [OF run this] Cons.prems(1) run pop Cons Work show ?thesis by auto
    qed
  qed
qed simp

lemma push_accepts: "enabled s \<Longrightarrow> length (items s) < cap \<Longrightarrow> items (push e s) = items s @ [e]"
  by (simp add: items_push)

lemma push_drops: "\<not> enabled s \<or> cap \<le> length (items s) \<Longrightarrow> items (push e s) = items s"
  by (auto simp: items_push)

end

interpretation events: bounded_queue enqueue work eventQueue Client queue_capacity
  by unfold_locales (auto simp: enqueue_def work_def)

interpretation detections: bounded_queue enqueueDetection workDetection detectionQueue Client queue_capacity
  by unfold_locales (auto simp: enqueueDetection_def workDetection_def)

section \<open>Delivery\<close>

lemma queue_run_event_frame:
  "detectionQueue (fst (queue_run enqueue work eventQueue ops l)) = detectionQueue l"
proof (induction ops arbitrary: l)
  case (Cons op ops)
  have "detectionQueue (enqueue e l) = detectionQueue l" for e by (simp add: enqueue_def)
  with Cons show ?case
    by (cases op; cases "eventQueue l") (simp_all add: work_def split_beta)
qed simp

lemma queue_run_detection_frame:
  "eventQueue (fst (queue_run enqueueDetection workDetection detectionQueue ops l)) = eventQueue l"
proof (induction ops arbitrary: l)
  case (Cons op ops)
  have "eventQueue (enqueueDetection e l) = eventQueue l" for e by (simp add: enqueueDetection_def)
  with Cons show ?case
    by (cases op; cases "detectionQueue l") (simp_all add: workDetection_def split_beta)
qed simp

text \<open>
  However sends and workers' turns interleave, each queue delivers what it accepted in the order it
  was accepted, once each, and holds the rest: never more than 4096. Sending never waits, and the two
  queues do not disturb each other.
\<close>

lemma queues_deliver_in_order:
  assumes "queue_run enqueue work eventQueue ops (new_logger\<lparr>Client := c\<rparr>) = (l, acc, out)"
    and "queue_run enqueueDetection workDetection detectionQueue dops l = (l', dacc, dout)"
  shows "acc = out @ eventQueue l \<and> length (eventQueue l) \<le> 4096 \<and>
    dacc = dout @ detectionQueue l' \<and> length (detectionQueue l') \<le> 4096 \<and>
    eventQueue l' = eventQueue l"
proof -
  have "detectionQueue l = []"
    using queue_run_event_frame [of ops "new_logger\<lparr>Client := c\<rparr>"] assms(1) by (simp add: new_logger_def)
  moreover have "eventQueue l' = eventQueue l"
    using queue_run_detection_frame [of dops l] assms(2) by simp
  ultimately show ?thesis
    using events.run_spec [OF assms(1)] detections.run_spec [OF assms(2)]
    by (simp add: new_logger_def queue_capacity_def)
qed

definition sample_event :: HTTPEvent where
  "sample_event = response_event
     \<lparr>resp_Version = ''HTTP/1.1'', resp_Status = ''OK'', resp_Code = 200, resp_Headers = Map.empty, resp_Body = []\<rparr>
     \<lparr>ep_pid = 1, ep_tid = 1, clientIP = ''10.0.0.1'', clientPort = 5000, serverIP = ''10.0.0.2'', serverPort = 443\<rparr>
     ''2025-01-01T00:00:00Z''"

end
