(* ===== verification/Terminal.thy ===== *)
theory Terminal
  imports Http2_Delivery Logger
begin

text \<open>
  What the TLS sniffer prints, \<^verbatim>\<open>internal/sniffer/sniffer.go\<close>: every message, after masking. A printed message
  is kept as a value; its text depends on the order in which Go's map iteration visits the headers, which the
  language leaves open and is an argument here.
\<close>

section \<open>Printed messages\<close>

text \<open>The stream of an HTTP/2 message and whether its body was cut; none for HTTP/1.x.\<close>

type_synonym stream_tag = "(u32 \<times> bool) option"

datatype printed =
  PrintedRequest endpoints stream_tag HTTPRequest
| PrintedResponse endpoints stream_tag HTTPResponse

definition request_tag :: "CompletedRequest \<Rightarrow> stream_tag \<times> HTTPRequest" where
  "request_tag m = (Some (cr_StreamID m, cr_BodyTruncated m), cr_Request m)"

definition response_tag :: "CompletedResponse \<Rightarrow> stream_tag \<times> HTTPResponse" where
  "response_tag m = (Some (cs_StreamID m, cs_BodyTruncated m), cs_Response m)"

section \<open>Their text\<close>

abbreviation newline :: byte where "newline \<equiv> CHR 0x0A"

text \<open>The verb \<^verbatim>\<open>%d\<close>.\<close>

definition print_int :: "int \<Rightarrow> bytes" where
  "print_int i = (if i < 0 then CHR ''-'' # print_nat 10 (nat (- i)) else print_nat 10 (nat i))"

definition print_origin :: "endpoints \<Rightarrow> stream_tag \<Rightarrow> bytes" where
  "print_origin ep tag =
     ''pid='' @ print_nat 10 (unat (ep_pid ep)) @ '' tid='' @ print_nat 10 (unat (ep_tid ep)) @
     (case tag of None \<Rightarrow> [] | Some (stream, truncated) \<Rightarrow> '' [h2 stream '' @ print_nat 10 (unat stream) @ '']'') @ [newline]"

definition print_endpoints :: "endpoints \<Rightarrow> bytes" where
  "print_endpoints ep =
     ''client='' @ clientIP ep @ '':'' @ print_nat 10 (unat (clientPort ep)) @
     '' server='' @ serverIP ep @ '':'' @ print_nat 10 (unat (serverPort ep)) @ [newline]"

definition print_headers :: "bytes list \<Rightarrow> (bytes \<rightharpoonup> bytes) \<Rightarrow> bytes" where
  "print_headers order headers =
     concat (map (\<lambda>k. case headers k of None \<Rightarrow> [] | Some v \<Rightarrow> k @ '': '' @ v @ [newline]) order)"

definition print_body :: "stream_tag \<Rightarrow> bytes \<Rightarrow> bytes" where
  "print_body tag body =
     [newline] @ body @ [newline] @
     (case tag of Some (stream, True) \<Rightarrow> ''[body truncated]'' @ [newline] | _ \<Rightarrow> []) @ [newline]"

fun print_message :: "bytes list \<Rightarrow> printed \<Rightarrow> bytes" where
  "print_message order (PrintedRequest ep tag req) =
     print_origin ep tag @ req_Method req @ '' '' @ req_Path req @ '' '' @ req_Version req @ [newline] @
     print_endpoints ep @ print_headers order (req_Headers req) @ print_body tag (req_Body req)"
| "print_message order (PrintedResponse ep tag resp) =
     print_origin ep tag @ resp_Version resp @ '' '' @ print_int (resp_Code resp) @ '' '' @ resp_Status resp @ [newline] @
     print_endpoints ep @ print_headers order (resp_Headers resp) @ print_body tag (resp_Body resp)"

end
