(* ===== verification/Analysis_Encodings.thy ===== *)
theory Analysis_Encodings
  imports Analysis
begin

text \<open>
  Detection and the ways a client can write the same request: letters in either case and percent
  escapes do not hide a pattern, but upper-case letters inside escapes and one malformed escape do,
  and one pattern of the list can only match through an escape.
\<close>

section \<open>Ways to write a text\<close>

text \<open>
  \<open>encodes t s\<close>: the string \<open>s\<close> is a way to write the text \<open>t\<close>: each byte stands for itself up to
  the case of letters, a plus for a space, or a percent sign and two hexadecimal digits for a byte.
\<close>

inductive encodes :: "bytes \<Rightarrow> bytes \<Rightarrow> bool" where
  encodes_nil: "encodes [] []"
| encodes_byte: "encodes t s \<Longrightarrow> ascii c \<Longrightarrow> c \<noteq> CHR ''%'' \<Longrightarrow> c \<noteq> CHR ''+'' \<Longrightarrow>
    encodes (lower_byte c # t) (c # s)"
| encodes_plus: "encodes t s \<Longrightarrow> encodes (CHR '' '' # t) (CHR ''+'' # s)"
| encodes_escape: "encodes t s \<Longrightarrow> digit_val 16 a = Some x \<Longrightarrow> digit_val 16 b = Some y \<Longrightarrow>
    encodes (byte_of (16 * x + y) # t) (CHR ''%'' # a # b # s)"

inductive_cases encodes_NilE: "encodes t []"
inductive_cases encodes_ConsE: "encodes t (c # s)"

lemma digit_ascii: "digit_val 16 c = Some x \<Longrightarrow> ascii c"
  by (auto simp: digit_val_def ascii_def Let_def split: if_splits)

lemma of_char_lower: "is_upper c \<Longrightarrow> (of_char (lower_byte c) :: nat) = of_char c + 32"
proof (cases c)
  case (Char b0 b1 b2 b3 b4 b5 b6 b7)
  assume "is_upper c"
  moreover have "of_bool b0 + (2 * of_bool b1 + (4 * of_bool b2 + (8 * of_bool b3 + 16 * of_bool b4))) \<le> (31 :: nat)"
    by (simp add: of_bool_def)
  ultimately show ?thesis
    using Char by (cases b5; cases b6; cases b7) (auto simp: lower_byte_def is_upper_def of_char_def split: if_splits)
qed

lemma digit_val_lower: "digit_val 16 (lower_byte c) = digit_val 16 c"
proof (cases "is_upper c")
  case True
  with of_char_lower [OF True] show ?thesis by (auto simp: digit_val_def is_upper_def Let_def)
qed (simp add: lower_byte_def)

lemma lower_byte_percent: "lower_byte c = CHR ''%'' \<longleftrightarrow> c = CHR ''%''" "lower_byte c = CHR ''+'' \<longleftrightarrow> c = CHR ''+''"
  using of_char_lower [of c] by (cases "is_upper c"; force simp: lower_byte_def is_upper_def)+

lemma encodes_ascii: "encodes t s \<Longrightarrow> list_all ascii s"
  by (induction rule: encodes.induct) (auto simp: digit_ascii, simp_all add: ascii_def)

lemma encodes_unescape: "encodes t s \<Longrightarrow> QueryUnescape (map lower_byte s) = Some t"
proof (induction rule: encodes.induct)
  case (encodes_escape t s a x b y)
  moreover have "lower_byte CHR ''%'' = CHR ''%''" by (simp add: lower_byte_def is_upper_def)
  ultimately show ?case by (simp add: digit_val_lower)
next
  case (encodes_plus t s)
  moreover have "lower_byte CHR ''+'' = CHR ''+''" by (simp add: lower_byte_def is_upper_def)
  ultimately show ?case by simp
qed (simp_all add: lower_byte_percent)

lemma encodes_search: "encodes t s \<Longrightarrow> search_data uni s = t"
  by (simp add: search_data_def ToLower_def encodes_ascii encodes_unescape)

text \<open>
  An attack is detected however it is written: if path and body are written for a text that holds
  an SQL, command or XSS pattern, with any letters in upper case, any spaces as plus signs and any
  bytes as percent escapes, AnalyseReq reports it.
\<close>

lemma encoded_attack_detected:
  assumes "encodes t (whole_input req)" "p \<in> set (sqlPatterns @ cmdPatterns @ xssPatterns)" "sublist p t"
  shows "AnalyseReq uni req ctx \<noteq> []"
  using assms encodes_search [OF assms(1), of uni] by (auto simp: AnalyseReq_iff)

definition sample_context :: RequestContext where
  "sample_context = \<lparr>ctx_Timestamp = ''2025-01-01T00:00:00Z'', ctx_ClientIP = ''10.0.0.1''\<rparr>"

definition sample_request :: "bytes \<Rightarrow> HTTPRequest" where
  "sample_request path =
     \<lparr>req_Method = ''GET'', req_Path = path, req_Version = ''HTTP/1.1'', req_Headers = Map.empty, req_Body = []\<rparr>"

lemma encodes_lower_literal:
  "encodes t s \<Longrightarrow> lower_ascii [c] \<Longrightarrow> c \<noteq> CHR ''%'' \<Longrightarrow> c \<noteq> CHR ''+'' \<Longrightarrow> encodes (c # t) (c # s)"
  using encodes_byte [of t s c] by (simp add: lower_ascii_def lower_byte_def)

lemma encodes_sample: "encodes ''/?q=union select '' (whole_input (sample_request ''/?q=Un%69on+Select''))"
proof -
  have l: "lower_byte CHR ''U'' = CHR ''u''" "lower_byte CHR ''S'' = CHR ''s''"
    by (simp_all add: lower_byte_def is_upper_def)
  have "byte_of (16 * 6 + 9) = CHR ''i''"
    using char_of_char [of "CHR ''i''"] by (simp add: byte_of_def)
  note i = encodes_escape [of _ _ "CHR ''6''" 6 "CHR ''9''" 9, unfolded this]
  note steps = i encodes_plus encodes_byte [of _ _ "CHR ''U''", unfolded l]
    encodes_byte [of _ _ "CHR ''S''", unfolded l] encodes_lower_literal encodes_nil
  show ?thesis
    by (simp add: whole_input_def sample_request_def)
      (intro steps; simp add: ascii_def lower_ascii_def is_upper_def digit_val_def)
qed

section \<open>Ways past the detectors\<close>

text \<open>
  The XSS pattern \<^verbatim>\<open>xmlhttpRequest\<close> is written with a capital letter and compared with lower-cased
  text: in an ASCII request without percent escapes it is never found, whatever the letters' case.
\<close>

lemma xss_pattern_dead:
  assumes "list_all ascii (whole_input req)" "CHR ''%'' \<notin> set (whole_input req)"
  shows "\<not> sublist ''xmlhttpRequest'' (search_data uni (whole_input req))"
proof -
  let ?s = "map lower_byte (whole_input req)"
  have "CHR ''%'' \<notin> set ?s"
  proof
    assume "CHR ''%'' \<in> set ?s"
    then obtain c where "c \<in> set (whole_input req)" "lower_byte c = CHR ''%''" by auto
    with lower_byte_percent(1) [of c] assms(2) show False by simp
  qed
  then have "search_data uni (whole_input req) = map (\<lambda>c. if c = CHR ''+'' then CHR '' '' else c) ?s"
    using assms(1) by (simp add: search_data_def ToLower_def QueryUnescape_plain)
  moreover have "\<not> is_upper CHR '' ''" by (simp add: is_upper_def)
  ultimately have "c \<in> set (search_data uni (whole_input req)) \<Longrightarrow> \<not> is_upper c" for c
    by (auto simp: is_upper_lower_byte)
  moreover have "is_upper CHR ''R''" by (simp add: is_upper_def)
  ultimately have "CHR ''R'' \<notin> set (search_data uni (whole_input req))" by blast
  moreover have "CHR ''R'' \<in> set ''xmlhttpRequest''" by simp
  ultimately show ?thesis using set_mono_sublist subsetD by (intro notI) blast
qed

text \<open>
  Every byte of a text as an escape, with the digits of the standard. However the text is chosen, the query
  unescaping gives it back, and the detectors search it as it is, with its capital letters.
\<close>

definition hex_digit :: "nat \<Rightarrow> byte" where
  "hex_digit n = ''0123456789ABCDEF'' ! n"

definition escape_byte :: "byte \<Rightarrow> bytes" where
  "escape_byte c = [CHR ''%'', hex_digit (of_char c div 16), hex_digit (of_char c mod 16)]"

definition escape :: "bytes \<Rightarrow> bytes" where
  "escape t = concat (map escape_byte t)"

lemma hex_digits: "list_all (\<lambda>n. digit_val 16 (hex_digit n) = Some n) [0..<16]"
  by code_simp

lemma hex_digit_val: "n < 16 \<Longrightarrow> digit_val 16 (hex_digit n) = Some n"
  using hex_digits by (simp add: list_all_iff)

lemma high_digit: "of_char (c :: byte) div 16 < (16 :: nat)"
proof -
  have "of_char c < (256 :: nat)" by (cases c) (simp add: of_char_def of_bool_def)
  then show ?thesis by (simp add: less_mult_imp_div_less)
qed

lemma escape_digits:
  "digit_val 16 (hex_digit (of_char c div 16)) = Some (of_char c div 16)"
  "digit_val 16 (hex_digit (of_char c mod 16)) = Some (of_char c mod 16)"
  "byte_of (16 * (of_char c div 16) + of_char c mod 16) = c"
proof -
  show "digit_val 16 (hex_digit (of_char c div 16)) = Some (of_char c div 16)" by (rule hex_digit_val [OF high_digit])
  show "digit_val 16 (hex_digit (of_char c mod 16)) = Some (of_char c mod 16)" by (intro hex_digit_val) simp
  show "byte_of (16 * (of_char c div 16) + of_char c mod 16) = c" by (simp add: byte_of_def)
qed

lemma encodes_append: "encodes t s \<Longrightarrow> encodes t' s' \<Longrightarrow> encodes (t @ t') (s @ s')"
  by (induction rule: encodes.induct) (auto intro: encodes.intros)

lemma encodes_escape_text: "encodes t (escape t)"
proof (induction t)
  case (Cons c t)
  from encodes_escape [OF Cons.IH escape_digits(1,2) [of c], unfolded escape_digits(3)] show ?case
    by (simp add: escape_def escape_byte_def)
qed (simp add: escape_def encodes_nil)

lemma encodes_escaped: "encodes (t @ '' '' @ b) (escape t @ '' '' @ escape b)"
proof -
  have "encodes (CHR '' '' # b) (CHR '' '' # escape b)"
    by (intro encodes_lower_literal encodes_escape_text) (simp_all add: lower_ascii_def is_upper_def ascii_def)
  from encodes_append [OF encodes_escape_text this] show ?thesis by simp
qed

lemma escaped_analysed:
  "AnalyseReq uni (req\<lparr>req_Path := escape t, req_Body := escape b\<rparr>) ctx = [] \<longleftrightarrow>
     \<not> (\<exists>p \<in> set (sqlPatterns @ cmdPatterns @ xssPatterns). sublist p (t @ '' '' @ b)) \<and>
     \<not> (\<exists>p \<in> set traversalPatterns. sublist p t)"
  unfolding AnalyseReq_none
  by (simp add: whole_input_def encodes_search [OF encodes_escaped, simplified] encodes_search [OF encodes_escape_text])

lemma unescape_escape: "QueryUnescape (escape t) = Some t"
proof (induction t)
  case (Cons c t)
  then show ?case using escape_digits [of c] by (simp add: escape_def escape_byte_def)
qed (simp add: escape_def)

text \<open>One malformed escape after any escapes keeps the whole text from being unescaped.\<close>

lemma unescape_malformed:
  "encodes t s \<Longrightarrow> QueryUnescape e = None \<Longrightarrow> QueryUnescape (map lower_byte s @ e) = None"
proof (induction rule: encodes.induct)
  case (encodes_escape t s a x b y)
  moreover have "lower_byte CHR ''%'' = CHR ''%''" by (simp add: lower_byte_def is_upper_def)
  ultimately show ?case by (simp add: digit_val_lower)
next
  case (encodes_plus t s)
  moreover have "lower_byte CHR ''+'' = CHR ''+''" by (simp add: lower_byte_def is_upper_def)
  ultimately show ?case by simp
qed (simp_all add: lower_byte_percent)

text \<open>The bytes that such a text is searched as, and a byte outside them in every pattern.\<close>

definition escaped_bytes :: "byte set" where
  "escaped_bytes = set '' %0123456789abcdef''"

lemma pattern_not_escaped:
  "p \<in> set (sqlPatterns @ cmdPatterns @ traversalPatterns @ xssPatterns) \<Longrightarrow> \<not> set p \<subseteq> escaped_bytes"
  by (auto simp: sqlPatterns_def cmdPatterns_def traversalPatterns_def xssPatterns_def escaped_bytes_def)

lemma hex_digits_escaped: "list_all (\<lambda>n. lower_byte (hex_digit n) \<in> set '' %0123456789abcdef'') [0..<16]"
  by code_simp

lemma hex_digit_escaped: "n < 16 \<Longrightarrow> lower_byte (hex_digit n) \<in> escaped_bytes"
  unfolding escaped_bytes_def using hex_digits_escaped by (simp only: list_all_iff) simp

lemma escape_bytes: "lower_byte ` set (escape t) \<subseteq> escaped_bytes"
proof -
  have "lower_byte ` set (escape_byte c) \<subseteq> escaped_bytes" for c
  proof -
    have "lower_byte CHR ''%'' \<in> escaped_bytes" by (simp add: lower_byte_def is_upper_def escaped_bytes_def)
    then show ?thesis using hex_digit_escaped [OF high_digit [of c]] hex_digit_escaped [of "of_char c mod 16"]
      by (simp add: escape_byte_def)
  qed
  then show ?thesis by (auto simp: escape_def)
qed

lemma malformed_search:
  assumes "encodes t s" "list_all ascii e" "QueryUnescape (map lower_byte e) = None"
    and "lower_byte ` set (s @ e) \<subseteq> escaped_bytes"
  shows "p \<in> set (sqlPatterns @ cmdPatterns @ traversalPatterns @ xssPatterns) \<Longrightarrow>
    \<not> sublist p (search_data uni (s @ e))"
proof
  assume p: "p \<in> set (sqlPatterns @ cmdPatterns @ traversalPatterns @ xssPatterns)"
    and "sublist p (search_data uni (s @ e))"
  moreover have "search_data uni (s @ e) = map lower_byte (s @ e)"
    using assms(2) encodes_ascii [OF assms(1)] unescape_malformed [OF assms(1,3)]
    by (simp add: search_data_def ToLower_def)
  ultimately have "set p \<subseteq> lower_byte ` set (s @ e)" using set_mono_sublist by fastforce
  with assms(4) pattern_not_escaped [OF p] show False by blast
qed

lemma malformed_undetected:
  "AnalyseReq uni (req\<lparr>req_Path := escape t @ ''%'', req_Body := escape b\<rparr>) ctx = []"
proof -
  have l: "lower_byte CHR ''%'' = CHR ''%''" "lower_byte CHR '' '' = CHR '' ''"
    by (simp_all add: lower_byte_def is_upper_def)
  have e: "list_all ascii (''% '' @ escape b)" "list_all ascii ''%''"
    "lower_byte ` set (escape t @ ''% '' @ escape b) \<subseteq> escaped_bytes" "lower_byte ` set (escape t @ ''%'') \<subseteq> escaped_bytes"
    using encodes_ascii [OF encodes_escape_text [of b]] escape_bytes [of t] escape_bytes [of b]
    by (auto simp: ascii_def l image_Un) (auto simp: escaped_bytes_def)
  have bad: "QueryUnescape (map lower_byte (''% '' @ escape b)) = None" "QueryUnescape (map lower_byte ''%'') = None"
    by (auto simp: l digit_val_def split: list.split)
  from malformed_search [OF encodes_escape_text e(1) bad(1) e(3), of _ uni]
    malformed_search [OF encodes_escape_text e(2) bad(2) e(4), of _ uni]
  show ?thesis unfolding AnalyseReq_none by (simp add: whole_input_def) blast
qed

text \<open>
  C39: what escapes hide from the detectors, for any text. A path and a body in which each byte is an escape are
  unescaped by the server to the text itself, but the detectors compare it as it is: they report it exactly
  if a pattern occurs in it with its letters in the pattern's case, so a capital letter hides it. With a
  percent sign after the path, no text at all is reported.
\<close>

theorem detection_evaded:
  "QueryUnescape (escape t) = Some t \<and>
   (AnalyseReq uni (req\<lparr>req_Path := escape t, req_Body := escape b\<rparr>) ctx = [] \<longleftrightarrow>
     \<not> (\<exists>p \<in> set (sqlPatterns @ cmdPatterns @ xssPatterns). sublist p (t @ '' '' @ b)) \<and>
     \<not> (\<exists>p \<in> set traversalPatterns. sublist p t)) \<and>
   AnalyseReq uni (req\<lparr>req_Path := escape t @ ''%'', req_Body := escape b\<rparr>) ctx = []"
  by (intro conjI escaped_analysed malformed_undetected unescape_escape)

text \<open>So of two ways to write one SQL condition the first is reported and the second is not.\<close>

lemma evaded_samples:
  "AnalyseReq uni (sample_request (escape ''/?q=1 or 1=1'')) ctx \<noteq> [] \<and>
   AnalyseReq uni (sample_request (escape ''/?q=1 Or 1=1'')) ctx = []"
proof -
  have req: "sample_request (escape t) = (sample_request [])\<lparr>req_Path := escape t, req_Body := escape []\<rparr>" for t
    by (simp add: sample_request_def escape_def)
  have "AnalyseReq uni (sample_request (escape ''/?q=1 or 1=1'')) ctx \<noteq> []"
    unfolding req escaped_analysed by (simp add: sqlPatterns_def sublist_Cons_right)
  moreover have "AnalyseReq uni (sample_request (escape ''/?q=1 Or 1=1'')) ctx = []"
    unfolding req escaped_analysed
    by (simp add: sqlPatterns_def cmdPatterns_def traversalPatterns_def xssPatterns_def sublist_Cons_right)
  ultimately show ?thesis by blast
qed

end
