(* ===== verification/Policy.thy ===== *)
theory Policy
  imports Analysis_Encodings
begin

text \<open>
  The blocking policy, \<^verbatim>\<open>internal/analysis/policy.go\<close>: Decide adds the scores of a request's
  detections to the client's total, kept in the package's map, and blocks from 70 on.
\<close>

section \<open>Actions\<close>

text \<open>The constants of type Action count up from Log, which is their order.\<close>

datatype Action = Log | Block

instantiation Action :: linorder
begin

definition less_eq_Action :: "Action \<Rightarrow> Action \<Rightarrow> bool" where
  "less_eq_Action a b \<longleftrightarrow> a = Log \<or> b = Block"

definition less_Action :: "Action \<Rightarrow> Action \<Rightarrow> bool" where
  "less_Action a b \<longleftrightarrow> a = Log \<and> b = Block"

instance
proof
  fix x y z :: Action
  show "x < y \<longleftrightarrow> x \<le> y \<and> \<not> y \<le> x" by (cases x; cases y) (simp_all add: less_eq_Action_def less_Action_def)
  show "x \<le> x" by (cases x) (simp_all add: less_eq_Action_def)
  show "x \<le> y \<Longrightarrow> y \<le> z \<Longrightarrow> x \<le> z" by (cases x; cases z) (auto simp: less_eq_Action_def)
  show "x \<le> y \<Longrightarrow> y \<le> x \<Longrightarrow> x = y" by (cases x; cases y) (simp_all add: less_eq_Action_def)
  show "x \<le> y \<or> y \<le> x" by (cases x; cases y) (simp_all add: less_eq_Action_def)
qed

end

section \<open>Decide\<close>

record ClientState =
  cl_Score :: int

text \<open>\<open>clients\<close> is the package's map; the sum of the scores wraps around as Go's int does.\<close>

type_synonym clients = "bytes \<rightharpoonup> ClientState"

definition add_score :: "ClientState \<Rightarrow> Detection \<Rightarrow> ClientState" where
  "add_score state det = state\<lparr>cl_Score := wrap64 (cl_Score state + Score det)\<rparr>"

definition Decide :: "bytes \<Rightarrow> Detection list \<Rightarrow> clients \<Rightarrow> Action \<times> clients" where
  "Decide clientIP detections clients =
     (if detections = [] then (Log, clients)
      else
        (let state = (case clients clientIP of None \<Rightarrow> \<lparr>cl_Score = 0\<rparr> | Some state \<Rightarrow> state);
             state' = foldl add_score state detections
         in (if 70 \<le> cl_Score state' then Block else Log, clients(clientIP \<mapsto> state'))))"

text \<open>A request analysed and decided on, for a client.\<close>

definition analyse_and_decide ::
  "(bytes \<Rightarrow> bytes) \<Rightarrow> RequestContext \<Rightarrow> HTTPRequest \<Rightarrow> clients \<Rightarrow> Action \<times> clients" where
  "analyse_and_decide uni ctx req = Decide (ctx_ClientIP ctx) (AnalyseReq uni req ctx)"

text \<open>The actions of a sequence of requests, and the map they leave.\<close>

fun decide_all ::
  "(bytes \<Rightarrow> bytes) \<Rightarrow> (RequestContext \<times> HTTPRequest) list \<Rightarrow> clients \<Rightarrow> Action list \<times> clients" where
  "decide_all uni [] clients = ([], clients)"
| "decide_all uni ((ctx, req) # rs) clients =
     (let (action, clients') = analyse_and_decide uni ctx req clients;
          (actions, clients'') = decide_all uni rs clients'
      in (action # actions, clients''))"

section \<open>Scores\<close>

definition score_of :: "clients \<Rightarrow> bytes \<Rightarrow> int" where
  "score_of clients ip = (case clients ip of None \<Rightarrow> 0 | Some state \<Rightarrow> cl_Score state)"

lemma AnalyseReq_cases:
  "AnalyseReq uni req ctx = [] \<or> (\<exists>det. AnalyseReq uni req ctx = [det] \<and> Score det = 90)"
proof -
  have "list_all (\<lambda>det. Score det = 90) (run_detectors (detectors uni) ctx req)"
    using run_detectors_cases [of "detectors uni" ctx req]
    by (auto simp: detectors_def dest: sqli.reports cmdi.reports traversal.reports xss.reports)
  with run_detectors_cases [of "detectors uni" ctx req] show ?thesis by (auto simp: AnalyseReq_def)
qed

lemma analyse_and_decide_score:
  assumes "0 \<le> score_of clients (ctx_ClientIP ctx)" "score_of clients (ctx_ClientIP ctx) + 90 < 2 ^ 63"
  shows "analyse_and_decide uni ctx req clients =
    (if AnalyseReq uni req ctx = [] then (Log, clients)
     else (Block, clients(ctx_ClientIP ctx \<mapsto> \<lparr>cl_Score = score_of clients (ctx_ClientIP ctx) + 90\<rparr>)))"
  using AnalyseReq_cases [of uni req ctx] assms
  by (auto simp: analyse_and_decide_def Decide_def Let_def add_score_def score_of_def wrap64_id int64_def
      split: option.splits)

definition within_score :: "nat \<Rightarrow> clients \<Rightarrow> bool" where
  "within_score n clients \<longleftrightarrow> (\<forall>ip. 0 \<le> score_of clients ip \<and> score_of clients ip \<le> 90 * int n)"

lemma score_of_upd: "score_of (clients(ip \<mapsto> state)) ip' = (if ip' = ip then cl_Score state else score_of clients ip')"
  by (simp add: score_of_def)

lemma within_scoreD:
  assumes "within_score n clients" "90 * (int n + int k) < 2 ^ 63" "0 < k"
  shows "0 \<le> score_of clients ip" "score_of clients ip + 90 < 2 ^ 63"
proof -
  from assms(1) have "0 \<le> score_of clients ip \<and> score_of clients ip \<le> 90 * int n"
    by (simp add: within_score_def)
  with assms(2,3) show "0 \<le> score_of clients ip" "score_of clients ip + 90 < 2 ^ 63" by auto
qed

lemma analyse_and_decide_within:
  assumes "within_score n clients" "90 * (int n + int k) < 2 ^ 63" "0 < k"
  shows "within_score (Suc n) (snd (analyse_and_decide uni ctx req clients))"
proof -
  have "within_score (Suc n) clients"
    using assms(1) by (auto simp: within_score_def intro: order_trans)
  moreover have "within_score (Suc n) (clients(ctx_ClientIP ctx \<mapsto> \<lparr>cl_Score = score_of clients (ctx_ClientIP ctx) + 90\<rparr>))"
    using assms(1) calculation by (auto simp: within_score_def score_of_upd)
  ultimately show ?thesis
    by (simp add: analyse_and_decide_score [OF within_scoreD [OF assms]])
qed

lemma decide_all_actions:
  assumes "within_score n clients" "90 * (int n + int (length rs)) < 2 ^ 63"
  shows "fst (decide_all uni rs clients) =
    map (\<lambda>(ctx, req). if AnalyseReq uni req ctx = [] then Log else Block) rs"
  using assms
proof (induction rs arbitrary: n clients)
  case (Cons r rs)
  obtain ctx req where r: "r = (ctx, req)" by (cases r)
  let ?ad = "analyse_and_decide uni ctx req clients"
  from Cons.prems have within: "within_score (Suc n) (snd ?ad)"
    by (intro analyse_and_decide_within [where k = "length (r # rs)"]) auto
  have "fst ?ad = (if AnalyseReq uni req ctx = [] then Log else Block)"
    using within_scoreD [OF Cons.prems] by (simp add: analyse_and_decide_score)
  with Cons.IH [OF within] Cons.prems(2) show ?case by (simp add: r split_beta Let_def)
qed simp

text \<open>
  C32: from the program's start, every request in which something is detected is answered by blocking
  its client, at its very first one, and no other request is: the threshold of 70 lies below the
  score of any single detection. This holds for the first \<open>10 ^ 17\<close> requests, before which no score can
  overflow.
\<close>

theorem detected_is_blocked:
  assumes "length rs \<le> 10 ^ 17"
  shows "fst (decide_all uni rs Map.empty) =
    map (\<lambda>(ctx, req). if AnalyseReq uni req ctx = [] then Log else Block) rs"
  by (rule decide_all_actions [of 0]) (use assms in \<open>simp_all add: within_score_def score_of_def\<close>)

theorem detected_is_blocked_witness:
  "fst (decide_all id [(sample_context, sample_request ''/?q=Un%69on+Select'')] Map.empty) =
     map (\<lambda>(ctx, req). if AnalyseReq id req ctx = [] then Log else Block)
       [(sample_context, sample_request ''/?q=Un%69on+Select'')]"
  by (rule detected_is_blocked) simp

text \<open>
  The policy keeps its clients apart and forgets nothing: deciding on a request changes the score
  of its client only, and a client whose request was blocked is blocked at its next detection.
\<close>

lemma Decide_per_client:
  assumes "ip \<noteq> clientIP" "0 \<le> Score det" "score_of (snd (Decide clientIP dets clients)) clientIP + Score det < 2 ^ 63"
  shows "snd (Decide clientIP dets clients) ip = clients ip \<and>
    fst (Decide clientIP dets clients) \<le> fst (Decide clientIP [det] (snd (Decide clientIP dets clients)))"
  using assms
  by (auto simp: Decide_def Let_def add_score_def less_eq_Action_def wrap64_id int64_def score_of_def)

end
