(* ===== verification/Decompress.thy ===== *)
theory Decompress
  imports Http1
begin

text \<open>
  Body decompression, \<^verbatim>\<open>internal/parser/decompress.go\<close>. The decompressors themselves (gzip, zlib and
  flate of the Go library, the third-party brotli) are parameters: opening one on a body can fail, and
  an open one is known by what io.ReadAll of an io.LimitReader over it returns for each limit, the
  bytes read and whether the read ended in an error.
\<close>

section \<open>Decoders\<close>

type_synonym reader = "nat \<Rightarrow> bytes \<times> bool"

record decoders =
  gzip_NewReader :: "bytes \<Rightarrow> reader option"
  brotli_NewReader :: "bytes \<Rightarrow> reader"
  zlib_NewReader :: "bytes \<Rightarrow> reader option"
  flate_NewReader :: "bytes \<Rightarrow> reader"

text \<open>The documented behaviour of io.LimitReader: no more bytes than the limit.\<close>

definition limits :: "reader \<Rightarrow> bool" where
  "limits r \<longleftrightarrow> (\<forall>n. length (fst (r n)) \<le> n)"

definition limited :: "decoders \<Rightarrow> bool" where
  "limited D \<longleftrightarrow>
     (\<forall>b. limits (brotli_NewReader D b) \<and> limits (flate_NewReader D b) \<and>
       pred_option limits (gzip_NewReader D b) \<and> pred_option limits (zlib_NewReader D b))"

definition maxDecompressedSize :: nat where
  "maxDecompressedSize = push_bit 20 8"

section \<open>decodeBody\<close>

definition content_encoding :: "(bytes \<Rightarrow> bytes) \<Rightarrow> bytes \<Rightarrow> bytes" where
  "content_encoding uni contentEncoding = ToLower uni (TrimSpace contentEncoding)"

text \<open>The reader the switch opens; \<open>None\<close> is one of the two returns before anything is read.\<close>

definition open_reader :: "decoders \<Rightarrow> bytes \<Rightarrow> bytes \<Rightarrow> reader option" where
  "open_reader D body enc =
     (if enc = ''gzip'' \<or> enc = ''x-gzip'' then gzip_NewReader D body
      else if enc = ''br'' then Some (brotli_NewReader D body)
      else if enc = ''deflate'' then
        (case zlib_NewReader D body of Some zr \<Rightarrow> Some zr | None \<Rightarrow> Some (flate_NewReader D body))
      else None)"

definition decodeBody :: "decoders \<Rightarrow> (bytes \<Rightarrow> bytes) \<Rightarrow> bytes \<Rightarrow> bytes \<Rightarrow> bytes \<times> bool" where
  "decodeBody D uni body contentEncoding =
     (let enc = content_encoding uni contentEncoding in
      if enc = [] \<or> enc = ''identity'' then (body, True)
      else case open_reader D body enc of
        None \<Rightarrow> (body, False)
      | Some r \<Rightarrow>
          (let (out, err) = r (maxDecompressedSize + 1) in
           if err then (body, False)
           else if maxDecompressedSize < length out then (take maxDecompressedSize out, True)
           else (out, True)))"

text \<open>A header that is missing reads as the empty string.\<close>

definition header_value :: "(bytes \<rightharpoonup> bytes) \<Rightarrow> bytes \<Rightarrow> bytes" where
  "header_value headers name = (case headers name of None \<Rightarrow> [] | Some v \<Rightarrow> v)"

definition DecodeRequestBody :: "decoders \<Rightarrow> (bytes \<Rightarrow> bytes) \<Rightarrow> HTTPRequest \<Rightarrow> HTTPRequest" where
  "DecodeRequestBody D uni req =
     (let (decoded, ok) = decodeBody D uni (req_Body req) (header_value (req_Headers req) ''content-encoding'')
      in if ok then req\<lparr>req_Body := decoded\<rparr> else req)"

definition DecodeResponseBody :: "decoders \<Rightarrow> (bytes \<Rightarrow> bytes) \<Rightarrow> HTTPResponse \<Rightarrow> HTTPResponse" where
  "DecodeResponseBody D uni resp =
     (let (decoded, ok) = decodeBody D uni (resp_Body resp) (header_value (resp_Headers resp) ''content-encoding'')
      in if ok then resp\<lparr>resp_Body := decoded\<rparr> else resp)"

section \<open>What is decoded\<close>

lemma open_reader_limits: "limited D \<Longrightarrow> open_reader D body enc = Some r \<Longrightarrow> limits r"
  by (auto simp: open_reader_def limited_def pred_option_def split: if_splits option.splits)

text \<open>One read of one byte more than the maximum is enough to know all that is returned.\<close>

lemma decodeBody_cases:
  assumes "decodeBody D uni body ce = (out, ok)"
  shows "out = body \<or>
    (ok \<and> (\<exists>r. open_reader D body (content_encoding uni ce) = Some r \<and>
       snd (r (maxDecompressedSize + 1)) = False \<and>
       out = take maxDecompressedSize (fst (r (maxDecompressedSize + 1)))))"
  using assms by (auto simp: decodeBody_def Let_def split: if_splits option.splits prod.splits)

text \<open>
  C34: decoding changes the body only, and only to what the decoder named by the content-encoding
  header yields, cut at 8 MiB: a decompression bomb costs at most the limit. A body whose encoding is
  unknown, or that does not open, or whose reading ends in an error, stays as it was.
\<close>

theorem DecodeRequestBody_bounded:
  assumes "limited D"
  shows "\<exists>out. DecodeRequestBody D uni req = req\<lparr>req_Body := out\<rparr> \<and>
    (out = req_Body req \<or>
     length out \<le> maxDecompressedSize \<and>
     (\<exists>r. open_reader D (req_Body req)
            (content_encoding uni (header_value (req_Headers req) ''content-encoding'')) = Some r \<and>
          length (fst (r (maxDecompressedSize + 1))) \<le> maxDecompressedSize + 1 \<and>
          prefix out (fst (r (maxDecompressedSize + 1)))))"
proof -
  let ?ce = "header_value (req_Headers req) ''content-encoding''"
  obtain out ok where d: "decodeBody D uni (req_Body req) ?ce = (out, ok)"
    by (cases "decodeBody D uni (req_Body req) ?ce")
  then have "DecodeRequestBody D uni req = req\<lparr>req_Body := if ok then out else req_Body req\<rparr>"
    by (simp add: DecodeRequestBody_def)
  moreover have "limits r \<Longrightarrow> length (fst (r (maxDecompressedSize + 1))) \<le> maxDecompressedSize + 1" for r
    by (simp add: limits_def)
  ultimately show ?thesis
    using decodeBody_cases [OF d] open_reader_limits [OF assms]
    by (cases ok) (fastforce simp: take_is_prefix)+
qed

text \<open>Decoders to run it on: one that yields the body's bytes repeated, one that always fails.\<close>

definition sample_decoders :: decoders where
  "sample_decoders = \<lparr>gzip_NewReader = \<lambda>b. Some (\<lambda>n. (take n (b @ b), False)),
     brotli_NewReader = \<lambda>b n. ([], True), zlib_NewReader = \<lambda>b. None,
     flate_NewReader = \<lambda>b n. (take n b, False)\<rparr>"

definition gzip_request :: HTTPRequest where
  "gzip_request = \<lparr>req_Method = ''POST'', req_Path = ''/'', req_Version = ''HTTP/1.1'',
     req_Headers = [''content-encoding'' \<mapsto> '' GZIP''], req_Body = ''ab''\<rparr>"

lemma sample_decoders_limited: "limited sample_decoders"
  by (auto simp: limited_def limits_def sample_decoders_def)

theorem DecodeRequestBody_bounded_witness:
  "\<exists>out. DecodeRequestBody sample_decoders id gzip_request = gzip_request\<lparr>req_Body := out\<rparr> \<and>
     (out = ''ab'' \<or> length out \<le> maxDecompressedSize)"
  using DecodeRequestBody_bounded [OF sample_decoders_limited, of id gzip_request]
  by (auto simp: gzip_request_def)

end
