(* ===== verification/Blocklist.thy ===== *)
theory Blocklist
  imports GoText
begin

unbundle bit_operations_syntax

text \<open>
  The blocklist, \<^verbatim>\<open>internal/filter/filter.go\<close>: AddBlocked turns an address or CIDR into a key of one of
  the two longest-prefix-match maps the XDP program looks packets up in, and cleanupExpired removes
  entries that have expired. The clock is an argument. Of the Go library's address text, dotted quads
  are written out; the textual form of IPv6 addresses is a parameter.
\<close>

section \<open>Data\<close>

record LPMKey =
  PrefixLen :: u32
  key_IP :: u32

record LPMKey6 =
  PrefixLen6 :: u32
  key_IP6 :: bytes

record BlockInfo =
  ExpiresAtNs :: u64
  HitCount :: u64
  Reason :: u32

definition BLOCK_MANUAL :: u32 where "BLOCK_MANUAL = 0"
definition BLOCK_RATELIMIT :: u32 where "BLOCK_RATELIMIT = 1"
definition BLOCK_L7_DETECT :: u32 where "BLOCK_L7_DETECT = 2"
definition BLOCK_THREATFEED :: u32 where "BLOCK_THREATFEED = 3"
definition BLOCK_DDOS_PROTECT :: u32 where "BLOCK_DDOS_PROTECT = 4"

section \<open>Addresses\<close>

text \<open>
  The IPv6 half of net/netip: \<open>print6\<close> is the text of sixteen bytes that are no mapped IPv4 address,
  \<open>parse6\<close> reads a text with a colon.
\<close>

record ip6_text =
  print6 :: "bytes \<Rightarrow> bytes"
  parse6 :: "bytes \<Rightarrow> bytes option"

definition print_quad :: "bytes \<Rightarrow> bytes" where
  "print_quad ip =
     print_nat 10 (of_char (ip ! 0)) @ ''.'' @ print_nat 10 (of_char (ip ! 1)) @ ''.'' @
     print_nat 10 (of_char (ip ! 2)) @ ''.'' @ print_nat 10 (of_char (ip ! 3))"

definition mapped_prefix :: bytes where
  "mapped_prefix = replicate 10 CHR 0x00 @ replicate 2 CHR 0xFF"

text \<open>net.IP.To4 and net.IP.String, on four or sixteen bytes.\<close>

definition To4 :: "bytes \<Rightarrow> bytes option" where
  "To4 ip =
     (if length ip = 4 then Some ip
      else if length ip = 16 \<and> prefix mapped_prefix ip then Some (drop 12 ip) else None)"

definition IP_String :: "ip6_text \<Rightarrow> bytes \<Rightarrow> bytes" where
  "IP_String T ip = (case To4 ip of Some q \<Rightarrow> print_quad q | None \<Rightarrow> print6 T ip)"

text \<open>
  netip's reader of dotted quads: the loop's variables are the fields read, the value and number of
  digits of the field under way. A field has no leading zero, is at most 255 and is not empty.
\<close>

fun quad_loop :: "bytes \<Rightarrow> nat list \<Rightarrow> nat \<Rightarrow> nat \<Rightarrow> nat list option" where
  "quad_loop [] octets val digLen =
     (if length octets < 3 \<or> digLen = 0 then None else Some (octets @ [val]))"
| "quad_loop (c # s) octets val digLen =
     (case digit_val 10 c of
        Some d \<Rightarrow>
          if digLen = 1 \<and> val = 0 then None
          else if 255 < val * 10 + d then None
          else quad_loop s octets (val * 10 + d) (digLen + 1)
      | None \<Rightarrow>
          if c = CHR ''.'' then
            (if digLen = 0 \<or> s = [] then None
             else if length octets = 3 then None
             else quad_loop s (octets @ [val]) 0 0)
          else None)"

definition parse_quad :: "bytes \<Rightarrow> bytes option" where
  "parse_quad s = map_option (map byte_of) (quad_loop s [] 0 0)"

text \<open>netip.ParseAddr: the first dot, colon or percent sign decides which reader it is.\<close>

definition ParseAddr :: "ip6_text \<Rightarrow> bytes \<Rightarrow> bytes option" where
  "ParseAddr T s =
     (case find (\<lambda>c. c = CHR ''.'' \<or> c = CHR '':'' \<or> c = CHR ''%'') s of
        None \<Rightarrow> None
      | Some c \<Rightarrow>
          if c = CHR ''.'' then parse_quad s
          else if c = CHR '':'' then parse6 T s
          else None)"

text \<open>The mask's length: a decimal number below 0xFFFFFF, and nothing after it.\<close>

definition parse_prefix_len :: "bytes \<Rightarrow> nat option" where
  "parse_prefix_len s =
     (if s \<noteq> [] \<and> list_all (is_digit 10) s \<and> digits_val 10 s < 0xFFFFFF then Some (digits_val 10 s) else None)"

definition mask_byte :: "nat \<Rightarrow> byte \<Rightarrow> byte" where
  "mask_byte n c = byte_of (of_char c - of_char c mod 2 ^ (8 - n))"

fun mask_bytes :: "nat \<Rightarrow> bytes \<Rightarrow> bytes" where
  "mask_bytes n [] = []"
| "mask_bytes n (c # ip) = mask_byte (min n 8) c # mask_bytes (n - 8) ip"

text \<open>net.ParseCIDR: the masked address, four or sixteen bytes, and the mask's length.\<close>

definition ParseCIDR :: "ip6_text \<Rightarrow> bytes \<Rightarrow> (bytes \<times> nat) option" where
  "ParseCIDR T s =
     (case IndexByte s CHR ''/'' of
        None \<Rightarrow> None
      | Some i \<Rightarrow>
          (case (ParseAddr T (take i s), parse_prefix_len (drop (i + 1) s)) of
             (Some ip, Some n) \<Rightarrow> if 8 * length ip < n then None else Some (mask_bytes n ip, n)
           | _ \<Rightarrow> None))"

section \<open>AddBlocked\<close>

definition le32 :: "bytes \<Rightarrow> u32" where
  "le32 b =
     of_char (b ! 0) OR push_bit 8 (of_char (b ! 1)) OR push_bit 16 (of_char (b ! 2)) OR
       push_bit 24 (of_char (b ! 3))"

definition put_le32 :: "u32 \<Rightarrow> bytes" where
  "put_le32 w = map (\<lambda>i. char_of (unat (drop_bit (8 * i) w))) [0, 1, 2, 3]"

definition keyIPString :: "LPMKey \<Rightarrow> bytes" where
  "keyIPString key = print_quad (put_le32 (key_IP key))"

definition key6IPString :: "ip6_text \<Rightarrow> LPMKey6 \<Rightarrow> bytes" where
  "key6IPString T key = IP_String T (key_IP6 key)"

text \<open>What AddBlocked asks the kernel to store, or its error.\<close>

datatype block_request = InvalidCIDR | Put4 LPMKey BlockInfo | Put6 LPMKey6 BlockInfo

definition with_prefix_len :: "bytes \<Rightarrow> bytes" where
  "with_prefix_len cidr =
     (if \<not> Contains cidr ''/'' then (if Contains cidr '':'' then cidr @ ''/128'' else cidr @ ''/32'') else cidr)"

definition AddBlocked :: "ip6_text \<Rightarrow> u64 \<Rightarrow> bytes \<Rightarrow> u64 \<Rightarrow> u32 \<Rightarrow> block_request" where
  "AddBlocked T now cidr duration reason =
     (case ParseCIDR T (with_prefix_len cidr) of
        None \<Rightarrow> InvalidCIDR
      | Some (ip, ones) \<Rightarrow>
          (let value = \<lparr>ExpiresAtNs = now + duration, HitCount = 0, Reason = reason\<rparr>
           in case To4 ip of
                Some ip4 \<Rightarrow> Put4 \<lparr>PrefixLen = of_nat ones, key_IP = le32 ip4\<rparr> value
              | None \<Rightarrow> Put6 \<lparr>PrefixLen6 = of_nat ones, key_IP6 = ip\<rparr> value))"

section \<open>Expiry\<close>

text \<open>
  A map as the list of its entries. The keys to delete are collected first and deleted then; \<open>iter_ok\<close>
  is whether the kernel's iteration went through, \<open>del_ok\<close> whether it deletes a key.
\<close>

definition is_expired :: "u64 \<Rightarrow> BlockInfo \<Rightarrow> bool" where
  "is_expired now value \<longleftrightarrow> ExpiresAtNs value \<noteq> 0 \<and> ExpiresAtNs value < now"

definition cleanupExpired ::
  "bool \<Rightarrow> ('k \<Rightarrow> bool) \<Rightarrow> u64 \<Rightarrow> ('k \<times> BlockInfo) list \<Rightarrow> ('k \<times> BlockInfo) list" where
  "cleanupExpired iter_ok del_ok now m =
     (let expired = map fst (filter (\<lambda>(k, value). is_expired now value) m)
      in if \<not> iter_ok then m
         else foldl (\<lambda>m k. if del_ok k then AList.delete k m else m) m expired)"

text \<open>
  The ticks of StartGC: every ten seconds both maps are cleaned up, each with a clock reading of its
  own. What the kernel answers to a tick is part of it.
\<close>

record filter_maps =
  LpmMap :: "(LPMKey \<times> BlockInfo) list"
  LpmMapIpv6 :: "(LPMKey6 \<times> BlockInfo) list"

record gc_tick =
  now4 :: u64
  iter4 :: bool
  del4 :: "LPMKey \<Rightarrow> bool"
  now6 :: u64
  iter6 :: bool
  del6 :: "LPMKey6 \<Rightarrow> bool"

definition gc :: "gc_tick \<Rightarrow> filter_maps \<Rightarrow> filter_maps" where
  "gc t f =
     f\<lparr>LpmMap := cleanupExpired (iter4 t) (del4 t) (now4 t) (LpmMap f),
       LpmMapIpv6 := cleanupExpired (iter6 t) (del6 t) (now6 t) (LpmMapIpv6 f)\<rparr>"

definition StartGC :: "gc_tick list \<Rightarrow> filter_maps \<Rightarrow> filter_maps" where
  "StartGC = fold gc"

section \<open>Printing the maps\<close>

text \<open>
  DumpMap prints both maps, in the order of the kernel's iteration; \<open>ok4\<close> and \<open>ok6\<close> are how many entries each
  iteration reaches before it fails, if it does.
\<close>

definition dump_line :: "bytes \<Rightarrow> u32 \<Rightarrow> BlockInfo \<Rightarrow> bytes" where
  "dump_line ip len info =
     ip @ ''/'' @ print_nat 10 (unat len) @ ''  expires='' @ print_nat 10 (unat (ExpiresAtNs info)) @
     '' hits='' @ print_nat 10 (unat (HitCount info)) @ '' reason='' @ print_nat 10 (unat (Reason info)) @ [CHR 0x0A]"

definition DumpMap :: "ip6_text \<Rightarrow> nat \<Rightarrow> nat \<Rightarrow> filter_maps \<Rightarrow> bytes" where
  "DumpMap T ok4 ok6 f =
     ''printing trie map contents:'' @ [CHR 0x0A] @
     concat (map (\<lambda>(k, info). dump_line (keyIPString k) (PrefixLen k) info) (take ok4 (LpmMap f))) @
     concat (map (\<lambda>(k, info). dump_line (key6IPString T k) (PrefixLen6 k) info) (take ok6 (LpmMapIpv6 f)))"

end
