(* ===== verification/Sniffer.thy ===== *)
theory Sniffer
  imports Terminal Policy Decompress Masking Blocklist
begin

text \<open>
  The TLS sniffer's event loop, \<^verbatim>\<open>internal/sniffer/sniffer.go\<close>: one event is one read or write of a TLS
  connection captured in the kernel, or its end. The loop keeps a table of connections, finds out the
  protocol of each, feeds the bytes to its parser, and puts every request through analysis, policy,
  blocking, decompression, masking, logging and printing, every response through the last four.
\<close>

section \<open>Data\<close>

definition dirSend :: u32 where "dirSend = 0"
definition dirRecv :: u32 where "dirRecv = 1"
definition dirClose :: u32 where "dirClose = 2"
definition afInet6 :: u16 where "afInet6 = 10"
definition maxCapturedRead :: u32 where "maxCapturedRead = 8191"

record sslbuffer =
  Timens :: u64
  Tid :: u32
  Pid :: u32
  Len :: u32
  Dir :: u32
  SSL_ptr :: u64
  Family :: u16
  Client_port :: u16
  Server_port :: u16
  Client_ip :: bytes
  Server_ip :: bytes
  Buf :: bytes

record 'd connection =
  request_buffer :: bytes
  response_buffer :: bytes
  conn_proto :: proto
  h2 :: "'d HTTP2Conn option"
  h2logged :: bool

definition new_connection :: "'d connection" where
  "new_connection =
     \<lparr>request_buffer = [], response_buffer = [], conn_proto = ProtoUnknown, h2 = None, h2logged = False\<rparr>"

text \<open>The library and third-party code the loop calls, and the clock's readings during one event.\<close>

record 'd libs =
  hpack_of :: "'d hpack"
  decoders_of :: decoders
  json_of :: json_lib
  ip6_of :: ip6_text
  uni_of :: "bytes \<Rightarrow> bytes"

record clock =
  wall :: bytes
  monotonic :: u64

text \<open>
  What lies outside the connections: the policy's clients, the logger's queues, the blocklist entries
  asked of the kernel, in order, the poison messages written to the process's log, and what was printed.
\<close>

record world =
  w_clients :: clients
  w_logger :: logger
  w_blocks :: "block_request list"
  w_poison :: "bytes list"
  w_printed :: "printed list"

record 'd sniffer =
  connections :: "(u64 \<times> 'd connection) list"
  outside :: world

definition ipStr :: "ip6_text \<Rightarrow> u16 \<Rightarrow> bytes \<Rightarrow> bytes" where
  "ipStr T family raw = (if family = afInet6 then IP_String T raw else IP_String T (take 4 raw))"

definition endpoints_of :: "ip6_text \<Rightarrow> sslbuffer \<Rightarrow> endpoints" where
  "endpoints_of T ev =
     \<lparr>ep_pid = Pid ev, ep_tid = Tid ev, clientIP = ipStr T (Family ev) (Client_ip ev),
      clientPort = Client_port ev, serverIP = ipStr T (Family ev) (Server_ip ev), serverPort = Server_port ev\<rparr>"

section \<open>What happens to a message\<close>

text \<open>500 hours in nanoseconds.\<close>

definition block_duration :: u64 where
  "block_duration = 500 * 3600 * 1000000000"

definition process_request :: "'d libs \<Rightarrow> clock \<Rightarrow> endpoints \<Rightarrow> stream_tag \<Rightarrow> HTTPRequest \<Rightarrow> world \<Rightarrow> world" where
  "process_request L now ep tag req w =
     (let ctx = \<lparr>ctx_Timestamp = wall now, ctx_ClientIP = clientIP ep\<rparr>;
          detections = AnalyseReq (uni_of L) req ctx;
          w = w\<lparr>w_logger := fold LogDetection detections (w_logger w)\<rparr>;
          (action, cls) = Decide (clientIP ep) detections (w_clients w);
          w = w\<lparr>w_clients := cls\<rparr>;
          w = (if action = Block
               then w\<lparr>w_blocks := w_blocks w @ [AddBlocked (ip6_of L) (monotonic now) (clientIP ep) block_duration BLOCK_L7_DETECT]\<rparr>
               else w);
          req = DecodeRequestBody (decoders_of L) (uni_of L) req;
          req = MaskRequest (json_of L) (uni_of L) req
      in w\<lparr>w_logger := LogRequest req ep (wall now) (w_logger w), w_printed := w_printed w @ [PrintedRequest ep tag req]\<rparr>)"

definition process_response :: "'d libs \<Rightarrow> clock \<Rightarrow> endpoints \<Rightarrow> stream_tag \<Rightarrow> HTTPResponse \<Rightarrow> world \<Rightarrow> world" where
  "process_response L now ep tag resp w =
     (let resp = DecodeResponseBody (decoders_of L) (uni_of L) resp;
          resp = MaskResponse (json_of L) (uni_of L) resp
      in w\<lparr>w_logger := LogResponse resp ep (wall now) (w_logger w), w_printed := w_printed w @ [PrintedResponse ep tag resp]\<rparr>)"

definition process_requests :: "'d libs \<Rightarrow> clock \<Rightarrow> endpoints \<Rightarrow> (stream_tag \<times> HTTPRequest) list \<Rightarrow> world \<Rightarrow> world" where
  "process_requests L now ep = fold (\<lambda>(tag, req). process_request L now ep tag req)"

definition process_responses :: "'d libs \<Rightarrow> clock \<Rightarrow> endpoints \<Rightarrow> (stream_tag \<times> HTTPResponse) list \<Rightarrow> world \<Rightarrow> world" where
  "process_responses L now ep = fold (\<lambda>(tag, resp). process_response L now ep tag resp)"

definition logPoison :: "'d connection \<times> world \<Rightarrow> 'd connection \<times> world" where
  "logPoison = (\<lambda>(conn, w).
     case h2 conn of
       Some c \<Rightarrow>
         if Poisoned c \<and> \<not> h2logged conn
         then (conn\<lparr>h2logged := True\<rparr>,
               w\<lparr>w_poison := w_poison w @ [''http2: connection poisoned ('' @ PoisonReason c @ '')'']\<rparr>)
         else (conn, w)
     | None \<Rightarrow> (conn, w))"

section \<open>Bytes of a connection\<close>

text \<open>
  \<open>None\<close> is a panic, which ends the process. In the HTTP/1.x loops a panic comes after the messages
  before it have been processed; of a process that ends nothing is kept.
\<close>

definition feed_h2_request ::
  "'d libs \<Rightarrow> clock \<Rightarrow> endpoints \<Rightarrow> bytes \<Rightarrow> bool \<Rightarrow> 'd connection \<times> world \<Rightarrow> ('d connection \<times> world) option" where
  "feed_h2_request L now ep data truncated = (\<lambda>(conn, w).
     case h2 conn of
       None \<Rightarrow> None
     | Some c \<Rightarrow>
         map_option (\<lambda>(c', ms). (conn\<lparr>h2 := Some c'\<rparr>, process_requests L now ep (map request_tag ms) w))
           (FeedRequest (hpack_of L) data truncated c))"

definition feed_h2_response ::
  "'d libs \<Rightarrow> clock \<Rightarrow> endpoints \<Rightarrow> bytes \<Rightarrow> bool \<Rightarrow> 'd connection \<times> world \<Rightarrow> ('d connection \<times> world) option" where
  "feed_h2_response L now ep data truncated = (\<lambda>(conn, w).
     case h2 conn of
       None \<Rightarrow> None
     | Some c \<Rightarrow>
         map_option (\<lambda>(c', ms). (conn\<lparr>h2 := Some c'\<rparr>, process_responses L now ep (map response_tag ms) w))
           (FeedResponse (hpack_of L) data truncated c))"

text \<open>The read that completes the preface: what is buffered is handed over, in both directions.\<close>

definition upgrade_h2 ::
  "'d libs \<Rightarrow> clock \<Rightarrow> endpoints \<Rightarrow> 'd connection \<times> world \<Rightarrow> ('d connection \<times> world) option" where
  "upgrade_h2 L now ep = (\<lambda>(conn, w).
     let conn = conn\<lparr>conn_proto := ProtoHTTP2, h2 := Some (NewHTTP2Conn (hpack_of L))\<rparr>;
         rb = request_buffer conn
     in Option.bind
          (if PrefaceLen \<le> length rb then feed_h2_request L now ep (drop PrefaceLen rb) False (conn, w)
           else Some (conn, w))
          (\<lambda>(conn, w).
             let conn = conn\<lparr>request_buffer := []\<rparr>
             in Option.bind
                  (if response_buffer conn \<noteq> []
                   then map_option (\<lambda>(conn, w). (conn\<lparr>response_buffer := []\<rparr>, w))
                          (feed_h2_response L now ep (response_buffer conn) False (conn, w))
                   else Some (conn, w))
                  (\<lambda>cw. Some (logPoison cw))))"

definition http1_request ::
  "'d libs \<Rightarrow> clock \<Rightarrow> endpoints \<Rightarrow> 'd connection \<times> world \<Rightarrow> ('d connection \<times> world) option" where
  "http1_request L now ep = (\<lambda>(conn, w).
     Option.bind (parse_all (ParseRequest (uni_of L)) (request_buffer conn)) (\<lambda>(reqs, rest, panicked).
       if panicked then None
       else Some (conn\<lparr>request_buffer := rest\<rparr>, process_requests L now ep (map (Pair None) reqs) w)))"

definition http1_response ::
  "'d libs \<Rightarrow> clock \<Rightarrow> endpoints \<Rightarrow> 'd connection \<times> world \<Rightarrow> ('d connection \<times> world) option" where
  "http1_response L now ep = (\<lambda>(conn, w).
     Option.bind (parse_all (ParseResponse (uni_of L)) (response_buffer conn)) (\<lambda>(resps, rest, panicked).
       if panicked then None
       else Some (conn\<lparr>response_buffer := rest\<rparr>, process_responses L now ep (map (Pair None) resps) w)))"

definition buffer_data :: "bool \<Rightarrow> bytes \<Rightarrow> 'd connection \<Rightarrow> 'd connection" where
  "buffer_data isReq data conn =
     (if isReq then conn\<lparr>request_buffer := request_buffer conn @ data\<rparr>
      else conn\<lparr>response_buffer := response_buffer conn @ data\<rparr>)"

definition handle_data ::
  "'d libs \<Rightarrow> clock \<Rightarrow> endpoints \<Rightarrow> bool \<Rightarrow> bool \<Rightarrow> bytes \<Rightarrow> 'd connection \<times> world \<Rightarrow> ('d connection \<times> world) option" where
  "handle_data L now ep isReq truncated data = (\<lambda>(conn, w).
     if conn_proto conn = ProtoHTTP2 then
       map_option logPoison
         (if isReq then feed_h2_request L now ep data truncated (conn, w)
          else feed_h2_response L now ep data truncated (conn, w))
     else
       (let conn = buffer_data isReq data conn;
            http1 = (if isReq then http1_request L now ep else http1_response L now ep)
        in if conn_proto conn = ProtoUnknown then
             (case DetectProto (request_buffer conn) of
                ProtoHTTP2 \<Rightarrow> upgrade_h2 L now ep (conn, w)
              | ProtoHTTP1 \<Rightarrow> http1 (conn\<lparr>conn_proto := ProtoHTTP1\<rparr>, w)
              | ProtoUnknown \<Rightarrow> Some (conn, w))
           else http1 (conn, w)))"

section \<open>Events\<close>

definition connection_of :: "u64 \<Rightarrow> 'd sniffer \<Rightarrow> 'd connection" where
  "connection_of k s = (case map_of (connections s) k of None \<Rightarrow> new_connection | Some conn \<Rightarrow> conn)"

definition handle_event :: "'d libs \<Rightarrow> clock \<Rightarrow> sslbuffer \<Rightarrow> 'd sniffer \<Rightarrow> 'd sniffer option" where
  "handle_event L now ev s =
     (if Dir ev = dirClose then Some (s\<lparr>connections := AList.delete (SSL_ptr ev) (connections s)\<rparr>)
      else case go_slice (Buf ev) 0 (int (unat (Len ev))) of
        None \<Rightarrow> None
      | Some data \<Rightarrow>
          map_option
            (\<lambda>(conn, w). s\<lparr>connections := AList.update (SSL_ptr ev) conn (connections s), outside := w\<rparr>)
            (handle_data L now (endpoints_of (ip6_of L) ev) (Dir ev = dirRecv) (Len ev = maxCapturedRead)
               data (connection_of (SSL_ptr ev) s, outside s)))"

definition new_sniffer :: "world \<Rightarrow> 'd sniffer" where
  "new_sniffer w = \<lparr>connections = [], outside = w\<rparr>"

text \<open>The loop over the events of the ring buffer.\<close>

fun sniff :: "'d libs \<Rightarrow> (clock \<times> sslbuffer) list \<Rightarrow> 'd sniffer \<Rightarrow> 'd sniffer option" where
  "sniff L [] s = Some s"
| "sniff L ((now, ev) # evs) s = Option.bind (handle_event L now ev s) (sniff L evs)"

end
