(* ===== verification/Blocklist_Props.thy ===== *)
theory Blocklist_Props
  imports Blocklist
begin

text \<open>
  What the blocklist stores: the address a client was printed with is read back to that address, as the
  exact key the XDP program looks the client's packets up by; expiry removes what has expired and
  nothing else.
\<close>

section \<open>Dotted quads\<close>

lemma div_100: "n div 100 = n div 10 div (10 :: nat)"
  by (simp add: div_mult2_eq [symmetric])

lemma print_octet:
  assumes "n < 256"
  shows "print_nat 10 n =
    (if n < 10 then [digit_char n]
     else if n < 100 then [digit_char (n div 10), digit_char (n mod 10)]
     else [digit_char (n div 10 div 10), digit_char (n div 10 mod 10), digit_char (n mod 10)])"
proof -
  have "n div 10 < 10 \<longleftrightarrow> n < 100" "n div 10 div 10 < 10" using assms by auto
  then show ?thesis
    by (simp add: print_nat.simps [of 10 n] print_nat.simps [of 10 "n div 10"]
        print_nat.simps [of 10 "n div 10 div 10"])
qed

lemma quad_loop_digit:
  "d < 10 \<Longrightarrow> \<not> (digLen = 1 \<and> val = 0) \<Longrightarrow> val * 10 + d \<le> 255 \<Longrightarrow>
     quad_loop (digit_char d # s) octets val digLen = quad_loop s octets (val * 10 + d) (digLen + 1)"
  by (auto simp: digit_val_char)

declare quad_loop.simps(2) [simp del]

lemma quad_loop_octet:
  assumes "n < 256"
  shows "\<exists>k. 0 < k \<and> quad_loop (print_nat 10 n @ s) octets 0 0 = quad_loop s octets n k"
proof -
  have whole: "n div 10 * 10 + n mod 10 = n" "n div 10 div 10 * 10 + n div 10 mod 10 = n div 10"
    by (simp_all only: div_mult_mod_eq)
  have small: "n div 10 div 10 < 10" "n div 10 mod 10 < 10" "n mod 10 < 10" "n div 10 \<le> 255" "n \<le> 255"
    using assms by auto
  consider "n < 10" | "10 \<le> n" "n < 100" | "100 \<le> n" by linarith
  then show ?thesis
  proof cases
    case 1
    then show ?thesis
      using quad_loop_digit [of n 0 0 s octets] by (intro exI [of _ 1]) (simp add: print_octet [OF assms])
  next
    case 2
    then have "print_nat 10 n @ s = digit_char (n div 10) # digit_char (n mod 10) # s"
      by (simp add: print_octet [OF assms])
    moreover from 2 have "n div 10 < 10" "n div 10 \<noteq> 0" by auto
    ultimately show ?thesis
      using whole small quad_loop_digit [of "n div 10" 0 0 _ octets] quad_loop_digit [of "n mod 10" 1 "n div 10" s octets]
      by (intro exI [of _ "Suc (Suc 0)"]) simp
  next
    case 3
    then have "print_nat 10 n @ s = digit_char (n div 10 div 10) # digit_char (n div 10 mod 10) # digit_char (n mod 10) # s"
      by (simp add: print_octet [OF assms])
    moreover from 3 have "n div 10 div 10 \<noteq> 0" by (simp add: div_100 [symmetric])
    ultimately show ?thesis
      using whole small quad_loop_digit [of "n div 10 div 10" 0 0 _ octets]
        quad_loop_digit [of "n div 10 mod 10" 1 "n div 10 div 10" _ octets]
        quad_loop_digit [of "n mod 10" "Suc (Suc 0)" "n div 10" s octets]
      by (intro exI [of _ "Suc (Suc (Suc 0))"]) simp
  qed
qed

lemma not_digit_dot: "digit_val 10 CHR ''.'' = None"
  by (simp add: digit_val_def)

lemma quad_loop_field:
  assumes "s \<noteq> []" "length octets < 3"
  shows "quad_loop (print_nat 10 (of_char c) @ CHR ''.'' # s) octets 0 0 = quad_loop s (octets @ [of_char c]) 0 0"
  using quad_loop_octet [OF of_char_octet, of c "CHR ''.'' # s" octets] assms by (auto simp: not_digit_dot quad_loop.simps(2))

lemma parse_print_quad:
  assumes "length ip = 4"
  shows "parse_quad (print_quad ip) = Some ip"
proof -
  from assms obtain a b c d where ip: "ip = [a, b, c, d]"
    by (auto simp: numeral_eq_Suc length_Suc_conv)
  obtain k where "0 < k" "quad_loop (print_nat 10 (of_char d) @ []) [of_char a, of_char b, of_char c] 0 0
      = quad_loop [] [of_char a, of_char b, of_char c] (of_char d) k"
    using quad_loop_octet [OF of_char_octet] by blast
  then have "quad_loop (print_quad ip) [] 0 0 = Some [of_char a, of_char b, of_char c, of_char d]"
    by (simp add: ip print_quad_def quad_loop_field print_nat_nonempty)
  then show ?thesis by (simp add: parse_quad_def ip byte_of_def)
qed

section \<open>Keys\<close>

lemma print_nat_only_digits: "\<forall>c \<in> set (print_nat 10 n). \<exists>d < 10. c = digit_char d"
  by (rule print_nat_digits) simp

lemma print_quad_chars: "c \<in> set (print_quad ip) \<Longrightarrow> c = CHR ''.'' \<or> (\<exists>d < 10. c = digit_char d)"
  using print_nat_only_digits by (auto simp: print_quad_def)

lemma digit_char_other:
  assumes "d < 10"
  shows "digit_char d \<noteq> CHR ''/''" "digit_char d \<noteq> CHR '':''" "digit_char d \<noteq> CHR ''%''" "digit_char d \<noteq> CHR ''.''"
  using digit_val_char [of 10 d] assms by (auto simp: digit_val_def)

lemma print_quad_plain: "CHR ''/'' \<notin> set (print_quad ip)" "CHR '':'' \<notin> set (print_quad ip)"
  using print_quad_chars digit_char_other by fastforce+

lemma Contains_byte: "Contains s [c] \<longleftrightarrow> c \<in> set s"
  by (auto simp: Contains_iff sublist_def in_set_conv_decomp)

lemma find_skip: "\<forall>x \<in> set xs. \<not> P x \<Longrightarrow> find P (xs @ ys) = find P ys"
  by (induction xs) auto

lemma ParseAddr_quad:
  assumes "length ip = 4"
  shows "ParseAddr T (print_quad ip) = Some ip"
proof -
  have "find (\<lambda>c. c = CHR ''.'' \<or> c = CHR '':'' \<or> c = CHR ''%'') (print_nat 10 n @ CHR ''.'' # s) = Some CHR ''.''" for n s
    using print_nat_only_digits [of n] digit_char_other by (subst find_skip) fastforce+
  then have "find (\<lambda>c. c = CHR ''.'' \<or> c = CHR '':'' \<or> c = CHR ''%'') (print_quad ip) = Some CHR ''.''"
    by (simp add: print_quad_def)
  then show ?thesis by (simp add: ParseAddr_def parse_print_quad [OF assms])
qed

lemma mask_byte_8: "mask_byte 8 c = c"
  by (simp add: mask_byte_def byte_of_def)

lemma mask_bytes_all: "8 * length ip \<le> n \<Longrightarrow> mask_bytes n ip = ip"
  by (induction n ip rule: mask_bytes.induct) (auto simp: mask_byte_8 min_absorb2)

lemma IndexByte_after: "c \<notin> set s \<Longrightarrow> IndexByte (s @ c # t) c = Some (length s)"
  using Index_after [of c s "[]" t] by (simp add: IndexByte_def)

lemma ParseCIDR_whole:
  assumes "CHR ''/'' \<notin> set s" "ParseAddr T s = Some ip" "parse_prefix_len l = Some (8 * length ip)"
  shows "ParseCIDR T (s @ CHR ''/'' # l) = Some (ip, 8 * length ip)"
  using assms by (simp add: ParseCIDR_def IndexByte_after mask_bytes_all)

lemma prefix_lens: "parse_prefix_len ''32'' = Some 32" "parse_prefix_len ''128'' = Some 128"
  by (simp_all add: parse_prefix_len_def digits_val_def digit_val_def is_digit_def)

lemma AddBlocked_quad:
  assumes "length ip = 4"
  shows "AddBlocked T now (print_quad ip) duration reason =
    Put4 \<lparr>PrefixLen = 32, key_IP = le32 ip\<rparr> \<lparr>ExpiresAtNs = now + duration, HitCount = 0, Reason = reason\<rparr>"
proof -
  have "with_prefix_len (print_quad ip) = print_quad ip @ CHR ''/'' # ''32''"
    by (simp add: with_prefix_len_def Contains_byte print_quad_plain)
  moreover have "ParseCIDR T (print_quad ip @ CHR ''/'' # ''32'') = Some (ip, 32)"
    using ParseCIDR_whole [OF print_quad_plain(1) ParseAddr_quad [OF assms], of "''32''" T] prefix_lens assms
    by simp
  ultimately show ?thesis using assms by (simp add: AddBlocked_def To4_def)
qed

lemma put_le32: "length b = 4 \<Longrightarrow> put_le32 (le32 b) = b"
proof -
  assume "length b = 4"
  then obtain c0 c1 c2 c3 where b: "b = [c0, c1, c2, c3]"
    by (auto simp: numeral_eq_Suc length_Suc_conv)
  have w: "le32 b = take_bit 8 (of_char c0) OR push_bit 8 (take_bit 8 (of_char c1)) OR
      push_bit 16 (take_bit 8 (of_char c2)) OR push_bit 24 (take_bit 8 (of_char c3))"
    unfolding take_bit_of_char by (simp add: le32_def b)
  have "take_bit 8 (drop_bit 0 (le32 b)) = take_bit 8 (of_char c0)"
    "take_bit 8 (drop_bit 8 (le32 b)) = take_bit 8 (of_char c1)"
    "take_bit 8 (drop_bit 16 (le32 b)) = take_bit 8 (of_char c2)"
    "take_bit 8 (drop_bit 24 (le32 b)) = take_bit 8 (of_char c3)"
    unfolding w by (rule bit_word_eqI; auto simp: bit_simps)+
  then show ?thesis by (simp add: put_le32_def take_bit_of_char char_of_low_byte b)
qed

text \<open>
  Blocking a client by the address it was printed with blocks that address and no other: the key
  has all 32 bits, its bytes in memory are the address's bytes in network order, which is what the XDP
  program looks up, and the key prints as the address again. The entry counts no hits and expires
  after the duration.
\<close>

lemma AddBlocked_address:
  assumes "length ip = 4"
  shows "AddBlocked T now (IP_String T ip) duration reason =
      Put4 \<lparr>PrefixLen = 32, key_IP = le32 ip\<rparr> \<lparr>ExpiresAtNs = now + duration, HitCount = 0, Reason = reason\<rparr> \<and>
    put_le32 (le32 ip) = ip \<and> keyIPString \<lparr>PrefixLen = 32, key_IP = le32 ip\<rparr> = IP_String T ip"
  using assms by (simp add: IP_String_def To4_def AddBlocked_quad keyIPString_def put_le32)

definition no_ip6 :: ip6_text where
  "no_ip6 = \<lparr>print6 = \<lambda>ip. '':''
   @ ip, parse6 = \<lambda>s. if s = ''::ffff:10.0.0.1'' then Some (mapped_prefix @ [CHR 0x0A, CHR 0x00, CHR 0x00, CHR 0x01]) else None\<rparr>"

text \<open>
  An IPv4 client written in the mapped form, as a dual-stack socket reports it: the key asked for is one of the
  IPv4 map with a prefix of 128 bits, which such a key does not have.
\<close>

lemma mapped_address_bad_prefix:
  assumes "parse6 T s = Some (mapped_prefix @ q)" "length q = 4"
    and "find (\<lambda>c. c = CHR ''.'' \<or> c = CHR '':'' \<or> c = CHR ''%'') s = Some CHR '':''" "CHR ''/'' \<notin> set s"
  shows "\<exists>value. AddBlocked T now s duration reason = Put4 \<lparr>PrefixLen = 128, key_IP = le32 q\<rparr> value"
proof -
  have "CHR '':'' \<in> set s" using assms(3) by (auto simp: find_Some_iff in_set_conv_nth)
  then have "with_prefix_len s = s @ CHR ''/'' # ''128''"
    using assms(4) by (simp add: with_prefix_len_def Contains_byte)
  moreover have "length (mapped_prefix @ q) = 16" using assms(2) by (simp add: mapped_prefix_def)
  moreover have "ParseAddr T s = Some (mapped_prefix @ q)" using assms(1,3) by (simp add: ParseAddr_def)
  ultimately have "ParseCIDR T (with_prefix_len s) = Some (mapped_prefix @ q, 128)"
    using ParseCIDR_whole [OF assms(4), of T "mapped_prefix @ q" "''128''"] prefix_lens by simp
  moreover have "To4 (mapped_prefix @ q) = Some q" using assms(2) by (simp add: To4_def mapped_prefix_def)
  ultimately show ?thesis by (simp add: AddBlocked_def)
qed

section \<open>Expiry\<close>

lemma foldl_delete:
  "foldl (\<lambda>m k. if del_ok k then AList.delete k m else m) m ks =
     filter (\<lambda>(k, value). \<not> (k \<in> set ks \<and> del_ok k)) m"
proof (induction ks arbitrary: m)
  case (Cons k ks)
  then show ?case by (auto simp: AList.delete_eq intro!: filter_cong)
qed simp

lemma collected_iff:
  assumes "distinct (map fst m)" "(k, v) \<in> set m"
  shows "k \<in> set (map fst (filter (\<lambda>(k, v). P v) m)) \<longleftrightarrow> P v"
proof
  assume "k \<in> set (map fst (filter (\<lambda>(k, v). P v) m))"
  then obtain w where "(k, w) \<in> set m" "P w" by auto
  with eq_key_imp_eq_value [OF assms this(1)] show "P v" by simp
next
  assume "P v"
  with assms(2) show "k \<in> set (map fst (filter (\<lambda>(k, v). P v) m))" by force
qed

lemma cleanupExpired_filter:
  assumes "distinct (map fst m)"
  shows "cleanupExpired iter_ok del_ok now m =
      filter (\<lambda>(k, value). \<not> (iter_ok \<and> is_expired now value \<and> del_ok k)) m"
proof -
  have "k \<in> set (map fst (filter (\<lambda>(k, value). is_expired now value) m)) \<longleftrightarrow> is_expired now v"
    if "(k, v) \<in> set m" for k v
    by (rule collected_iff) (use assms that in auto)
  then show ?thesis
    unfolding cleanupExpired_def foldl_delete Let_def by (cases iter_ok) (auto intro!: filter_cong)
qed

text \<open>
  A clean-up removes exactly the entries whose time has passed and which the kernel lets it delete;
  an entry with expiry time 0 never expires; nothing is removed when the kernel's iteration failed; and
  a second clean-up at the same time finds nothing more to do.
\<close>

lemma cleanupExpired_exact:
  assumes "distinct (map fst m)"
  shows "cleanupExpired iter_ok del_ok now m =
      filter (\<lambda>(k, value). \<not> (iter_ok \<and> ExpiresAtNs value \<noteq> 0 \<and> ExpiresAtNs value < now \<and> del_ok k)) m \<and>
    cleanupExpired iter_ok del_ok now (cleanupExpired iter_ok del_ok now m) = cleanupExpired iter_ok del_ok now m"
proof -
  let ?P = "\<lambda>(k, value). \<not> (iter_ok \<and> is_expired now value \<and> del_ok k)"
  have "cleanupExpired iter_ok del_ok now (filter ?P m) = filter ?P (filter ?P m)"
    using assms by (intro cleanupExpired_filter) (rule distinct_map_filter)
  then show ?thesis unfolding cleanupExpired_filter [OF assms] by (simp add: is_expired_def)
qed

lemma cleanupExpired_keeps_distinct: "distinct (map fst m) \<Longrightarrow> distinct (map fst (cleanupExpired i d now m))"
  by (simp add: cleanupExpired_filter distinct_map_filter)

lemma gc_entries:
  assumes "distinct (map fst (LpmMap f))" "distinct (map fst (LpmMapIpv6 f))"
    and "list_all (\<lambda>t. iter4 t \<and> iter6 t \<and> (\<forall>k. del4 t k) \<and> (\<forall>k. del6 t k)) ts"
  shows "LpmMap (StartGC ts f) = filter (\<lambda>(k, v). list_all (\<lambda>t. \<not> is_expired (now4 t) v) ts) (LpmMap f) \<and>
    LpmMapIpv6 (StartGC ts f) = filter (\<lambda>(k, v). list_all (\<lambda>t. \<not> is_expired (now6 t) v) ts) (LpmMapIpv6 f)"
  using assms
proof (induction ts arbitrary: f)
  case (Cons t ts)
  have "distinct (map fst (LpmMap (gc t f)))" "distinct (map fst (LpmMapIpv6 (gc t f)))"
    using Cons.prems by (simp_all add: gc_def cleanupExpired_keeps_distinct)
  from Cons.IH [OF this] Cons.prems show ?case
    by (auto simp: StartGC_def gc_def cleanupExpired_filter intro!: filter_cong)
qed (simp add: StartGC_def)

text \<open>
  C26: a block lasts exactly as long as it should: over any number of ticks of the garbage collector
  that the kernel carries out, an entry of either map is kept, unchanged, as long as no tick comes
  after its expiry time, and the first tick that does removes it; one with expiry time 0 is kept for ever.
\<close>

theorem blocks_expire:
  assumes "distinct (map fst (LpmMap f))" "distinct (map fst (LpmMapIpv6 f))"
    and "list_all (\<lambda>t. iter4 t \<and> iter6 t \<and> (\<forall>k. del4 t k) \<and> (\<forall>k. del6 t k)) ts"
  shows "((k, v) \<in> set (LpmMap (StartGC ts f)) \<longleftrightarrow>
      (k, v) \<in> set (LpmMap f) \<and> (ExpiresAtNs v = 0 \<or> (\<forall>t \<in> set ts. now4 t \<le> ExpiresAtNs v))) \<and>
    ((k6, v6) \<in> set (LpmMapIpv6 (StartGC ts f)) \<longleftrightarrow>
      (k6, v6) \<in> set (LpmMapIpv6 f) \<and> (ExpiresAtNs v6 = 0 \<or> (\<forall>t \<in> set ts. now6 t \<le> ExpiresAtNs v6)))"
  unfolding conjunct1 [OF gc_entries [OF assms]] conjunct2 [OF gc_entries [OF assms]]
  by (auto simp: list_all_iff is_expired_def not_less)

definition sample_tick :: "u64 \<Rightarrow> gc_tick" where
  "sample_tick t = \<lparr>now4 = t, iter4 = True, del4 = \<lambda>k. True, now6 = t, iter6 = True, del6 = \<lambda>k. True\<rparr>"

theorem blocks_expire_witness:
  "(\<lparr>PrefixLen = 32, key_IP = 1\<rparr>, \<lparr>ExpiresAtNs = 5, HitCount = 0, Reason = 2\<rparr>)
     \<in> set (LpmMap (StartGC [sample_tick 3, sample_tick 5]
         \<lparr>LpmMap = [(\<lparr>PrefixLen = 32, key_IP = 1\<rparr>, \<lparr>ExpiresAtNs = 5, HitCount = 0, Reason = 2\<rparr>)], LpmMapIpv6 = []\<rparr>)) \<and>
   (\<lparr>PrefixLen = 32, key_IP = 1\<rparr>, \<lparr>ExpiresAtNs = 5, HitCount = 0, Reason = 2\<rparr>)
     \<notin> set (LpmMap (StartGC [sample_tick 3, sample_tick 6]
         \<lparr>LpmMap = [(\<lparr>PrefixLen = 32, key_IP = 1\<rparr>, \<lparr>ExpiresAtNs = 5, HitCount = 0, Reason = 2\<rparr>)], LpmMapIpv6 = []\<rparr>))"
  using blocks_expire [of "\<lparr>LpmMap = [(\<lparr>PrefixLen = 32, key_IP = 1\<rparr>, \<lparr>ExpiresAtNs = 5, HitCount = 0, Reason = 2\<rparr>)], LpmMapIpv6 = []\<rparr>"
      "[sample_tick 3, sample_tick 5]" "\<lparr>PrefixLen = 32, key_IP = 1\<rparr>" "\<lparr>ExpiresAtNs = 5, HitCount = 0, Reason = 2\<rparr>"]
    blocks_expire [of "\<lparr>LpmMap = [(\<lparr>PrefixLen = 32, key_IP = 1\<rparr>, \<lparr>ExpiresAtNs = 5, HitCount = 0, Reason = 2\<rparr>)], LpmMapIpv6 = []\<rparr>"
      "[sample_tick 3, sample_tick 6]" "\<lparr>PrefixLen = 32, key_IP = 1\<rparr>" "\<lparr>ExpiresAtNs = 5, HitCount = 0, Reason = 2\<rparr>"]
  by (simp add: sample_tick_def)

end
