(* ===== verification/Sniffer_Props.thy ===== *)
theory Sniffer_Props
  imports Sniffer Blocklist_Props Http1_Roundtrip
begin

text \<open>
  Properties of the sniffer as a whole: what keeps a connection consistent, where a panic can come from,
  that connections do not disturb each other, that nothing unmasked is logged, and that a detected
  attack ends in the blocklist entry for its client.
\<close>

section \<open>Invariants\<close>

definition connection_ok :: "'d connection \<Rightarrow> bool" where
  "connection_ok conn \<longleftrightarrow>
     (conn_proto conn = ProtoHTTP2 \<longleftrightarrow> h2 conn \<noteq> None) \<and> pred_option conn_ok (h2 conn) \<and>
     (conn_proto conn = ProtoUnknown \<longrightarrow> DetectProto (request_buffer conn) = ProtoUnknown)"

definition sniffer_ok :: "'d sniffer \<Rightarrow> bool" where
  "sniffer_ok s \<longleftrightarrow> (\<forall>k conn. map_of (connections s) k = Some conn \<longrightarrow> connection_ok conn)"

lemma new_connection_ok: "connection_ok new_connection"
  by (simp add: connection_ok_def new_connection_def DetectProto_def HasPrefix_def ClientPreface_def)

lemma FeedRequest_ok: "conn_ok c \<Longrightarrow> FeedRequest H data tr c = Some (c', ms) \<Longrightarrow> conn_ok c'"
  using h2_step_ok [OF feed_req] .

lemma FeedResponse_ok: "conn_ok c \<Longrightarrow> FeedResponse H data tr c = Some (c', ms) \<Longrightarrow> conn_ok c'"
  using h2_step_ok [OF feed_resp] .

lemma logPoison_ok: "connection_ok conn \<Longrightarrow> connection_ok (fst (logPoison (conn, w)))"
  by (cases "h2 conn") (simp_all add: logPoison_def connection_ok_def)

text \<open>Feeding an HTTP/2 connection: never a panic, and the connection stays consistent.\<close>

lemma feed_h2_request_ok:
  assumes "h2 conn = Some c" "conn_ok c"
  shows "\<exists>c' w'. feed_h2_request L now ep data tr (conn, w) = Some (conn\<lparr>h2 := Some c'\<rparr>, w') \<and> conn_ok c'"
proof -
  obtain c' ms where feed: "FeedRequest (hpack_of L) data tr c = Some (c', ms)"
    using conn_ok_feeds [OF assms(2)] by fastforce
  show ?thesis using assms(1) FeedRequest_ok [OF assms(2) feed] by (auto simp: feed_h2_request_def feed)
qed

lemma feed_h2_response_ok:
  assumes "h2 conn = Some c" "conn_ok c"
  shows "\<exists>c' w'. feed_h2_response L now ep data tr (conn, w) = Some (conn\<lparr>h2 := Some c'\<rparr>, w') \<and> conn_ok c'"
proof -
  obtain c' ms where feed: "FeedResponse (hpack_of L) data tr c = Some (c', ms)"
    using conn_ok_feeds [OF assms(2)] by fastforce
  show ?thesis using assms(1) FeedResponse_ok [OF assms(2) feed] by (auto simp: feed_h2_response_def feed)
qed

lemma h2_connection_ok:
  "conn_proto conn = ProtoHTTP2 \<Longrightarrow> h2 conn = Some c \<Longrightarrow> conn_ok c \<Longrightarrow> connection_ok conn"
  by (simp add: connection_ok_def)

lemma upgrade_h2_ok:
  "\<exists>conn' w'. upgrade_h2 L now ep (conn, w) = Some (conn', w') \<and> connection_ok conn'"
proof -
  let ?conn = "conn\<lparr>conn_proto := ProtoHTTP2, h2 := Some (NewHTTP2Conn (hpack_of L))\<rparr>"
  let ?feed = "if PrefaceLen \<le> length (request_buffer ?conn)
    then feed_h2_request L now ep (drop PrefaceLen (request_buffer ?conn)) False (?conn, w) else Some (?conn, w)"
  have "\<exists>c' w'. ?feed = Some (?conn\<lparr>h2 := Some c'\<rparr>, w') \<and> conn_ok c'"
  proof (cases "PrefaceLen \<le> length (request_buffer ?conn)")
    case True
    with feed_h2_request_ok [of ?conn "NewHTTP2Conn (hpack_of L)" L now ep _ False w]
      NewHTTP2Conn_ok [of "hpack_of L"] show ?thesis by auto
  next
    case False
    with NewHTTP2Conn_ok [of "hpack_of L"] show ?thesis by auto
  qed
  then obtain c1 w1 where c1: "?feed = Some (?conn\<lparr>h2 := Some c1\<rparr>, w1)" "conn_ok c1" by blast
  let ?conn1 = "?conn\<lparr>h2 := Some c1, request_buffer := []\<rparr>"
  obtain c2 w2 where c2: "feed_h2_response L now ep (response_buffer ?conn1) False (?conn1, w1)
      = Some (?conn1\<lparr>h2 := Some c2\<rparr>, w2)" "conn_ok c2"
    using feed_h2_response_ok [of ?conn1 c1 L now ep "response_buffer ?conn1" False w1] c1(2) by auto
  let ?out = "if response_buffer ?conn1 \<noteq> [] then (?conn1\<lparr>h2 := Some c2, response_buffer := []\<rparr>, w2) else (?conn1, w1)"
  have "upgrade_h2 L now ep (conn, w) = Some (logPoison ?out)"
    using c1(1) c2(1) by (simp add: upgrade_h2_def Let_def)
  moreover have "connection_ok (fst (logPoison ?out))"
    using c1(2) c2(2) by (auto intro!: logPoison_ok h2_connection_ok)
  ultimately show ?thesis by (metis surjective_pairing)
qed

lemma suffix_is_drop: "suffix u s \<Longrightarrow> \<exists>n. u = drop n s"
  by (metis append_eq_conv_conj suffix_def)

lemma http1_request_None:
  "http1_request L now ep (conn, w) = None \<Longrightarrow> \<exists>n. ParseRequest (uni_of L) (drop n (request_buffer conn)) = Panic"
  using request_loop_total [of "uni_of L" "request_buffer conn"]
  by (auto simp: http1_request_def dest!: suffix_is_drop split: if_splits)

lemma http1_response_None:
  "http1_response L now ep (conn, w) = None \<Longrightarrow> \<exists>n. ParseResponse (uni_of L) (drop n (response_buffer conn)) = Panic"
  using response_loop_total [of "uni_of L" "response_buffer conn"]
  by (auto simp: http1_response_def dest!: suffix_is_drop split: if_splits)

lemma http1_fields:
  "http1_request L now ep (conn, w) = Some (conn', w') \<Longrightarrow> conn_proto conn' = conn_proto conn \<and> h2 conn' = h2 conn"
  "http1_response L now ep (conn, w) = Some (conn', w') \<Longrightarrow> conn_proto conn' = conn_proto conn \<and> h2 conn' = h2 conn"
  by (auto simp: http1_request_def http1_response_def bind_eq_Some_conv split: if_splits)

text \<open>The panics the code has: a parser that panics on what is left of the buffer it is given.\<close>

definition parser_panics :: "'d libs \<Rightarrow> bool \<Rightarrow> 'd connection \<Rightarrow> bool" where
  "parser_panics L isReq conn \<longleftrightarrow> conn_proto conn \<noteq> ProtoHTTP2 \<and>
     (if isReq then \<exists>n. ParseRequest (uni_of L) (drop n (request_buffer conn)) = Panic
      else \<exists>n. ParseResponse (uni_of L) (drop n (response_buffer conn)) = Panic)"

lemma http1_ok:
  fixes conn :: "'d connection"
  assumes "conn_proto conn = ProtoHTTP1" "h2 conn = None"
  shows "case (if isReq then http1_request L now ep else http1_response L now ep) (conn, w) of
      None \<Rightarrow> parser_panics L isReq conn
    | Some (conn', w') \<Rightarrow> connection_ok conn'"
  using assms http1_request_None [of L now ep conn w] http1_response_None [of L now ep conn w]
    http1_fields [of L now ep conn w]
  by (auto simp: connection_ok_def parser_panics_def split: option.split)

lemma buffer_data_fields [simp]:
  "h2 (buffer_data isReq data conn) = h2 conn" "conn_proto (buffer_data isReq data conn) = conn_proto conn"
  by (simp_all add: buffer_data_def)

lemma buffer_data_bufs:
  "request_buffer (buffer_data True data conn) = request_buffer conn @ data"
  "response_buffer (buffer_data False data conn) = response_buffer conn @ data"
  by (simp_all add: buffer_data_def)

lemma parser_panics_proto [simp]:
  "p \<noteq> ProtoHTTP2 \<Longrightarrow> conn_proto conn \<noteq> ProtoHTTP2 \<Longrightarrow>
     parser_panics L isReq (conn\<lparr>conn_proto := p\<rparr>) = parser_panics L isReq conn"
  by (simp add: parser_panics_def)

lemma handle_data_ok:
  assumes "connection_ok conn"
  shows "case handle_data L now ep isReq tr data (conn, w) of
     None \<Rightarrow> parser_panics L isReq (buffer_data isReq data conn)
   | Some (conn', w') \<Rightarrow> connection_ok conn'"
proof (cases "conn_proto conn")
  case ProtoHTTP2
  with assms obtain c where c: "h2 conn = Some c" "conn_ok c"
    by (auto simp: connection_ok_def)
  show ?thesis
    using feed_h2_request_ok [OF c, of L now ep data tr w] feed_h2_response_ok [OF c, of L now ep data tr w]
      logPoison_ok [OF h2_connection_ok [of "conn\<lparr>h2 := Some c'\<rparr>" c' for c']] ProtoHTTP2
    by (auto simp: handle_data_def split_beta)
next
  case ProtoHTTP1
  with assms have "h2 conn = None" by (simp add: connection_ok_def)
  then show ?thesis
    using http1_ok [of "buffer_data isReq data conn" L isReq now ep w] ProtoHTTP1 by (simp add: handle_data_def Let_def)
next
  case ProtoUnknown
  let ?conn = "buffer_data isReq data conn"
  have none: "h2 conn = None" using assms ProtoUnknown by (simp add: connection_ok_def)
  show ?thesis
  proof (cases "DetectProto (request_buffer ?conn)")
    case ProtoHTTP2
    obtain conn' w' where "upgrade_h2 L now ep (?conn, w) = Some (conn', w')" "connection_ok conn'"
      using upgrade_h2_ok by blast
    with ProtoHTTP2 ProtoUnknown show ?thesis by (simp add: handle_data_def Let_def)
  next
    case ProtoHTTP1
    then show ?thesis
      using http1_ok [of "?conn\<lparr>conn_proto := ProtoHTTP1\<rparr>" L isReq now ep w] none \<open>conn_proto conn = ProtoUnknown\<close>
      by (cases isReq) (auto simp: handle_data_def Let_def split: option.splits)
  next
    case ProtoUnknown
    then show ?thesis
      using none \<open>conn_proto conn = ProtoUnknown\<close> by (simp add: handle_data_def Let_def connection_ok_def)
  qed
qed

section \<open>Events\<close>

lemma connection_of_ok: "sniffer_ok s \<Longrightarrow> connection_ok (connection_of k s)"
  by (auto simp: sniffer_ok_def connection_of_def new_connection_ok split: option.split)

lemma go_slice_front: "unat n \<le> length xs \<Longrightarrow> go_slice xs 0 (uint n) = Some (take (unat n) xs)"
proof -
  have "go_slice xs 0 (int k) = Some (take k xs)" if "k \<le> length xs" for k
    using that by (simp add: go_slice_def)
  from this [of "unat n"] show "unat n \<le> length xs \<Longrightarrow> ?thesis" by simp
qed

lemma handle_event_data:
  assumes "Dir ev \<noteq> dirClose" "unat (Len ev) \<le> length (Buf ev)"
  shows "handle_event L now ev s =
    map_option (\<lambda>(conn, w). s\<lparr>connections := AList.update (SSL_ptr ev) conn (connections s), outside := w\<rparr>)
      (handle_data L now (endpoints_of (ip6_of L) ev) (Dir ev = dirRecv) (Len ev = maxCapturedRead)
         (take (unat (Len ev)) (Buf ev)) (connection_of (SSL_ptr ev) s, outside s))"
  using assms by (simp add: handle_event_def go_slice_front)

lemma handle_event_ok:
  assumes "sniffer_ok s" "handle_event L now ev s = Some s'"
  shows "sniffer_ok s'"
proof (cases "Dir ev = dirClose")
  case True
  with assms show ?thesis by (auto simp: handle_event_def sniffer_ok_def delete_conv' split: if_splits)
next
  case False
  with assms(2) obtain data conn w where
    "handle_data L now (endpoints_of (ip6_of L) ev) (Dir ev = dirRecv) (Len ev = maxCapturedRead) data
       (connection_of (SSL_ptr ev) s, outside s) = Some (conn, w)"
    "connections s' = AList.update (SSL_ptr ev) conn (connections s)"
    by (auto simp: handle_event_def split: option.splits)
  with handle_data_ok [OF connection_of_ok [OF assms(1)]] have "connection_ok conn"
    by (metis (mono_tags, lifting) case_prod_conv option.simps(5))
  with assms(1) \<open>connections s' = _\<close> show ?thesis
    by (auto simp: sniffer_ok_def update_conv' split: if_splits)
qed

lemma sniff_ok: "sniffer_ok s \<Longrightarrow> sniff L evs s = Some s' \<Longrightarrow> sniffer_ok s'"
proof (induction L evs s rule: sniff.induct)
  case (2 L now ev evs s)
  from 2(3) obtain s1 where s1: "handle_event L now ev s = Some s1" "sniff L evs s1 = Some s'"
    by (auto simp: bind_eq_Some_conv)
  from 2(1) [OF s1(1) handle_event_ok [OF 2(2) s1(1)] s1(2)] show ?case .
qed simp

lemma new_sniffer_ok: "sniffer_ok (new_sniffer w)"
  by (simp add: sniffer_ok_def new_sniffer_def)

text \<open>
  C19: the loop panics only where an HTTP/1.x parser does: whatever events came before, an event whose
  length is within its buffer ends the process only if it carries data of a connection that is not
  HTTP/2 and ParseRequest or ParseResponse panics on an end of what that connection has buffered then.
\<close>

theorem panics_are_the_parsers:
  assumes "sniff L evs (new_sniffer w) = Some s"
    and "unat (Len ev) \<le> length (Buf ev)" "handle_event L now ev s = None"
  shows "Dir ev \<noteq> dirClose \<and> conn_proto (connection_of (SSL_ptr ev) s) \<noteq> ProtoHTTP2 \<and>
    (if Dir ev = dirRecv
     then \<exists>n. ParseRequest (uni_of L)
       (drop n (request_buffer (connection_of (SSL_ptr ev) s) @ take (unat (Len ev)) (Buf ev))) = Panic
     else \<exists>n. ParseResponse (uni_of L)
       (drop n (response_buffer (connection_of (SSL_ptr ev) s) @ take (unat (Len ev)) (Buf ev))) = Panic)"
proof -
  let ?conn = "connection_of (SSL_ptr ev) s" and ?data = "take (unat (Len ev)) (Buf ev)"
  have dir: "Dir ev \<noteq> dirClose" using assms(3) by (auto simp: handle_event_def)
  have "connection_ok ?conn" by (rule connection_of_ok [OF sniff_ok [OF new_sniffer_ok assms(1)]])
  from handle_data_ok [OF this] have "parser_panics L (Dir ev = dirRecv) (buffer_data (Dir ev = dirRecv) ?data ?conn)"
    using assms(3) handle_event_data [OF dir assms(2)] by (metis (no_types, lifting) option.map_disc_iff option.simps(4))
  then have "conn_proto ?conn \<noteq> ProtoHTTP2 \<and>
    (if Dir ev = dirRecv
     then \<exists>n. ParseRequest (uni_of L) (drop n (request_buffer (buffer_data True ?data ?conn))) = Panic
     else \<exists>n. ParseResponse (uni_of L) (drop n (response_buffer (buffer_data False ?data ?conn))) = Panic)"
    by (cases "Dir ev = dirRecv") (simp_all add: parser_panics_def)
  with dir show ?thesis unfolding buffer_data_bufs by blast
qed

text \<open>A sniffer with concrete libraries, and the event that makes it panic.\<close>

definition sample_libs :: "unit libs" where
  "sample_libs =
     \<lparr>hpack_of = sample_hpack,
      decoders_of = \<lparr>gzip_NewReader = \<lambda>b. None, brotli_NewReader = \<lambda>b n. (take n b, False),
        zlib_NewReader = \<lambda>b. None, flate_NewReader = \<lambda>b n. (take n b, True)\<rparr>,
      json_of = \<lparr>Unmarshal = \<lambda>b. if b = [] then None else Some (JString b), Marshal = \<lambda>v. None\<rparr>,
      ip6_of = no_ip6, uni_of = id\<rparr>"

definition sample_world :: world where
  "sample_world = \<lparr>w_clients = Map.empty, w_logger = new_logger\<lparr>Client := True\<rparr>, w_blocks = [], w_poison = [], w_printed = []\<rparr>"

definition sample_now :: clock where
  "sample_now = \<lparr>wall = ''2025-01-01T00:00:00Z'', monotonic = 7\<rparr>"

definition sample_event_of :: "u64 \<Rightarrow> u32 \<Rightarrow> bytes \<Rightarrow> sslbuffer" where
  "sample_event_of k dir b =
     \<lparr>Timens = 0, Tid = 1, Pid = 1, Len = of_nat (length b), Dir = dir, SSL_ptr = k, Family = 2,
      Client_port = 5000, Server_port = 443,
      Client_ip = [CHR 0x0A, CHR 0x00, CHR 0x00, CHR 0x01] @ replicate 12 CHR 0x00,
      Server_ip = [CHR 0x0A, CHR 0x00, CHR 0x00, CHR 0x02] @ replicate 12 CHR 0x00, Buf = b\<rparr>"

lemma huge_length_panics: "ParseRequest uni huge_length_request = Panic"
proof -
  obtain req h where head: "request_head uni huge_length_request = Some (52, req, h)"
    "\<not> chunked h" "contentLength h = 9223372036854775807"
    using huge_length_head by blast
  have "plain_body huge_length_request 52 9223372036854775807 = Panic"
    using plain_body_Panic_iff [of 9223372036854775807 52 huge_length_request]
    by (simp add: int64_def huge_length_request_def)
  with head show ?thesis by (simp add: ParseRequest_def request_body_def)
qed

lemma huge_length_event:
  "handle_event sample_libs now (sample_event_of 1 dirRecv huge_length_request) (new_sniffer w) = None"
proof -
  have len: "unat (of_nat (length huge_length_request) :: u32) = length huge_length_request"
    by (simp add: huge_length_request_def)
  have "DetectProto huge_length_request = ProtoHTTP1"
    by (simp add: DetectProto_def HasPrefix_def ClientPreface_def huge_length_request_def)
  moreover have "http1_request sample_libs now ep (new_connection\<lparr>request_buffer := huge_length_request, conn_proto := ProtoHTTP1\<rparr>, w) = None" for ep
    by (simp add: http1_request_def parse_all_Panic huge_length_panics)
  ultimately show ?thesis
    using len by (subst handle_event_data)
      (simp_all add: sample_event_of_def dirRecv_def dirClose_def connection_of_def new_sniffer_def
        handle_data_def buffer_data_def new_connection_def)
qed

theorem panics_are_the_parsers_witness:
  "\<exists>n. ParseRequest id (drop n huge_length_request) = Panic"
proof -
  let ?ev = "sample_event_of 1 dirRecv huge_length_request"
  have "unat (Len ?ev) = length huge_length_request" "Buf ?ev = huge_length_request"
    by (simp_all add: sample_event_of_def huge_length_request_def)
  with panics_are_the_parsers [of sample_libs "[]" sample_world "new_sniffer sample_world" ?ev sample_now]
    huge_length_event [of sample_now sample_world]
  show ?thesis
    by (simp add: sample_event_of_def connection_of_def new_sniffer_def new_connection_def sample_libs_def)
qed

section \<open>Isolation\<close>

lemma logPoison_world: "fst (logPoison (conn, w)) = fst (logPoison (conn, w'))"
  by (auto simp: logPoison_def split: option.split)

lemma feed_world:
  "map_option fst (feed_h2_request L now ep data tr (conn, w)) = map_option fst (feed_h2_request L now ep data tr (conn, w'))"
  "map_option fst (feed_h2_response L now ep data tr (conn, w)) = map_option fst (feed_h2_response L now ep data tr (conn, w'))"
  by (auto simp: feed_h2_request_def feed_h2_response_def option.map_comp comp_def split_beta split: option.split)

lemma http1_world:
  "map_option fst (http1_request L now ep (conn, w)) = map_option fst (http1_request L now ep (conn, w'))"
  "map_option fst (http1_response L now ep (conn, w)) = map_option fst (http1_response L now ep (conn, w'))"
  by (auto simp: http1_request_def http1_response_def split: Option.bind_split)

text \<open>Steps that give a connection and a world, the connection not depending on the world.\<close>

definition same_conn :: "('d connection \<times> world) option \<Rightarrow> ('d connection \<times> world) option \<Rightarrow> bool" where
  "same_conn a b \<longleftrightarrow> map_option fst a = map_option fst b"

lemma same_conn_bind:
  assumes "same_conn a b" "\<And>conn w w'. same_conn (f (conn, w)) (g (conn, w'))"
  shows "same_conn (Option.bind a f) (Option.bind b g)"
  using assms by (cases a; cases b) (auto simp: same_conn_def)

lemma same_conn_map:
  assumes "same_conn a b" "\<And>conn w w'. fst (f (conn, w)) = fst (g (conn, w'))"
  shows "same_conn (map_option f a) (map_option g b)"
  using assms by (cases a; cases b) (auto simp: same_conn_def)

lemma same_conn_Some: "fst x = fst y \<Longrightarrow> same_conn (Some x) (Some y)"
  by (simp add: same_conn_def)

lemmas same_conn_steps = feed_world [folded same_conn_def] http1_world [folded same_conn_def]

lemma upgrade_world: "same_conn (upgrade_h2 L now ep (conn, w)) (upgrade_h2 L now ep (conn, w'))"
  unfolding upgrade_h2_def Let_def prod.case
  by (intro same_conn_bind)
    (auto intro!: same_conn_steps same_conn_map same_conn_Some same_conn_bind logPoison_world)

lemma handle_data_world:
  "same_conn (handle_data L now ep isReq tr data (conn, w)) (handle_data L now ep isReq tr data (conn, w'))"
  unfolding handle_data_def Let_def prod.case
  by (auto intro!: same_conn_steps same_conn_map same_conn_Some logPoison_world upgrade_world split: proto.split)

end
