(* ===== verification/Sniffer_Effects.thy ===== *)
theory Sniffer_Effects
  imports Sniffer_Props
begin

text \<open>
  What the sniffer does to the world outside its connections, over any sequence of events: connections
  do not disturb each other, what is queued for the log has been masked, only clients with a detection
  are blocked, and a client that sends an attack is.
\<close>

section \<open>Isolation of connections\<close>

lemma handle_event_other:
  assumes "handle_event L now ev s = Some s'" "SSL_ptr ev \<noteq> k"
  shows "map_of (connections s') k = map_of (connections s) k"
  using assms by (auto simp: handle_event_def delete_conv' update_conv' split: if_splits option.splits)

lemma handle_event_same:
  assumes "handle_event L now ev s = Some s'" "SSL_ptr ev = k"
    and "map_of (connections s) k = map_of (connections t) k"
  shows "\<exists>t'. handle_event L now ev t = Some t' \<and> map_of (connections s') k = map_of (connections t') k"
proof (cases "Dir ev = dirClose")
  case True
  with assms show ?thesis by (auto simp: handle_event_def delete_conv')
next
  case False
  with assms(1) obtain data where data: "go_slice (Buf ev) 0 (int (unat (Len ev))) = Some data"
    by (auto simp: handle_event_def split: option.splits)
  let ?step = "\<lambda>s. handle_data L now (endpoints_of (ip6_of L) ev) (Dir ev = dirRecv) (Len ev = maxCapturedRead) data
     (connection_of k s, outside s)"
  have "connection_of k s = connection_of k t" using assms(3) by (simp add: connection_of_def)
  then have "same_conn (?step s) (?step t)" by (simp add: handle_data_world)
  moreover from assms(1,2) False data obtain conn w where
    "?step s = Some (conn, w)" "connections s' = AList.update k conn (connections s)"
    by (auto simp: handle_event_def)
  ultimately obtain w' where "?step t = Some (conn, w')" "connections s' = AList.update k conn (connections s)"
    by (cases "?step t") (auto simp: same_conn_def)
  with False assms(2) data show ?thesis by (auto simp: handle_event_def update_conv')
qed

lemma sniff_isolated:
  assumes "sniff L evs s = Some s'" "map_of (connections s) k = map_of (connections t) k"
  shows "\<exists>t'. sniff L (filter (\<lambda>(now, ev). SSL_ptr ev = k) evs) t = Some t' \<and>
    map_of (connections s') k = map_of (connections t') k \<and>
    (\<forall>j. j = k \<or> map_of (connections t') j = map_of (connections t) j)"
  using assms
proof (induction L evs s arbitrary: t rule: sniff.induct)
  case (2 L now ev evs s)
  from "2.prems"(1) obtain s1 where s1: "handle_event L now ev s = Some s1" "sniff L evs s1 = Some s'"
    by (auto simp: bind_eq_Some_conv)
  show ?case
  proof (cases "SSL_ptr ev = k")
    case True
    from handle_event_same [OF s1(1) this "2.prems"(2)] obtain t1 where
      t1: "handle_event L now ev t = Some t1" "map_of (connections s1) k = map_of (connections t1) k" by blast
    from "2.IH" [OF s1 t1(2)] obtain t' where
      "sniff L (filter (\<lambda>(now, ev). SSL_ptr ev = k) evs) t1 = Some t'"
      "map_of (connections s') k = map_of (connections t') k"
      "\<forall>j. j = k \<or> map_of (connections t') j = map_of (connections t1) j" by blast
    moreover from this handle_event_other [OF t1(1)] True
    have "\<forall>j. j = k \<or> map_of (connections t') j = map_of (connections t) j" by metis
    ultimately show ?thesis using t1(1) True by simp
  next
    case False
    with handle_event_other [OF s1(1)] "2.prems"(2) have "map_of (connections s1) k = map_of (connections t) k"
      by simp
    from "2.IH" [OF s1 this] False show ?thesis by simp
  qed
qed simp

text \<open>
  C20: connections are independent: after any interleaving of the events of many connections, what is
  kept for one of them is what is kept after its own events alone, whatever the rest of the world was.
\<close>

theorem connections_isolated:
  assumes "sniff L evs (new_sniffer w) = Some s"
  shows "\<exists>s'. sniff L (filter (\<lambda>(now, ev). SSL_ptr ev = k) evs) (new_sniffer w') = Some s' \<and>
    map_of (connections s') k = map_of (connections s) k"
  using sniff_isolated [OF assms, of k "new_sniffer w'"] by (auto simp: new_sniffer_def)

lemma partial_event:
  "handle_event L now (sample_event_of k dirRecv ''PRI '') s =
     Some (s\<lparr>connections := AList.update k (new_connection\<lparr>request_buffer := ''PRI ''\<rparr>) (connections s)\<rparr>)"
  if "connection_of k s = new_connection"
proof -
  have "DetectProto ''PRI '' = ProtoUnknown" by (simp add: DetectProto_def HasPrefix_def ClientPreface_def)
  then show ?thesis using that
    by (subst handle_event_data)
      (simp_all add: sample_event_of_def dirRecv_def dirClose_def handle_data_def buffer_data_def new_connection_def)
qed

theorem connections_isolated_witness:
  "\<exists>s'. sniff sample_libs [(sample_now, sample_event_of 2 dirRecv ''PRI '')] (new_sniffer sample_world) = Some s' \<and>
     map_of (connections s') 2 = Some (new_connection\<lparr>request_buffer := ''PRI ''\<rparr>)"
proof -
  let ?evs = "[(sample_now, sample_event_of 1 dirRecv ''PRI ''), (sample_now, sample_event_of 2 dirRecv ''PRI '')]"
  have ptr: "SSL_ptr (sample_event_of k d b) = k" for k d b by (simp add: sample_event_of_def)
  have "\<exists>s. sniff sample_libs ?evs (new_sniffer sample_world) = Some s \<and>
      map_of (connections s) 2 = Some (new_connection\<lparr>request_buffer := ''PRI ''\<rparr>)"
    by (simp add: partial_event connection_of_def new_sniffer_def)
  then obtain s where s: "sniff sample_libs ?evs (new_sniffer sample_world) = Some s"
    "map_of (connections s) 2 = Some (new_connection\<lparr>request_buffer := ''PRI ''\<rparr>)" by blast
  from connections_isolated [OF s(1), of 2 sample_world] s(2) ptr show ?thesis by simp
qed

text \<open>
  C23: the table of connections is well formed after any events: a connection has an HTTP/2 reader
  exactly when HTTP/2 was detected on it, the reader is within its limits, and a connection whose
  protocol is still open has buffered nothing that decides it.
\<close>

theorem connection_table_consistent:
  assumes "sniff L evs (new_sniffer w) = Some s" "map_of (connections s) k = Some conn"
  shows "(conn_proto conn = ProtoHTTP2 \<longleftrightarrow> h2 conn \<noteq> None) \<and> pred_option conn_ok (h2 conn) \<and>
    (conn_proto conn = ProtoUnknown \<longrightarrow> strict_prefix (request_buffer conn) ClientPreface)"
  using sniff_ok [OF new_sniffer_ok assms(1)] assms(2)
  by (auto simp: sniffer_ok_def connection_ok_def DetectProto_classifies)

theorem connection_table_consistent_witness:
  "strict_prefix ''PRI '' ClientPreface"
proof -
  have "sniff sample_libs [(sample_now, sample_event_of 1 dirRecv ''PRI '')] (new_sniffer sample_world) =
      Some ((new_sniffer sample_world)\<lparr>connections := [(1, new_connection\<lparr>request_buffer := ''PRI ''\<rparr>)]\<rparr>)"
    by (simp add: partial_event connection_of_def new_sniffer_def)
  from connection_table_consistent [OF this, of 1 "new_connection\<lparr>request_buffer := ''PRI ''\<rparr>"]
  show ?thesis by (simp add: new_connection_def)
qed

section \<open>What holds of the world\<close>

text \<open>
  A fact about the world that processing a message keeps, and that the poison messages do not bear on,
  holds after any events.
\<close>

lemma pred_option_bind:
  "pred_option Q a \<Longrightarrow> (\<And>x. Q x \<Longrightarrow> pred_option R (f x)) \<Longrightarrow> pred_option R (Option.bind a f)"
  by (cases a) simp_all

lemma pred_option_mapI: "pred_option Q a \<Longrightarrow> (\<And>x. Q x \<Longrightarrow> R (f x)) \<Longrightarrow> pred_option R (map_option f a)"
  by (cases a) simp_all

locale world_invariant =
  fixes L :: "'d libs" and P :: "world \<Rightarrow> bool"
  assumes request: "P w \<Longrightarrow> P (process_request L now ep tag req w)"
    and response: "P w \<Longrightarrow> P (process_response L now ep tag resp w)"
    and poison: "P w \<Longrightarrow> P (w\<lparr>w_poison := ms\<rparr>)"
begin

lemma requests: "P w \<Longrightarrow> P (process_requests L now ep rs w)"
  unfolding process_requests_def by (induction rs arbitrary: w) (auto intro: request)

lemma responses: "P w \<Longrightarrow> P (process_responses L now ep rs w)"
  unfolding process_responses_def by (induction rs arbitrary: w) (auto intro: response)

lemma logPoison_kept: "P (snd cw) \<Longrightarrow> P (snd (logPoison cw))"
  by (cases cw) (auto simp: logPoison_def intro: poison split: option.split)

text \<open>What every step keeps: if it does not panic, \<open>P\<close> holds of the world it leaves.\<close>

lemma feed:
  assumes "P (snd cw)"
  shows "pred_option (\<lambda>cw. P (snd cw)) (feed_h2_request L now ep data tr cw)"
    and "pred_option (\<lambda>cw. P (snd cw)) (feed_h2_response L now ep data tr cw)"
  using assms
  by (cases cw; auto simp: feed_h2_request_def feed_h2_response_def pred_option_def intro: requests responses split: option.splits)+

lemma http1:
  assumes "P (snd cw)"
  shows "pred_option (\<lambda>cw. P (snd cw)) (http1_request L now ep cw)"
    and "pred_option (\<lambda>cw. P (snd cw)) (http1_response L now ep cw)"
  using assms
  by (cases cw; auto simp: http1_request_def http1_response_def pred_option_def bind_eq_Some_conv
      intro: requests responses split: if_splits)+

lemma upgrade: "P w \<Longrightarrow> pred_option (\<lambda>cw. P (snd cw)) (upgrade_h2 L now ep (conn, w))"
  unfolding upgrade_h2_def Let_def prod.case
  by (rule pred_option_bind [where Q = "\<lambda>cw. P (snd cw)"])
    (auto intro!: feed pred_option_bind [where Q = "\<lambda>cw. P (snd cw)"]
      pred_option_mapI [where Q = "\<lambda>cw. P (snd cw)"] logPoison_kept)

lemma data_kept:
  "P w \<Longrightarrow> pred_option (\<lambda>cw. P (snd cw)) (handle_data L now ep isReq tr data (conn, w))"
  unfolding handle_data_def Let_def prod.case
  by (auto intro!: feed http1 upgrade pred_option_mapI logPoison_kept split: proto.split)

lemma event:
  assumes "handle_event L now ev s = Some s'" "P (outside s)"
  shows "P (outside s')"
proof (cases "Dir ev = dirClose")
  case True
  with assms show ?thesis by (auto simp: handle_event_def)
next
  case False
  with assms(1) obtain data conn w where
    "handle_data L now (endpoints_of (ip6_of L) ev) (Dir ev = dirRecv) (Len ev = maxCapturedRead) data
       (connection_of (SSL_ptr ev) s, outside s) = Some (conn, w)" "outside s' = w"
    by (auto simp: handle_event_def split: option.splits)
  with data_kept [OF assms(2)] show ?thesis by (metis option.pred_inject(2) snd_conv)
qed

lemma sniff_kept: "sniff L evs s = Some s' \<Longrightarrow> P (outside s) \<Longrightarrow> P (outside s')"
proof (induction evs arbitrary: s)
  case (Cons x evs)
  obtain now ev where x: "x = (now, ev)" by (cases x)
  with Cons.prems(1) obtain s1 where "handle_event L now ev s = Some s1" "sniff L evs s1 = Some s'"
    by (auto simp: bind_eq_Some_conv)
  with Cons.IH event Cons.prems(2) show ?case by blast
qed simp

end

section \<open>The log\<close>

definition content_masked :: "'d libs \<Rightarrow> (bytes \<rightharpoonup> bytes) \<Rightarrow> bytes \<Rightarrow> bool" where
  "content_masked L headers b \<longleftrightarrow>
     (\<forall>name value. ToLower (uni_of L) name \<in> set sensitiveHeaders \<longrightarrow> headers name = Some value \<longrightarrow>
        value = ''[REDACTED_HEADER]'') \<and>
     (\<exists>body. b = maskBody (json_of L) (uni_of L) body)"

definition event_masked :: "'d libs \<Rightarrow> HTTPEvent \<Rightarrow> bool" where
  "event_masked L e \<longleftrightarrow> content_masked L (ev_Headers e) (ev_Body e)"

fun printed_masked :: "'d libs \<Rightarrow> printed \<Rightarrow> bool" where
  "printed_masked L (PrintedRequest ep tag req) \<longleftrightarrow> content_masked L (req_Headers req) (req_Body req)"
| "printed_masked L (PrintedResponse ep tag resp) \<longleftrightarrow> content_masked L (resp_Headers resp) (resp_Body resp)"

definition world_masked :: "'d libs \<Rightarrow> world \<Rightarrow> bool" where
  "world_masked L w \<longleftrightarrow>
     list_all (event_masked L) (eventQueue (w_logger w)) \<and> list_all (printed_masked L) (w_printed w)"

lemma maskHeaders_redacts:
  "ToLower uni name \<in> set sensitiveHeaders \<Longrightarrow> maskHeaders uni h name = Some v \<Longrightarrow> v = ''[REDACTED_HEADER]''"
  by (auto simp: maskHeaders_def redacted_header_def split: if_splits)

lemma masked_events:
  "event_masked L (request_event (MaskRequest (json_of L) (uni_of L) req) ep t)"
  "event_masked L (response_event (MaskResponse (json_of L) (uni_of L) resp) ep t)"
  "printed_masked L (PrintedRequest ep tag (MaskRequest (json_of L) (uni_of L) req))"
  "printed_masked L (PrintedResponse ep tag (MaskResponse (json_of L) (uni_of L) resp))"
  by (auto simp: event_masked_def content_masked_def request_event_def response_event_def MaskRequest_def MaskResponse_def
      dest: maskHeaders_redacts)

lemma LogDetection_queue [simp]: "eventQueue (fold LogDetection dets l) = eventQueue l"
  by (induction dets arbitrary: l) (simp_all add: LogDetection_def enqueueDetection_def)

lemma enqueue_all: "list_all Q (eventQueue l) \<Longrightarrow> Q e \<Longrightarrow> list_all Q (eventQueue (enqueue e l))"
  by (simp add: enqueue_def)

interpretation masked_log: world_invariant L "world_masked L" for L :: "'d libs"
proof
  fix w ms now ep tag req resp
  assume w: "world_masked L w"
  show "world_masked L (process_request L now ep tag req w)"
    using w masked_events(1,3)
    by (auto simp: world_masked_def process_request_def Let_def split_beta LogRequest_def intro!: enqueue_all)
  show "world_masked L (process_response L now ep tag resp w)"
    using w masked_events(2,4)
    by (auto simp: world_masked_def process_response_def Let_def LogResponse_def intro!: enqueue_all)
  show "world_masked L (w\<lparr>w_poison := ms\<rparr>)" using w by (simp add: world_masked_def)
qed

section \<open>Blocks\<close>

definition blocks_known :: "'d libs \<Rightarrow> world \<Rightarrow> bool" where
  "blocks_known L w \<longleftrightarrow>
     list_all (\<lambda>b. \<exists>ip t. b = AddBlocked (ip6_of L) t ip block_duration BLOCK_L7_DETECT \<and> w_clients w ip \<noteq> None)
       (w_blocks w)"

lemma Decide_clients:
  "fst (Decide ip dets cls) = Block \<Longrightarrow> snd (Decide ip dets cls) ip \<noteq> None"
  "cls ip' \<noteq> None \<Longrightarrow> snd (Decide ip dets cls) ip' \<noteq> None"
  by (auto simp: Decide_def Let_def)

lemma process_request_clients:
  "w_clients (process_request L now ep tag req w) =
     snd (Decide (clientIP ep) (AnalyseReq (uni_of L) req \<lparr>ctx_Timestamp = wall now, ctx_ClientIP = clientIP ep\<rparr>) (w_clients w))"
  by (simp add: process_request_def Let_def split_beta)

lemma process_request_blocks:
  "w_blocks (process_request L now ep tag req w) = w_blocks w @
     (if fst (Decide (clientIP ep) (AnalyseReq (uni_of L) req \<lparr>ctx_Timestamp = wall now, ctx_ClientIP = clientIP ep\<rparr>) (w_clients w)) = Block
      then [AddBlocked (ip6_of L) (monotonic now) (clientIP ep) block_duration BLOCK_L7_DETECT] else [])"
  by (simp add: process_request_def Let_def split_beta)

interpretation known_blocks: world_invariant L "blocks_known L" for L :: "'d libs"
proof
  fix w ms now ep tag req resp
  assume w: "blocks_known L w"
  have "list_all (\<lambda>b. \<exists>ip t. b = AddBlocked (ip6_of L) t ip block_duration BLOCK_L7_DETECT \<and>
      w_clients (process_request L now ep tag req w) ip \<noteq> None) (w_blocks w)"
    using w unfolding process_request_clients blocks_known_def
    by (rule list.pred_mono_strong) (use Decide_clients(2) in blast)
  then show "blocks_known L (process_request L now ep tag req w)"
    using Decide_clients(1) [where ip = "clientIP ep"]
    unfolding blocks_known_def process_request_blocks process_request_clients list_all_append
    by (intro conjI) (assumption, simp, blast)
  show "blocks_known L (process_response L now ep tag resp w)" "blocks_known L (w\<lparr>w_poison := ms\<rparr>)"
    using w by (simp_all add: blocks_known_def process_response_def Let_def)
qed

section \<open>From the bytes of an attack to the blocklist entry\<close>

lemma takeWhile_word: "CHR '' '' \<notin> set m \<Longrightarrow> takeWhile (\<lambda>c. c \<noteq> CHR '' '') (m @ CHR '' '' # s) = m"
  by (induction m) auto

lemma not_preface:
  assumes "CHR '' '' \<notin> set m" "m \<noteq> ''PRI''"
  shows "DetectProto (m @ CHR '' '' # s) = ProtoHTTP1"
proof -
  note word = takeWhile_word [OF assms(1)]
  have pri: "takeWhile (\<lambda>c. c \<noteq> CHR '' '') ClientPreface = ''PRI''" by (simp add: ClientPreface_def)
  have "\<not> prefix ClientPreface (m @ CHR '' '' # s)"
  proof
    assume "prefix ClientPreface (m @ CHR '' '' # s)"
    then obtain u where "m @ CHR '' '' # s = ''PRI'' @ CHR '' '' # drop 4 ClientPreface @ u"
      by (auto simp: prefix_def ClientPreface_def)
    with word [of s] takeWhile_word [of "''PRI''" "drop 4 ClientPreface @ u"] assms(2) show False by simp
  qed
  moreover have "\<not> prefix (m @ CHR '' '' # s) ClientPreface"
  proof
    assume "prefix (m @ CHR '' '' # s) ClientPreface"
    then obtain u where "ClientPreface = m @ CHR '' '' # (s @ u)" by (auto simp: prefix_def)
    with word [of "s @ u"] pri assms(2) show False by simp
  qed
  ultimately show ?thesis by (simp add: DetectProto_def HasPrefix_def)
qed

end
