(* ===== verification/Sniffer_Secrets.thy ===== *)
theory Sniffer_Secrets
  imports Sniffer_Effects
begin

text \<open>
  The values of the sensitive headers are secret: nothing that the sniffer keeps, queues, prints or asks of
  the kernel depends on them. Two header maps that differ in those values only are indistinguishable.
\<close>

section \<open>Headers up to their secrets\<close>

definition same_but_secrets :: "(bytes \<Rightarrow> bytes) \<Rightarrow> (bytes \<rightharpoonup> bytes) \<Rightarrow> (bytes \<rightharpoonup> bytes) \<Rightarrow> bool" where
  "same_but_secrets uni h h' \<longleftrightarrow>
     dom h = dom h' \<and> (\<forall>name. ToLower uni name \<notin> set sensitiveHeaders \<longrightarrow> h name = h' name)"

lemma maskHeaders_eq_iff: "maskHeaders uni h = maskHeaders uni h' \<longleftrightarrow> same_but_secrets uni h h'"
proof
  assume eq: "maskHeaders uni h = maskHeaders uni h'"
  have "h name = h' name" if "ToLower uni name \<notin> set sensitiveHeaders" for name
    using fun_cong [OF eq, of name] that by (simp add: maskHeaders_def)
  moreover have "h name = None \<longleftrightarrow> h' name = None" for name
    using fun_cong [OF eq, of name]
    by (cases "h name"; cases "h' name") (auto simp: maskHeaders_def split: if_splits)
  ultimately show "same_but_secrets uni h h'" by (auto simp: same_but_secrets_def dom_def)
next
  assume "same_but_secrets uni h h'"
  then have "h name = None \<longleftrightarrow> h' name = None" "ToLower uni name \<notin> set sensitiveHeaders \<Longrightarrow> h name = h' name" for name
    unfolding same_but_secrets_def by (metis domIff, blast)
  note agree = this
  have "maskHeaders uni h name = maskHeaders uni h' name" for name
    using agree [of name] by (cases "h name"; cases "h' name") (auto simp: maskHeaders_def)
  then show "maskHeaders uni h = maskHeaders uni h'" by blast
qed

lemma content_encoding_public:
  "same_but_secrets uni h h' \<Longrightarrow> header_value h ''content-encoding'' = header_value h' ''content-encoding''"
proof -
  have "ToLower uni ''content-encoding'' = ''content-encoding''"
    by (rule ToLower_id) (simp add: lower_ascii_def ascii_def is_upper_def)
  moreover have "''content-encoding'' \<notin> set sensitiveHeaders" by (simp add: sensitiveHeaders_def)
  ultimately show "same_but_secrets uni h h' \<Longrightarrow> ?thesis" by (simp add: same_but_secrets_def header_value_def)
qed

lemma AnalyseReq_headers [simp]: "AnalyseReq uni (req\<lparr>req_Headers := h\<rparr>) ctx = AnalyseReq uni req ctx"
proof -
  have "whole_input (req\<lparr>req_Headers := h\<rparr>) = whole_input req" by (simp add: whole_input_def)
  moreover have "detection ctx (req\<lparr>req_Headers := h\<rparr>) = detection ctx req"
    by (intro ext) (simp add: detection_def)
  ultimately have "map (\<lambda>d. d ctx (req\<lparr>req_Headers := h\<rparr>)) (detectors uni) = map (\<lambda>d. d ctx req) (detectors uni)"
    by (simp add: detectors_def detectSQLi_def detectCmdi_def detectTraversal_def detectXSS_def)
  then show ?thesis by (simp add: AnalyseReq_def detectors_def cong: option.case_cong)
qed

lemma mask_decode_secrets:
  assumes "same_but_secrets uni h h'"
  shows "MaskRequest J uni (DecodeRequestBody D uni (req\<lparr>req_Headers := h\<rparr>)) =
      MaskRequest J uni (DecodeRequestBody D uni (req\<lparr>req_Headers := h'\<rparr>))"
    and "MaskResponse J uni (DecodeResponseBody D uni (resp\<lparr>resp_Headers := h\<rparr>)) =
      MaskResponse J uni (DecodeResponseBody D uni (resp\<lparr>resp_Headers := h'\<rparr>))"
  using assms content_encoding_public [OF assms]
  by (simp_all add: DecodeRequestBody_def DecodeResponseBody_def MaskRequest_def MaskResponse_def split_beta
      flip: maskHeaders_eq_iff)

text \<open>
  C7: messages that differ only in the values of sensitive headers leave the same world: the same queued
  events, the same printed messages, the same detections, decisions and blocks. So no secret of a header
  reaches anything outside the sniffer's memory.
\<close>

theorem header_secrets_stay:
  assumes "same_but_secrets (uni_of L) h h'"
  shows "process_request L now ep tag (req\<lparr>req_Headers := h\<rparr>) w =
      process_request L now ep tag (req\<lparr>req_Headers := h'\<rparr>) w \<and>
    process_response L now ep tag (resp\<lparr>resp_Headers := h\<rparr>) w =
      process_response L now ep tag (resp\<lparr>resp_Headers := h'\<rparr>) w"
  using mask_decode_secrets [OF assms] by (simp add: process_request_def process_response_def)

theorem header_secrets_stay_witness:
  "process_request sample_libs sample_now (endpoints_of (ip6_of sample_libs) (sample_event_of 1 dirRecv [])) None
      (gzip_request\<lparr>req_Headers := [''Cookie'' \<mapsto> ''id=1'', ''Host'' \<mapsto> ''a'']\<rparr>) sample_world =
    process_request sample_libs sample_now (endpoints_of (ip6_of sample_libs) (sample_event_of 1 dirRecv [])) None
      (gzip_request\<lparr>req_Headers := [''Cookie'' \<mapsto> ''id=2'', ''Host'' \<mapsto> ''a'']\<rparr>) sample_world"
proof -
  have "ToLower (uni_of sample_libs) ''Cookie'' = ''cookie''"
    by (simp add: ToLower_def lower_byte_def is_upper_def ascii_def)
  then have "same_but_secrets (uni_of sample_libs) [''Cookie'' \<mapsto> ''id=1'', ''Host'' \<mapsto> ''a'']
      [''Cookie'' \<mapsto> ''id=2'', ''Host'' \<mapsto> ''a'']"
    by (auto simp: same_but_secrets_def sensitiveHeaders_def)
  from header_secrets_stay [OF this] show ?thesis by blast
qed

end
