(* ===== verification/Http3_Table.thy ===== *)
theory Http3_Table
  imports GoText
begin

text \<open>
  The QPACK tables of the HTTP/3 sniffer, \<^verbatim>\<open>internal/http3_sniffer/http3_sniffer.go\<close>: the static
  table, a dynamic table per connection that follows the insertions nginx makes into its own, and the
  loop over the captured insertions. The code never evicts an entry; the refinement below says that it
  need not.
\<close>

section \<open>Tables\<close>

type_synonym headerPair = "bytes \<times> bytes"
type_synonym tables = "u64 \<rightharpoonup> headerPair list"

definition qpackStaticTable :: "headerPair list" where
  "qpackStaticTable = [
    ('':authority'', []), ('':path'', ''/''), (''age'', ''0''), (''content-disposition'', []),
    (''content-length'', ''0''), (''cookie'', []), (''date'', []), (''etag'', []),
    (''if-modified-since'', []), (''if-none-match'', []), (''last-modified'', []), (''link'', []),
    (''location'', []), (''referer'', []), (''set-cookie'', []), ('':method'', ''CONNECT''),
    ('':method'', ''DELETE''), ('':method'', ''GET''), ('':method'', ''HEAD''), ('':method'', ''OPTIONS''),
    ('':method'', ''POST''), ('':method'', ''PUT''), ('':scheme'', ''http''), ('':scheme'', ''https''),
    ('':status'', ''103''), ('':status'', ''200''), ('':status'', ''304''), ('':status'', ''404''),
    ('':status'', ''503''), (''accept'', ''*/*''), (''accept'', ''application/dns-message''),
    (''accept-encoding'', ''gzip, deflate, br''), (''accept-ranges'', ''bytes''),
    (''access-control-allow-headers'', ''cache-control''),
    (''access-control-allow-headers'', ''content-type''), (''access-control-allow-origin'', ''*''),
    (''cache-control'', ''max-age=0''), (''cache-control'', ''max-age=2592000''),
    (''cache-control'', ''max-age=604800''), (''cache-control'', ''no-cache''),
    (''cache-control'', ''no-store''), (''cache-control'', ''public, max-age=31536000''),
    (''content-encoding'', ''br''), (''content-encoding'', ''gzip''),
    (''content-type'', ''application/dns-message''), (''content-type'', ''application/javascript''),
    (''content-type'', ''application/json''), (''content-type'', ''application/x-www-form-urlencoded''),
    (''content-type'', ''image/gif''), (''content-type'', ''image/jpeg''), (''content-type'', ''image/png''),
    (''content-type'', ''text/css''), (''content-type'', ''text/html; charset=utf-8''),
    (''content-type'', ''text/plain''), (''content-type'', ''text/plain;charset=utf-8''),
    (''range'', ''bytes=0-''), (''strict-transport-security'', ''max-age=31536000''),
    (''strict-transport-security'', ''max-age=31536000; includesubdomains''),
    (''strict-transport-security'', ''max-age=31536000; includesubdomains; preload''),
    (''vary'', ''accept-encoding''), (''vary'', ''origin''), (''x-content-type-options'', ''nosniff''),
    (''x-xss-protection'', ''1; mode=block''), ('':status'', ''100''), ('':status'', ''204''),
    ('':status'', ''206''), ('':status'', ''302''), ('':status'', ''400''), ('':status'', ''403''),
    ('':status'', ''421''), ('':status'', ''425''), ('':status'', ''500''), (''accept-language'', []),
    (''access-control-allow-credentials'', ''FALSE''), (''access-control-allow-credentials'', ''TRUE''),
    (''access-control-allow-headers'', ''*''), (''access-control-allow-methods'', ''get''),
    (''access-control-allow-methods'', ''get, post, options''),
    (''access-control-allow-methods'', ''options''), (''access-control-expose-headers'', ''content-length''),
    (''access-control-request-headers'', ''content-type''), (''access-control-request-method'', ''get''),
    (''access-control-request-method'', ''post''), (''alt-svc'', ''clear''), (''authorization'', []),
    (''content-security-policy'', ''script-src '' @ [CHR 0x27] @ ''none'' @ [CHR 0x27] @ ''; object-src '' @ [CHR 0x27] @ ''none'' @ [CHR 0x27] @ ''; base-uri '' @ [CHR 0x27] @ ''none'' @ [CHR 0x27]),
    (''early-data'', ''1''), (''expect-ct'', []), (''forwarded'', []), (''if-range'', []), (''origin'', []),
    (''purpose'', ''prefetch''), (''server'', []), (''timing-allow-origin'', ''*''),
    (''upgrade-insecure-requests'', ''1''), (''user-agent'', []), (''x-forwarded-for'', []),
    (''x-frame-options'', ''deny''), (''x-frame-options'', ''sameorigin'')]"

text \<open>A connection without a table reads as one with the empty table.\<close>

definition table_of :: "tables \<Rightarrow> u64 \<Rightarrow> headerPair list" where
  "table_of T conn = (case T conn of None \<Rightarrow> [] | Some t \<Rightarrow> t)"

definition static_entry :: "int \<Rightarrow> headerPair option" where
  "static_entry index =
     (if index < 0 \<or> int (length qpackStaticTable) \<le> index then None else Some (qpackStaticTable ! nat index))"

definition resolveIndexed :: "tables \<Rightarrow> u64 \<Rightarrow> bool \<Rightarrow> int \<Rightarrow> int \<Rightarrow> headerPair option" where
  "resolveIndexed T conn dynamic index base =
     (if \<not> dynamic then static_entry index
      else
        (let table = table_of T conn;
             abs = wrap64 (base - 1 - index)
         in if abs < 0 \<or> int (length table) \<le> abs then None else Some (table ! nat abs)))"

definition resolveLive :: "tables \<Rightarrow> u64 \<Rightarrow> bool \<Rightarrow> int \<Rightarrow> headerPair option" where
  "resolveLive T conn dynamic index =
     (if \<not> dynamic then static_entry index
      else
        (let table = table_of T conn;
             abs = wrap64 (int (length table) - 1 - index)
         in if abs < 0 \<or> int (length table) \<le> abs then None else Some (table ! nat abs)))"

definition tableInsert :: "u64 \<Rightarrow> bytes \<Rightarrow> bytes \<Rightarrow> tables \<Rightarrow> tables" where
  "tableInsert conn name val T = T(conn \<mapsto> table_of T conn @ [(name, val)])"

section \<open>Captured insertions\<close>

definition tableOpInsert :: u32 where "tableOpInsert = 0"
definition tableOpRefInsert :: u32 where "tableOpRefInsert = 1"
definition tableOpDuplicate :: u32 where "tableOpDuplicate = 2"

record tableEvent =
  te_PidTgid :: u64
  te_TsNs :: u64
  te_Conn :: u64
  te_Op :: u32
  te_Dynamic :: u32
  te_Index :: u64
  te_NameLen :: u32
  te_ValueLen :: u32
  te_Name :: bytes
  te_Value :: bytes
  te_IpLen :: u32
  te_Ip :: bytes

text \<open>\<^verbatim>\<open>string(b[:n])\<close>; \<open>None\<close> is the panic.\<close>

definition front :: "bytes \<Rightarrow> u32 \<Rightarrow> bytes option" where
  "front b n = go_slice b 0 (uint n)"

text \<open>One turn of tableEventLoop, which alone writes the tables.\<close>

definition handle_table :: "tableEvent \<Rightarrow> tables \<Rightarrow> tables option" where
  "handle_table tev T =
     Option.bind (front (te_Value tev) (te_ValueLen tev)) (\<lambda>val.
       if te_Op tev = tableOpInsert then
         Option.bind (front (te_Name tev) (te_NameLen tev)) (\<lambda>name. Some (tableInsert (te_Conn tev) name val T))
       else if te_Op tev = tableOpRefInsert then
         (case resolveLive T (te_Conn tev) (te_Dynamic tev \<noteq> 0) (sint (te_Index tev)) of
            None \<Rightarrow> Some T
          | Some (name, v) \<Rightarrow> Some (tableInsert (te_Conn tev) name val T))
       else if te_Op tev = tableOpDuplicate then
         (case resolveLive T (te_Conn tev) True (sint (te_Index tev)) of
            None \<Rightarrow> Some T
          | Some (name, v) \<Rightarrow> Some (tableInsert (te_Conn tev) name v T))
       else Some T)"

fun handle_tables :: "tableEvent list \<Rightarrow> tables \<Rightarrow> tables option" where
  "handle_tables [] T = Some T"
| "handle_tables (tev # tevs) T = Option.bind (handle_table tev T) (handle_tables tevs)"

lemma front_Some: "unat n \<le> length b \<Longrightarrow> front b n = Some (take (unat n) b)"
proof -
  have "go_slice b 0 (int k) = Some (take k b)" if "k \<le> length b" for k
    using that by (simp add: go_slice_def)
  from this [of "unat n"] show "unat n \<le> length b \<Longrightarrow> ?thesis" by (simp add: front_def)
qed

lemma table_of_insert: "table_of (tableInsert conn name val T) k =
    (if k = conn then table_of T conn @ [(name, val)] else table_of T k)"
  by (simp add: table_of_def tableInsert_def)

lemma handle_table_other: "handle_table tev T = Some T' \<Longrightarrow> k \<noteq> te_Conn tev \<Longrightarrow> T' k = T k"
  by (auto simp: handle_table_def tableInsert_def bind_eq_Some_conv split: if_splits option.splits)

text \<open>A captured event whose lengths fit its buffers; the probes cut them to size.\<close>

definition te_ok :: "tableEvent \<Rightarrow> bool" where
  "te_ok tev \<longleftrightarrow> unat (te_NameLen tev) \<le> length (te_Name tev) \<and> unat (te_ValueLen tev) \<le> length (te_Value tev)"

lemma handle_table_total: "te_ok tev \<Longrightarrow> handle_table tev T \<noteq> None"
  by (auto simp: handle_table_def te_ok_def front_Some split: option.split)

section \<open>The tables of RFC 9204\<close>

text \<open>
  A dynamic table as the standard has it: the entries that are live, oldest first, and the number of
  those evicted before them. An insertion may evict any number of the oldest entries first, as the
  capacity demands; a name reference or duplicate gives an entry relative to the newest.
\<close>

record qtable =
  live :: "headerPair list"
  dropped :: nat

datatype qpack_instr = Insert_Literal bytes bytes | Insert_NameRef bool nat bytes | Duplicate nat

definition relative :: "qtable \<Rightarrow> nat \<Rightarrow> headerPair option" where
  "relative q i = (if i < length (live q) then Some (live q ! (length (live q) - 1 - i)) else None)"

definition q_entry :: "qpack_instr \<Rightarrow> qtable \<Rightarrow> headerPair option" where
  "q_entry ins q =
     (case ins of
        Insert_Literal n v \<Rightarrow> Some (n, v)
      | Insert_NameRef dyn i v \<Rightarrow>
          map_option (\<lambda>p. (fst p, v)) (if dyn then relative q i else static_entry (int i))
      | Duplicate i \<Rightarrow> relative q i)"

definition q_step :: "qpack_instr \<times> nat \<Rightarrow> qtable \<Rightarrow> qtable option" where
  "q_step = (\<lambda>(ins, evicted) q.
     if evicted \<le> length (live q)
     then map_option (\<lambda>p. \<lparr>live = drop evicted (live q) @ [p], dropped = dropped q + evicted\<rparr>) (q_entry ins q)
     else None)"

fun q_run :: "(qpack_instr \<times> nat) list \<Rightarrow> qtable \<Rightarrow> qtable option" where
  "q_run [] q = Some q"
| "q_run (i # is) q = Option.bind (q_step i q) (q_run is)"

text \<open>An indexed field line: relative to a base, counted in all insertions there ever were.\<close>

definition q_field :: "qtable \<Rightarrow> nat \<Rightarrow> nat \<Rightarrow> headerPair option" where
  "q_field q base i =
     (if i < base \<and> dropped q \<le> base - 1 - i \<and> base - 1 - i < dropped q + length (live q)
      then Some (live q ! (base - 1 - i - dropped q)) else None)"

text \<open>The event the probe sends for an instruction.\<close>

fun describes :: "tableEvent \<Rightarrow> qpack_instr \<Rightarrow> bool" where
  "describes tev (Insert_Literal n v) \<longleftrightarrow> te_Op tev = tableOpInsert \<and>
     take (unat (te_NameLen tev)) (te_Name tev) = n \<and> take (unat (te_ValueLen tev)) (te_Value tev) = v"
| "describes tev (Insert_NameRef dyn i v) \<longleftrightarrow> te_Op tev = tableOpRefInsert \<and> (te_Dynamic tev \<noteq> 0) = dyn \<and>
     sint (te_Index tev) = int i \<and> take (unat (te_ValueLen tev)) (te_Value tev) = v"
| "describes tev (Duplicate i) \<longleftrightarrow> te_Op tev = tableOpDuplicate \<and> sint (te_Index tev) = int i"

section \<open>Refinement\<close>

definition represents :: "headerPair list \<Rightarrow> qtable \<Rightarrow> bool" where
  "represents t q \<longleftrightarrow> length t = dropped q + length (live q) \<and> drop (dropped q) t = live q"

lemma represents_nth: "represents t q \<Longrightarrow> i < length (live q) \<Longrightarrow> t ! (dropped q + i) = live q ! i"
  unfolding represents_def by (metis le_add1 nth_drop)

lemma represents_relative:
  assumes "represents (table_of T conn) q" "relative q i = Some p" "length (table_of T conn) < 2 ^ 62"
  shows "resolveLive T conn True (int i) = Some p"
proof -
  let ?t = "table_of T conn"
  from assms(2) have i: "i < length (live q)" "p = live q ! (length (live q) - 1 - i)"
    by (auto simp: relative_def split: if_splits)
  then obtain k where k: "length (live q) = Suc (k + i)" "p = live q ! k"
    by (intro that [of "length (live q) - 1 - i"]) auto
  have len: "length ?t = Suc (dropped q + k + i)" using assms(1) k(1) by (simp add: represents_def)
  have "wrap64 (int (length ?t) - 1 - int i) = int (dropped q + k)"
    using assms(3) by (subst wrap64_id) (auto simp: int64_def len)
  then show ?thesis
    using represents_nth [OF assms(1), of k] k by (simp add: resolveLive_def Let_def len nat_int_add)
qed

lemma resolveLive_static: "resolveLive T conn False index = static_entry index"
  by (simp add: resolveLive_def)

lemma represents_insert:
  assumes "represents t q" "n \<le> length (live q)"
  shows "represents (t @ [p]) \<lparr>live = drop n (live q) @ [p], dropped = dropped q + n\<rparr>"
  using assms by (auto simp: represents_def) (metis add.commute drop_drop)

lemma handle_table_refines:
  assumes rep: "represents (table_of T (te_Conn tev)) q" and step: "q_step (ins, n) q = Some q'"
    and tev: "describes tev ins" "te_ok tev" and len: "length (table_of T (te_Conn tev)) < 2 ^ 62"
  shows "\<exists>T'. handle_table tev T = Some T' \<and> represents (table_of T' (te_Conn tev)) q' \<and>
    length (table_of T' (te_Conn tev)) = Suc (length (table_of T (te_Conn tev)))"
proof -
  from step obtain p where p: "q_entry ins q = Some p" "n \<le> length (live q)"
    "q' = \<lparr>live = drop n (live q) @ [p], dropped = dropped q + n\<rparr>"
    by (auto simp: q_step_def split: if_splits)
  have "handle_table tev T = Some (tableInsert (te_Conn tev) (fst p) (snd p) T)"
    using p(1) tev represents_relative [OF rep _ len]
    by (cases ins) (auto simp: q_entry_def handle_table_def te_ok_def front_Some tableOpInsert_def
        tableOpRefInsert_def tableOpDuplicate_def resolveLive_static split_beta split: if_splits)
  with represents_insert [OF rep p(2), of p] p(3) show ?thesis by (simp add: table_of_insert)
qed

lemma handle_tables_refines:
  assumes "represents (table_of T conn) q"
    and "q_run ins q = Some q'" "list_all te_ok tevs"
    and "list_all2 (\<lambda>tev (i, n). describes tev i) (filter (\<lambda>tev. te_Conn tev = conn) tevs) ins"
    and "length (table_of T conn) + length ins \<le> 2 ^ 62"
  shows "\<exists>T'. handle_tables tevs T = Some T' \<and> represents (table_of T' conn) q' \<and>
    length (table_of T' conn) = length (table_of T conn) + length ins"
  using assms
proof (induction tevs arbitrary: T q ins)
  case (Cons tev tevs)
  show ?case
  proof (cases "te_Conn tev = conn")
    case True
    with Cons.prems(4) obtain i n ins' where ins: "ins = (i, n) # ins'" "describes tev i"
      "list_all2 (\<lambda>tev (i, n). describes tev i) (filter (\<lambda>tev. te_Conn tev = conn) tevs) ins'"
      by (auto simp: list_all2_Cons1)
    with Cons.prems(2) obtain q1 where q1: "q_step (i, n) q = Some q1" "q_run ins' q1 = Some q'"
      by (auto simp: bind_eq_Some_conv)
    have "length (table_of T (te_Conn tev)) < 2 ^ 62" using Cons.prems(5) True ins(1) by simp
    with Cons.prems(1,3) True obtain T1 where T1: "handle_table tev T = Some T1"
      "represents (table_of T1 conn) q1" "length (table_of T1 conn) = Suc (length (table_of T conn))"
      using handle_table_refines [OF _ q1(1) ins(2)] by auto
    with Cons.IH [OF T1(2) q1(2) _ ins(3)] Cons.prems(3,5) ins(1) show ?thesis by simp
  next
    case False
    from Cons.prems(3) obtain T1 where T1: "handle_table tev T = Some T1"
      using handle_table_total [of tev T] by auto
    with handle_table_other [OF T1, of conn] False have "table_of T1 conn = table_of T conn"
      by (simp add: table_of_def)
    with Cons.IH [of T1 q ins] Cons.prems False T1 show ?thesis by simp
  qed
qed simp

text \<open>
  C16: the sniffer's dynamic tables refine those of RFC 9204, without evicting: after the events for
  any valid instructions on a connection, mixed in any way with those of other connections, every
  field line that refers to a live entry, relative to any base, resolves to that entry.
\<close>

theorem dynamic_table_refines_qpack:
  assumes "q_run ins \<lparr>live = [], dropped = 0\<rparr> = Some q" "length ins < 2 ^ 62"
    and "list_all te_ok tevs"
    and "list_all2 (\<lambda>tev (i, n). describes tev i) (filter (\<lambda>tev. te_Conn tev = conn) tevs) ins"
    and "q_field q base i = Some p"
  shows "\<exists>T. handle_tables tevs Map.empty = Some T \<and> resolveIndexed T conn True (int i) (int base) = Some p \<and>
    length (table_of T conn) = length ins"
proof -
  have "represents (table_of Map.empty conn) \<lparr>live = [], dropped = 0\<rparr>"
    by (simp add: represents_def table_of_def)
  from handle_tables_refines [OF this assms(1,3,4)] assms(2) obtain T where
    T: "handle_tables tevs Map.empty = Some T" "represents (table_of T conn) q" "length (table_of T conn) = length ins"
    by (auto simp: table_of_def)
  from assms(5) have i: "i < base" "dropped q \<le> base - 1 - i" "base - 1 - i < dropped q + length (live q)"
    "p = live q ! (base - 1 - i - dropped q)"
    by (auto simp: q_field_def split: if_splits)
  then obtain k where k: "base = Suc (dropped q + k + i)" "k < length (live q)" "p = live q ! k"
    by (intro that [of "base - 1 - i - dropped q"]) auto
  have len: "length (table_of T conn) = dropped q + length (live q)" using T(2) by (simp add: represents_def)
  have "wrap64 (int base - 1 - int i) = int (dropped q + k)"
    using assms(2) T(3) k(2) by (subst wrap64_id) (auto simp: int64_def k(1) len)
  then have "resolveIndexed T conn True (int i) (int base) = Some p"
    using represents_nth [OF T(2) k(2)] k len by (simp add: resolveIndexed_def Let_def nat_int_add)
  with T show ?thesis by blast
qed

text \<open>Three insertions, the last of which evicts the first, and those of another connection between.\<close>

definition sample_insert :: "u64 \<Rightarrow> u32 \<Rightarrow> u64 \<Rightarrow> bytes \<Rightarrow> bytes \<Rightarrow> tableEvent" where
  "sample_insert conn op index name val =
     \<lparr>te_PidTgid = 0, te_TsNs = 0, te_Conn = conn, te_Op = op, te_Dynamic = 1, te_Index = index,
      te_NameLen = of_nat (length name), te_ValueLen = of_nat (length val), te_Name = name, te_Value = val,
      te_IpLen = 0, te_Ip = []\<rparr>"

theorem dynamic_table_refines_qpack_witness:
  "\<exists>T. handle_tables [sample_insert 1 0 0 ''x-a'' ''1'', sample_insert 2 0 0 ''y'' ''2'',
       sample_insert 1 1 0 [] ''3'', sample_insert 1 2 0 [] []] Map.empty = Some T \<and>
     resolveIndexed T 1 True (int 0) (int 3) = Some (''x-a'', ''3'') \<and> length (table_of T 1) = Suc (Suc (Suc 0))"
proof -
  let ?tevs = "[sample_insert 1 0 0 ''x-a'' ''1'', sample_insert 2 0 0 ''y'' ''2'',
       sample_insert 1 1 0 [] ''3'', sample_insert 1 2 0 [] []]"
  let ?ins = "[(Insert_Literal ''x-a'' ''1'', 0), (Insert_NameRef True 0 ''3'', 0), (Duplicate 0, 1)] :: (qpack_instr \<times> nat) list"
  let ?q = "\<lparr>live = [(''x-a'', ''3''), (''x-a'', ''3'')], dropped = 1\<rparr>"
  have q: "q_run ?ins \<lparr>live = [], dropped = 0\<rparr> = Some ?q"
    by (simp add: q_step_def q_entry_def relative_def)
  have ok: "list_all te_ok ?tevs" by (simp add: te_ok_def sample_insert_def)
  have desc: "list_all2 (\<lambda>tev (i, n). describes tev i) (filter (\<lambda>tev. te_Conn tev = 1) ?tevs) ?ins"
    by (simp add: sample_insert_def tableOpInsert_def tableOpRefInsert_def tableOpDuplicate_def)
  have field: "q_field ?q 3 0 = Some (''x-a'', ''3'')" by (simp add: q_field_def)
  have "length ?ins < 2 ^ 62" by simp
  from dynamic_table_refines_qpack [OF q this ok desc field] show ?thesis by (simp del: handle_tables.simps)
qed

end
