(* ===== verification/Http3.thy ===== *)
theory Http3
  imports Sniffer Http3_Table Header_Fields
begin

text \<open>
  The HTTP/3 sniffer, \<^verbatim>\<open>internal/http3_sniffer/http3_sniffer.go\<close>: requests and responses are put together
  from header fields captured one by one in nginx. Four goroutines share the package's maps under a
  mutex: the loops over request events, response events and table insertions, and the one that emits
  responses that have been idle. Each critical section is one step, and their interleavings are the
  runs of a step relation.
\<close>

section \<open>Addresses\<close>

fun LastIndexByte :: "bytes \<Rightarrow> byte \<Rightarrow> nat option" where
  "LastIndexByte [] c = None"
| "LastIndexByte (x # s) c =
     (case LastIndexByte s c of Some i \<Rightarrow> Some (Suc i) | None \<Rightarrow> if x = c then Some 0 else None)"

text \<open>net.SplitHostPort; its three kinds of error are one.\<close>

definition SplitHostPort :: "bytes \<Rightarrow> (bytes \<times> bytes) option" where
  "SplitHostPort s =
     (case LastIndexByte s CHR '':'' of
        None \<Rightarrow> None
      | Some i \<Rightarrow>
          if HasPrefix s ''['' then
            (case IndexByte s CHR '']'' of
               None \<Rightarrow> None
             | Some e \<Rightarrow>
                 if e + 1 \<noteq> i then None
                 else if CHR ''['' \<in> set (drop 1 s) \<or> CHR '']'' \<in> set (drop (e + 1) s) then None
                 else Some (take (e - 1) (drop 1 s), drop (i + 1) s))
          else if CHR '':'' \<in> set (take i s) \<or> CHR ''['' \<in> set s \<or> CHR '']'' \<in> set s then None
          else Some (take i s, drop (i + 1) s))"

definition splitHostPort :: "bytes \<Rightarrow> bytes \<times> u16" where
  "splitHostPort s =
     (if s = [] then ([], 0)
      else case SplitHostPort s of
        None \<Rightarrow> (s, 0)
      | Some (host, portStr) \<Rightarrow>
          (case Sscanf_int 10 portStr of None \<Rightarrow> (host, 0) | Some port \<Rightarrow> (host, word_of_int port)))"

definition pidTid :: "u64 \<Rightarrow> u32 \<times> u32" where
  "pidTid pidTgid = (ucast (drop_bit 32 pidTgid), ucast pidTgid)"

section \<open>Messages\<close>

definition h3_addHeader :: "(bytes \<rightharpoonup> bytes) \<Rightarrow> bytes \<Rightarrow> bytes \<Rightarrow> (bytes \<rightharpoonup> bytes)" where
  "h3_addHeader m name val =
     (let sep = (if name = ''cookie'' then ''; '' else '', '')
      in case m name of
           Some old \<Rightarrow> m(name \<mapsto> old @ sep @ val)
         | None \<Rightarrow> m(name \<mapsto> val))"

definition plain_name :: "bytes \<Rightarrow> bool" where
  "plain_name n \<longleftrightarrow> length n = 0 \<or> n ! 0 \<noteq> CHR '':''"

definition h3_request_field :: "headerPair \<Rightarrow> HTTPRequest \<Rightarrow> HTTPRequest" where
  "h3_request_field = (\<lambda>(name, val) req.
     if name = '':method'' then req\<lparr>req_Method := val\<rparr>
     else if name = '':path'' then req\<lparr>req_Path := val\<rparr>
     else if name = '':authority'' then req\<lparr>req_Headers := h3_addHeader (req_Headers req) ''host'' val\<rparr>
     else if name = '':scheme'' then req
     else if plain_name name then req\<lparr>req_Headers := h3_addHeader (req_Headers req) name val\<rparr>
     else req)"

definition h3_buildRequest :: "headerPair list \<Rightarrow> HTTPRequest" where
  "h3_buildRequest fs =
     fold h3_request_field fs
       \<lparr>req_Method = [], req_Path = [], req_Version = ''HTTP/3'', req_Headers = Map.empty, req_Body = []\<rparr>"

definition h3_response_field :: "headerPair \<Rightarrow> HTTPResponse \<Rightarrow> HTTPResponse" where
  "h3_response_field = (\<lambda>(name, val) resp.
     if name = '':status'' then
       resp\<lparr>resp_Status := val,
            resp_Code := (case Sscanf_int 10 val of None \<Rightarrow> resp_Code resp | Some n \<Rightarrow> n)\<rparr>
     else if plain_name name then resp\<lparr>resp_Headers := h3_addHeader (resp_Headers resp) name val\<rparr>
     else resp)"

definition h3_buildResponse :: "headerPair list \<Rightarrow> HTTPResponse" where
  "h3_buildResponse fs =
     fold h3_response_field fs
       \<lparr>resp_Version = ''HTTP/3'', resp_Status = [], resp_Code = 0, resp_Headers = Map.empty, resp_Body = []\<rparr>"

lemma h3_addHeader_eq: "h3_addHeader = addHeader"
  by (simp add: fun_eq_iff h3_addHeader_def addHeader_def)

lemma plain_name_iff: "plain_name n \<longleftrightarrow> \<not> HasPrefix n '':''"
  by (cases n) (auto simp: plain_name_def HasPrefix_def)

interpretation h3_request: header_fields h3_request_field req_Headers "\<lambda>f. request_name (fst f)" snd
  by unfold_locales
    (auto simp: h3_request_field_def request_name_def h3_addHeader_eq plain_name_iff HasPrefix_def split_beta)

interpretation h3_response: header_fields h3_response_field resp_Headers "\<lambda>f. response_name (fst f)" snd
  by unfold_locales
    (auto simp: h3_response_field_def response_name_def h3_addHeader_eq plain_name_iff HasPrefix_def split_beta)

section \<open>State\<close>

record pendingRequest =
  pq_fields :: "headerPair list"
  pq_ip :: bytes
  pq_pidTgid :: u64

record pendingResponse =
  pr_fields :: "headerPair list"
  pr_ip :: bytes
  pr_pidTgid :: u64
  pr_base :: int
  pr_lastUpdate :: int

record reqHeader =
  rq_PidTgid :: u64
  rq_TsNs :: u64
  rq_ConnID :: u64
  rq_ReqID :: u64
  rq_Ret :: u32
  rq_NameLen :: u32
  rq_ValueLen :: u32
  rq_Name :: bytes
  rq_Value :: bytes
  rq_IpLen :: u32
  rq_Ip :: bytes

record resHeader =
  rs_PidTgid :: u64
  rs_TsNs :: u64
  rs_Conn :: u64
  rs_Hook :: u32
  rs_Dynamic :: u32
  rs_Index :: u64
  rs_NameLen :: u32
  rs_ValueLen :: u32
  rs_Name :: bytes
  rs_Value :: bytes
  rs_IpLen :: u32
  rs_Ip :: bytes

definition ngxOK :: int where "ngxOK = 0"
definition ngxDone :: int where "ngxDone = -4"
definition hookFieldLri :: u32 where "hookFieldLri = 1"

text \<open>50 milliseconds in nanoseconds.\<close>

definition flushIdleAfter :: int where "flushIdleAfter = 50000000"

text \<open>
  Where the response loop is in its turn: between events; it has read the base; it has resolved the
  name. The other loops' turns are one critical section each, or touch what no other loop writes.
\<close>

datatype resp_turn =
  Waiting
| Based resHeader bytes bytes int
| Resolved resHeader bytes bytes bytes

record h3 =
  dynamicTables :: tables
  pendingResp :: "u64 \<rightharpoonup> pendingResponse"
  pendingReq :: "u64 \<rightharpoonup> pendingRequest"
  resp_turn_of :: resp_turn
  h3_outside :: world

definition new_h3 :: "world \<Rightarrow> h3" where
  "new_h3 w = \<lparr>dynamicTables = Map.empty, pendingResp = Map.empty, pendingReq = Map.empty,
     resp_turn_of = Waiting, h3_outside = w\<rparr>"

section \<open>Pending messages\<close>

definition currentBase :: "u64 \<Rightarrow> h3 \<Rightarrow> int" where
  "currentBase conn s =
     (case pendingResp s conn of
        Some pr \<Rightarrow> pr_base pr
      | None \<Rightarrow> int (length (table_of (dynamicTables s) conn)))"

definition appendRespField :: "int \<Rightarrow> u64 \<Rightarrow> bytes \<Rightarrow> u64 \<Rightarrow> bytes \<Rightarrow> bytes \<Rightarrow> h3 \<Rightarrow> h3" where
  "appendRespField now conn ip pidTgid name val s =
     (let pr = (case pendingResp s conn of
                  Some pr \<Rightarrow> pr
                | None \<Rightarrow> \<lparr>pr_fields = [], pr_ip = ip, pr_pidTgid = 0,
                    pr_base = int (length (table_of (dynamicTables s) conn)), pr_lastUpdate = 0\<rparr>);
          pr = pr\<lparr>pr_pidTgid := pidTgid, pr_fields := pr_fields pr @ [(name, val)], pr_lastUpdate := now\<rparr>
      in s\<lparr>pendingResp := (pendingResp s)(conn \<mapsto> pr)\<rparr>)"

definition appendReqField :: "u64 \<Rightarrow> bytes \<Rightarrow> u64 \<Rightarrow> bytes \<Rightarrow> bytes \<Rightarrow> h3 \<Rightarrow> h3" where
  "appendReqField conn ip pidTgid name val s =
     (let pr = (case pendingReq s conn of
                  Some pr \<Rightarrow> pr
                | None \<Rightarrow> \<lparr>pq_fields = [], pq_ip = ip, pq_pidTgid = 0\<rparr>);
          pr = pr\<lparr>pq_pidTgid := pidTgid, pq_fields := pq_fields pr @ [(name, val)]\<rparr>
      in s\<lparr>pendingReq := (pendingReq s)(conn \<mapsto> pr)\<rparr>)"

definition takeReqFields :: "u64 \<Rightarrow> h3 \<Rightarrow> pendingRequest option \<times> h3" where
  "takeReqFields conn s = (pendingReq s conn, s\<lparr>pendingReq := (pendingReq s)(conn := None)\<rparr>)"

section \<open>Emission\<close>

text \<open>\<open>srv\<close> is the server's address and port, set once when the program starts.\<close>

definition h3_endpoints :: "bytes \<times> u16 \<Rightarrow> u64 \<Rightarrow> bytes \<Rightarrow> endpoints" where
  "h3_endpoints srv pidTgid ip =
     (let (pid, tid) = pidTid pidTgid; (host, port) = splitHostPort ip
      in \<lparr>ep_pid = pid, ep_tid = tid, clientIP = host, clientPort = port, serverIP = fst srv, serverPort = snd srv\<rparr>)"

definition request_out :: "'d libs \<Rightarrow> clock \<Rightarrow> bytes \<times> u16 \<Rightarrow> pendingRequest \<Rightarrow> world \<Rightarrow> world" where
  "request_out L now srv pr w =
     (let req = MaskRequest (json_of L) (uni_of L) (h3_buildRequest (pq_fields pr));
          ep = h3_endpoints srv (pq_pidTgid pr) (pq_ip pr);
          ctx = \<lparr>ctx_Timestamp = wall now, ctx_ClientIP = clientIP ep\<rparr>;
          detections = AnalyseReq (uni_of L) req ctx;
          w = w\<lparr>w_logger := fold LogDetection detections (w_logger w)\<rparr>;
          (action, cls) = Decide (clientIP ep) detections (w_clients w);
          w = w\<lparr>w_clients := cls\<rparr>;
          w = (if action = Block
               then w\<lparr>w_blocks := w_blocks w @ [AddBlocked (ip6_of L) (monotonic now) (clientIP ep) block_duration BLOCK_L7_DETECT]\<rparr>
               else w)
      in w\<lparr>w_logger := LogRequest req ep (wall now) (w_logger w)\<rparr>)"

definition emitRequest :: "'d libs \<Rightarrow> clock \<Rightarrow> bytes \<times> u16 \<Rightarrow> u64 \<Rightarrow> h3 \<Rightarrow> h3" where
  "emitRequest L now srv conn s =
     (case takeReqFields conn s of
        (None, s) \<Rightarrow> s
      | (Some pr, s) \<Rightarrow>
          if pq_fields pr = [] then s else s\<lparr>h3_outside := request_out L now srv pr (h3_outside s)\<rparr>)"

definition emitResponse :: "'d libs \<Rightarrow> clock \<Rightarrow> bytes \<times> u16 \<Rightarrow> pendingResponse \<Rightarrow> world \<Rightarrow> world" where
  "emitResponse L now srv pr w =
     (if pr_fields pr = [] then w
      else
        (let resp = MaskResponse (json_of L) (uni_of L) (h3_buildResponse (pr_fields pr));
             ep = h3_endpoints srv (pr_pidTgid pr) (pr_ip pr)
         in w\<lparr>w_logger := LogResponse resp ep (wall now) (w_logger w)\<rparr>))"

text \<open>
  A tick of flushIdleResponses. \<open>order\<close> is the order in which Go's map iteration visits the
  connections, which the language leaves open, with the clock's reading when each is emitted.
\<close>

definition idle_responses :: "int \<Rightarrow> (u64 \<times> clock) list \<Rightarrow> h3 \<Rightarrow> (u64 \<times> clock \<times> pendingResponse) list" where
  "idle_responses now order s =
     List.map_filter (\<lambda>(conn, t).
       case pendingResp s conn of
         Some pr \<Rightarrow> if flushIdleAfter \<le> now - pr_lastUpdate pr then Some (conn, t, pr) else None
       | None \<Rightarrow> None) order"

definition flush_tick :: "'d libs \<Rightarrow> bytes \<times> u16 \<Rightarrow> int \<Rightarrow> (u64 \<times> clock) list \<Rightarrow> h3 \<Rightarrow> h3" where
  "flush_tick L srv now order s =
     (let toEmit = idle_responses now order s
      in s\<lparr>pendingResp := fold (\<lambda>(conn, _) m. m(conn := None)) toEmit (pendingResp s),
           h3_outside := fold (\<lambda>(_, t, pr). emitResponse L t srv pr) toEmit (h3_outside s)\<rparr>)"

section \<open>The event loops\<close>

text \<open>\<open>None\<close> is a panic.\<close>

definition handle_req :: "'d libs \<Rightarrow> clock \<Rightarrow> bytes \<times> u16 \<Rightarrow> reqHeader \<Rightarrow> h3 \<Rightarrow> h3 option" where
  "handle_req L now srv ev s =
     Option.bind (front (rq_Ip ev) (rq_IpLen ev)) (\<lambda>ip.
       if sint (rq_Ret ev) = ngxDone then
         map_option (emitRequest L now srv (rq_ConnID ev))
           (if 0 < rq_NameLen ev \<or> 0 < rq_ValueLen ev then
              Option.bind (front (rq_Name ev) (rq_NameLen ev)) (\<lambda>name.
              Option.bind (front (rq_Value ev) (rq_ValueLen ev)) (\<lambda>val.
                Some (appendReqField (rq_ConnID ev) ip (rq_PidTgid ev) name val s)))
            else Some s)
       else if sint (rq_Ret ev) = ngxOK then
         Option.bind (front (rq_Name ev) (rq_NameLen ev)) (\<lambda>name.
         Option.bind (front (rq_Value ev) (rq_ValueLen ev)) (\<lambda>val.
           Some (appendReqField (rq_ConnID ev) ip (rq_PidTgid ev) name val s)))
       else Some s)"

text \<open>A turn of the response loop, in its three critical sections.\<close>

definition resp_base :: "resHeader \<Rightarrow> h3 \<Rightarrow> h3 option" where
  "resp_base rv s =
     Option.bind (front (rs_Ip rv) (rs_IpLen rv)) (\<lambda>ip.
     Option.bind (front (rs_Value rv) (rs_ValueLen rv)) (\<lambda>val.
       if rs_Hook rv = hookFieldLri
       then Some (s\<lparr>resp_turn_of := Based rv ip val (currentBase (rs_Conn rv) s)\<rparr>)
       else Some s))"

definition unresolved :: bytes where "unresolved = ''<unresolved lri index>''"

definition resp_resolve :: "h3 \<Rightarrow> h3" where
  "resp_resolve s =
     (case resp_turn_of s of
        Based rv ip val base \<Rightarrow>
          s\<lparr>resp_turn_of := Resolved rv ip val
             (case resolveIndexed (dynamicTables s) (rs_Conn rv) (rs_Dynamic rv \<noteq> 0) (sint (rs_Index rv)) base of
                Some (name, v) \<Rightarrow> name
              | None \<Rightarrow> unresolved)\<rparr>
      | _ \<Rightarrow> s)"

definition resp_append :: "int \<Rightarrow> h3 \<Rightarrow> h3" where
  "resp_append now s =
     (case resp_turn_of s of
        Resolved rv ip val name \<Rightarrow>
          appendRespField now (rs_Conn rv) ip (rs_PidTgid rv) name val (s\<lparr>resp_turn_of := Waiting\<rparr>)
      | _ \<Rightarrow> s)"

section \<open>Steps\<close>

datatype h3_label =
  TableEv tableEvent
| RespEv resHeader
| RespResolve
| RespAppend int
| ReqEv clock reqHeader
| Tick int "(u64 \<times> clock) list"

definition visits :: "(u64 \<times> clock) list \<Rightarrow> (u64 \<rightharpoonup> pendingResponse) \<Rightarrow> bool" where
  "visits order m \<longleftrightarrow> distinct (map fst order) \<and> set (map fst order) = dom m"

inductive h3_step :: "'d libs \<Rightarrow> bytes \<times> u16 \<Rightarrow> h3_label \<Rightarrow> h3 \<Rightarrow> h3 \<Rightarrow> bool" for L srv where
  table_step: "handle_table tev (dynamicTables s) = Some T \<Longrightarrow>
    h3_step L srv (TableEv tev) s (s\<lparr>dynamicTables := T\<rparr>)"
| resp_step: "resp_turn_of s = Waiting \<Longrightarrow> resp_base rv s = Some s' \<Longrightarrow> h3_step L srv (RespEv rv) s s'"
| resolve_step: "resp_turn_of s = Based rv ip val base \<Longrightarrow> h3_step L srv RespResolve s (resp_resolve s)"
| append_step: "resp_turn_of s = Resolved rv ip val name \<Longrightarrow> h3_step L srv (RespAppend now) s (resp_append now s)"
| req_step: "handle_req L now srv ev s = Some s' \<Longrightarrow> h3_step L srv (ReqEv now ev) s s'"
| tick_step: "visits order (pendingResp s) \<Longrightarrow> h3_step L srv (Tick now order) s (flush_tick L srv now order s)"

inductive_cases h3_step_cases: "h3_step L srv l s s'"
inductive_simps table_step_iff: "h3_step L srv (TableEv tev) s s'"
inductive_simps resp_step_iff: "h3_step L srv (RespEv rv) s s'"
inductive_simps resolve_step_iff: "h3_step L srv RespResolve s s'"
inductive_simps append_step_iff: "h3_step L srv (RespAppend now) s s'"
inductive_simps req_step_iff: "h3_step L srv (ReqEv now ev) s s'"
inductive_simps tick_step_iff: "h3_step L srv (Tick now order) s s'"

lemmas h3_step_iffs = table_step_iff resp_step_iff resolve_step_iff append_step_iff req_step_iff tick_step_iff

inductive h3_run :: "'d libs \<Rightarrow> bytes \<times> u16 \<Rightarrow> h3_label list \<Rightarrow> h3 \<Rightarrow> h3 \<Rightarrow> bool" for L srv where
  run_nil: "h3_run L srv [] s s"
| run_cons: "h3_step L srv l s s1 \<Longrightarrow> h3_run L srv ls s1 s' \<Longrightarrow> h3_run L srv (l # ls) s s'"

inductive_simps h3_run_Nil: "h3_run L srv [] s s'"
inductive_simps h3_run_Cons: "h3_run L srv (l # ls) s s'"

end
