(* ===== verification/Http3_Props.thy ===== *)
theory Http3_Props
  imports Http3 Sniffer_Effects
begin

text \<open>
  Properties of the HTTP/3 sniffer over every interleaving of its goroutines: a request is put together
  from its own connection's fields, whatever happens in between; an idle response is emitted by the
  next tick; and the one place where the interleaving changes what is logged.
\<close>

section \<open>Captured header fields\<close>

definition rq_ok :: "reqHeader \<Rightarrow> bool" where
  "rq_ok ev \<longleftrightarrow> unat (rq_NameLen ev) \<le> length (rq_Name ev) \<and> unat (rq_ValueLen ev) \<le> length (rq_Value ev) \<and>
     unat (rq_IpLen ev) \<le> length (rq_Ip ev)"

definition rs_ok :: "resHeader \<Rightarrow> bool" where
  "rs_ok rv \<longleftrightarrow> unat (rs_ValueLen rv) \<le> length (rs_Value rv) \<and> unat (rs_IpLen rv) \<le> length (rs_Ip rv)"

definition rq_field :: "reqHeader \<Rightarrow> headerPair" where
  "rq_field ev = (take (unat (rq_NameLen ev)) (rq_Name ev), take (unat (rq_ValueLen ev)) (rq_Value ev))"

definition rq_addr :: "reqHeader \<Rightarrow> bytes" where
  "rq_addr ev = take (unat (rq_IpLen ev)) (rq_Ip ev)"

lemma handle_req_total: "rq_ok ev \<Longrightarrow> handle_req L now srv ev s \<noteq> None"
  by (simp add: handle_req_def rq_ok_def front_Some)

lemma resp_base_total: "rs_ok rv \<Longrightarrow> resp_base rv s \<noteq> None"
  by (simp add: resp_base_def rs_ok_def front_Some)

section \<open>Requests\<close>

definition add_field :: "reqHeader \<Rightarrow> pendingRequest option \<Rightarrow> pendingRequest option" where
  "add_field ev p =
     Some (case p of
       None \<Rightarrow> \<lparr>pq_fields = [rq_field ev], pq_ip = rq_addr ev, pq_pidTgid = rq_PidTgid ev\<rparr>
     | Some pr \<Rightarrow> pr\<lparr>pq_pidTgid := rq_PidTgid ev, pq_fields := pq_fields pr @ [rq_field ev]\<rparr>)"

lemma appendReqField_field:
  "pendingReq (appendReqField k (rq_addr ev) (rq_PidTgid ev) (fst (rq_field ev)) (snd (rq_field ev)) s) =
     (pendingReq s)(k := add_field ev (pendingReq s k))"
  by (auto simp: appendReqField_def add_field_def Let_def rq_field_def split: option.split)

lemma handle_req_ok_event:
  assumes "rq_ok ev" "sint (rq_Ret ev) = ngxOK"
  shows "handle_req L now srv ev s =
    Some (appendReqField (rq_ConnID ev) (rq_addr ev) (rq_PidTgid ev) (fst (rq_field ev)) (snd (rq_field ev)) s)"
  using assms by (simp add: handle_req_def front_Some rq_ok_def rq_field_def rq_addr_def ngxOK_def ngxDone_def)

lemma handle_req_done_event:
  assumes "rq_ok ev" "sint (rq_Ret ev) = ngxDone"
  shows "handle_req L now srv ev s = Some (emitRequest L now srv (rq_ConnID ev)
    (if 0 < rq_NameLen ev \<or> 0 < rq_ValueLen ev
     then appendReqField (rq_ConnID ev) (rq_addr ev) (rq_PidTgid ev) (fst (rq_field ev)) (snd (rq_field ev)) s else s))"
  using assms by (simp add: handle_req_def front_Some rq_ok_def rq_field_def rq_addr_def)

lemma emitRequest_pending: "pendingReq (emitRequest L now srv k s) = (pendingReq s)(k := None)"
  by (auto simp: emitRequest_def takeReqFields_def split: option.split)

lemma handle_req_other:
  assumes "handle_req L now srv ev s = Some s'" "rq_ConnID ev \<noteq> k"
  shows "pendingReq s' k = pendingReq s k"
  using assms
  by (auto simp: handle_req_def bind_eq_Some_conv emitRequest_pending appendReqField_def Let_def split: if_splits)

lemma other_steps_pending:
  assumes "h3_step L srv l s s'" "\<forall>now ev. l = ReqEv now ev \<longrightarrow> rq_ConnID ev \<noteq> k"
  shows "pendingReq s' k = pendingReq s k"
  using assms
  by (cases rule: h3_step.cases)
    (auto simp: resp_base_def resp_resolve_def resp_append_def appendRespField_def flush_tick_def Let_def
      bind_eq_Some_conv handle_req_other split: if_splits)

text \<open>The request events of a connection in a run, in order.\<close>

fun req_events :: "u64 \<Rightarrow> h3_label list \<Rightarrow> reqHeader list" where
  "req_events k [] = []"
| "req_events k (l # ls) =
     (case l of ReqEv now ev \<Rightarrow> if rq_ConnID ev = k then ev # req_events k ls else req_events k ls
      | _ \<Rightarrow> req_events k ls)"

lemma run_collects:
  assumes "h3_run L srv ls s s'"
    and "list_all (\<lambda>ev. rq_ok ev \<and> sint (rq_Ret ev) = ngxOK) (req_events k ls)"
  shows "pendingReq s' k = fold add_field (req_events k ls) (pendingReq s k)"
  using assms
proof (induction rule: h3_run.induct)
  case (run_cons l s s1 ls s')
  show ?case
  proof (cases "\<exists>now ev. l = ReqEv now ev \<and> rq_ConnID ev = k")
    case True
    then obtain now ev where l: "l = ReqEv now ev" "rq_ConnID ev = k" by blast
    with run_cons have "rq_ok ev" "sint (rq_Ret ev) = ngxOK" "handle_req L now srv ev s = Some s1"
      by (auto simp: req_step_iff)
    then have "pendingReq s1 k = add_field ev (pendingReq s k)"
      using l(2) appendReqField_field [of k ev s] by (auto simp: handle_req_ok_event)
    with run_cons l show ?thesis by simp
  next
    case False
    then have "req_events k (l # ls) = req_events k ls" by (auto split: h3_label.splits)
    with run_cons False other_steps_pending [OF run_cons(1), of k] show ?thesis by simp
  qed
qed simp

lemma fold_add_field:
  "fold add_field evs (Some pr) =
     Some (pr\<lparr>pq_pidTgid := last (pq_pidTgid pr # map rq_PidTgid evs), pq_fields := pq_fields pr @ map rq_field evs\<rparr>)"
  by (induction evs arbitrary: pr) (simp_all add: add_field_def)

lemma fold_add_field_None:
  "evs \<noteq> [] \<Longrightarrow> fold add_field evs None =
     Some \<lparr>pq_fields = map rq_field evs, pq_ip = rq_addr (hd evs), pq_pidTgid = rq_PidTgid (last evs)\<rparr>"
  by (cases evs) (simp_all add: add_field_def [of _ None] fold_add_field last_map)

text \<open>
  A request over HTTP/3 is put together from its connection's fields alone, in their order: when
  the captured fields of a connection have come in, mixed in any way with the other goroutines' steps
  and with the events of other connections, the event that ends the request's headers emits exactly
  the request built from them, for the client address of the first of them, and forgets them.
\<close>

lemma request_assembled:
  assumes "h3_run L srv ls s0 s" "pendingReq s0 k = None"
    and "list_all (\<lambda>ev. rq_ok ev \<and> sint (rq_Ret ev) = ngxOK) (req_events k ls)"
    and "rq_ok end_ev" "sint (rq_Ret end_ev) = ngxDone" "rq_ConnID end_ev = k"
    and "evs = req_events k ls @ (if 0 < rq_NameLen end_ev \<or> 0 < rq_ValueLen end_ev then [end_ev] else [])" "evs \<noteq> []"
  shows "\<exists>s'. handle_req L now srv end_ev s = Some s' \<and> pendingReq s' k = None \<and>
    h3_outside s' = request_out L now srv
      \<lparr>pq_fields = map rq_field evs, pq_ip = rq_addr (hd evs), pq_pidTgid = rq_PidTgid (last evs)\<rparr> (h3_outside s)"
proof -
  let ?s1 = "if 0 < rq_NameLen end_ev \<or> 0 < rq_ValueLen end_ev
     then appendReqField k (rq_addr end_ev) (rq_PidTgid end_ev) (fst (rq_field end_ev)) (snd (rq_field end_ev)) s else s"
  have "pendingReq s k = fold add_field (req_events k ls) None"
    using run_collects [OF assms(1,3)] assms(2) by simp
  then have "pendingReq ?s1 k = fold add_field evs None"
    using appendReqField_field [of k end_ev s] by (simp add: assms(7))
  then have pending: "pendingReq ?s1 k =
      Some \<lparr>pq_fields = map rq_field evs, pq_ip = rq_addr (hd evs), pq_pidTgid = rq_PidTgid (last evs)\<rparr>"
    by (simp only: fold_add_field_None [OF assms(8)])
  have "h3_outside ?s1 = h3_outside s" by (simp add: appendReqField_def Let_def)
  with pending assms(8) have "h3_outside (emitRequest L now srv k ?s1) = request_out L now srv
      \<lparr>pq_fields = map rq_field evs, pq_ip = rq_addr (hd evs), pq_pidTgid = rq_PidTgid (last evs)\<rparr> (h3_outside s)"
    by (simp add: emitRequest_def takeReqFields_def)
  moreover have "handle_req L now srv end_ev s = Some (emitRequest L now srv k ?s1)"
    using handle_req_done_event [OF assms(4,5)] by (simp only: assms(6))
  ultimately show ?thesis by (simp add: emitRequest_pending)
qed

text \<open>Events with a name and a value as they are, for the samples.\<close>

definition sample_req :: "u64 \<Rightarrow> u32 \<Rightarrow> bytes \<Rightarrow> bytes \<Rightarrow> reqHeader" where
  "sample_req k ret name val =
     \<lparr>rq_PidTgid = 1, rq_TsNs = 0, rq_ConnID = k, rq_ReqID = 0, rq_Ret = ret, rq_NameLen = of_nat (length name),
      rq_ValueLen = of_nat (length val), rq_Name = name, rq_Value = val, rq_IpLen = 8, rq_Ip = ''10.0.0.1''\<rparr>"

lemma sample_req_facts:
  "rq_ConnID (sample_req k ret name val) = k" "rq_Ret (sample_req k ret name val) = ret"
  "rq_PidTgid (sample_req k ret name val) = 1" "rq_addr (sample_req k ret name val) = ''10.0.0.1''"
  "length name < 2 ^ 32 \<Longrightarrow> length val < 2 ^ 32 \<Longrightarrow> rq_ok (sample_req k ret name val)"
  "length name < 2 ^ 32 \<Longrightarrow> length val < 2 ^ 32 \<Longrightarrow> rq_field (sample_req k ret name val) = (name, val)"
  by (simp_all add: sample_req_def rq_ok_def rq_field_def rq_addr_def unat_of_nat)

section \<open>Responses\<close>

text \<open>In every reachable state a pending response has a field, and a base within its connection's table.\<close>

definition resp_ok :: "h3 \<Rightarrow> bool" where
  "resp_ok s \<longleftrightarrow> (\<forall>k pr. pendingResp s k = Some pr \<longrightarrow>
     pr_fields pr \<noteq> [] \<and> 0 \<le> pr_base pr \<and> pr_base pr \<le> int (length (table_of (dynamicTables s) k)))"

lemma handle_table_grows:
  "handle_table tev T = Some T' \<Longrightarrow> length (table_of T k) \<le> length (table_of T' k)"
  by (auto simp: handle_table_def bind_eq_Some_conv table_of_insert split: if_splits option.splits)

lemma resp_ok_cong:
  "resp_ok s \<Longrightarrow> pendingResp s' = pendingResp s \<Longrightarrow> dynamicTables s' = dynamicTables s \<Longrightarrow> resp_ok s'"
  by (simp add: resp_ok_def)

lemma request_frames_resp:
  "pendingResp (appendReqField k ip p name val s) = pendingResp s"
  "dynamicTables (appendReqField k ip p name val s) = dynamicTables s"
  "pendingResp (emitRequest L now srv k s) = pendingResp s"
  "dynamicTables (emitRequest L now srv k s) = dynamicTables s"
  by (simp_all add: appendReqField_def Let_def emitRequest_def takeReqFields_def split: option.split)

lemma handle_req_resp:
  "handle_req L now srv ev s = Some s' \<Longrightarrow> pendingResp s' = pendingResp s \<and> dynamicTables s' = dynamicTables s"
  by (auto simp: handle_req_def bind_eq_Some_conv request_frames_resp split: if_splits)

lemma clear_all:
  "fold (\<lambda>(k, _) m. m(k := None)) xs m j = (if j \<in> fst ` set xs then None else m j)"
  by (induction xs arbitrary: m) auto

lemma resp_ok_step:
  assumes "h3_step L srv l s s'" "resp_ok s"
  shows "resp_ok s'"
  using assms(1)
proof (cases rule: h3_step.cases)
  case (table_step tev T)
  show ?thesis unfolding resp_ok_def table_step(2)
  proof (intro allI impI)
    fix k pr
    assume "pendingResp (s\<lparr>dynamicTables := T\<rparr>) k = Some pr"
    with assms(2) have "pr_fields pr \<noteq> [] \<and> 0 \<le> pr_base pr \<and> pr_base pr \<le> int (length (table_of (dynamicTables s) k))"
      by (simp add: resp_ok_def)
    with handle_table_grows [OF table_step(3), of k]
    show "pr_fields pr \<noteq> [] \<and> 0 \<le> pr_base pr \<and>
        pr_base pr \<le> int (length (table_of (dynamicTables (s\<lparr>dynamicTables := T\<rparr>)) k))" by simp
  qed
next
  case (resp_step rv)
  then show ?thesis
    using assms(2) by (auto simp: resp_base_def bind_eq_Some_conv intro: resp_ok_cong split: if_splits)
next
  case (resolve_step rv ip val base)
  then show ?thesis using assms(2) by (auto simp: resp_resolve_def intro: resp_ok_cong)
next
  case (append_step rv ip val name now)
  then show ?thesis using assms(2)
    by (auto simp: resp_append_def appendRespField_def Let_def resp_ok_def split: option.splits)
next
  case (req_step now ev)
  then show ?thesis using assms(2) handle_req_resp by (blast intro: resp_ok_cong)
next
  case (tick_step order now)
  then show ?thesis using assms(2)
    by (auto simp: flush_tick_def Let_def resp_ok_def clear_all split: if_splits)
qed

lemma resp_ok_run: "h3_run L srv ls s s' \<Longrightarrow> resp_ok s \<Longrightarrow> resp_ok s'"
  by (induction rule: h3_run.induct) (auto intro: resp_ok_step)

lemma idle_responses_iff:
  "(k, t, pr) \<in> set (idle_responses now order s) \<longleftrightarrow>
     (k, t) \<in> set order \<and> pendingResp s k = Some pr \<and> flushIdleAfter \<le> now - pr_lastUpdate pr"
  by (force simp: idle_responses_def List.map_filter_def split: option.splits if_splits)

lemma idle_responses_keys: "distinct (map fst order) \<Longrightarrow> distinct (map fst (idle_responses now order s))"
  by (induction order)
    (force simp: idle_responses_def List.map_filter_def split: option.splits if_splits)+

definition response_logged :: "'d libs \<Rightarrow> bytes \<times> u16 \<Rightarrow> u64 \<times> clock \<times> pendingResponse \<Rightarrow> HTTPEvent" where
  "response_logged L srv = (\<lambda>(k, t, pr).
     response_event (MaskResponse (json_of L) (uni_of L) (h3_buildResponse (pr_fields pr)))
       (h3_endpoints srv (pr_pidTgid pr) (pr_ip pr)) (wall t))"

lemma emit_all:
  assumes "list_all (\<lambda>(k, t, pr). pr_fields pr \<noteq> []) xs"
  shows "eventQueue (w_logger (fold (\<lambda>(_, t, pr). emitResponse L t srv pr) xs w)) =
    eventQueue (w_logger w) @
      (if Client (w_logger w) then take (queue_capacity - length (eventQueue (w_logger w))) (map (response_logged L srv) xs) else [])"
  using assms
proof (induction xs arbitrary: w)
  case (Cons x xs)
  obtain k t pr where x: "x = (k, t, pr)" by (cases x)
  let ?w = "emitResponse L t srv pr w" and ?q = "eventQueue (w_logger w)"
  have "Client (w_logger ?w) = Client (w_logger w)" "eventQueue (w_logger ?w) =
      (if Client (w_logger w) \<and> length ?q < queue_capacity then ?q @ [response_logged L srv x] else ?q)"
    using Cons.prems by (simp_all add: x emitResponse_def response_logged_def LogResponse_def enqueue_def Let_def)
  with Cons.IH [of ?w] Cons.prems show ?case
    by (cases "queue_capacity - length ?q") (auto simp: x Suc_diff_Suc intro!: arg_cong2 [of _ _ _ _ take])
qed simp

text \<open>
  C24: a response over HTTP/3 is emitted: in any reachable state, the next tick 50 milliseconds or more
  after a pending response's last field forgets it and puts it on the log's queue, once, built from its fields
  and masked, whatever order Go's map iteration takes, if logging is on and the queue has room: of the idle
  responses as many are logged, in the order of the iteration, as fit beside what is queued, and the others
  are lost. Responses that are not idle that long stay pending.
\<close>

theorem idle_responses_emitted:
  assumes "h3_run L srv ls (new_h3 w) s" "visits order (pendingResp s)"
  shows "h3_step L srv (Tick now order) s (flush_tick L srv now order s) \<and>
    eventQueue (w_logger (h3_outside (flush_tick L srv now order s))) =
      eventQueue (w_logger (h3_outside s)) @
        (if Client (w_logger (h3_outside s))
         then take (4096 - length (eventQueue (w_logger (h3_outside s))))
                (map (response_logged L srv) (idle_responses now order s))
         else []) \<and>
    distinct (map fst (idle_responses now order s)) \<and>
    (\<forall>k pr. pendingResp s k = Some pr \<longrightarrow>
       (if 50000000 \<le> now - pr_lastUpdate pr
        then (\<exists>t. (k, t, pr) \<in> set (idle_responses now order s)) \<and>
          pendingResp (flush_tick L srv now order s) k = None
        else (\<forall>t pr. (k, t, pr) \<notin> set (idle_responses now order s)) \<and>
          pendingResp (flush_tick L srv now order s) k = Some pr))"
proof (intro conjI allI impI)
  have ok: "resp_ok s" by (rule resp_ok_run [OF assms(1)]) (simp add: resp_ok_def new_h3_def)
  show "h3_step L srv (Tick now order) s (flush_tick L srv now order s)"
    using assms(2) by (simp add: tick_step_iff)
  have "list_all (\<lambda>(k, t, pr). pr_fields pr \<noteq> []) (idle_responses now order s)"
    using ok by (auto simp: list_all_iff idle_responses_iff resp_ok_def)
  then show "eventQueue (w_logger (h3_outside (flush_tick L srv now order s))) =
      eventQueue (w_logger (h3_outside s)) @
        (if Client (w_logger (h3_outside s))
         then take (4096 - length (eventQueue (w_logger (h3_outside s))))
                (map (response_logged L srv) (idle_responses now order s))
         else [])"
    by (simp add: flush_tick_def Let_def emit_all queue_capacity_def)
  show "distinct (map fst (idle_responses now order s))"
    using assms(2) by (simp add: visits_def idle_responses_keys)
  fix k pr assume pr: "pendingResp s k = Some pr"
  with assms(2) obtain t where t: "(k, t) \<in> set order" by (force simp: visits_def)
  have pending: "pendingResp (flush_tick L srv now order s) k =
      (if \<exists>t pr. (k, t, pr) \<in> set (idle_responses now order s) then None else pendingResp s k)"
    by (auto simp: flush_tick_def Let_def clear_all) force+
  show "if 50000000 \<le> now - pr_lastUpdate pr
      then (\<exists>t. (k, t, pr) \<in> set (idle_responses now order s)) \<and>
        pendingResp (flush_tick L srv now order s) k = None
      else (\<forall>t pr. (k, t, pr) \<notin> set (idle_responses now order s)) \<and>
        pendingResp (flush_tick L srv now order s) k = Some pr"
    unfolding pending using pr t by (auto simp: idle_responses_iff flushIdleAfter_def)
qed

section \<open>A race for the base\<close>

text \<open>
  The base of a response's field lines is read twice: once to resolve the first field's name, and once
  more when the response's first field is stored, which is the base all its later fields are resolved
  against. The two are separate critical sections.
\<close>

definition sample_resp :: "u64 \<Rightarrow> u64 \<Rightarrow> bytes \<Rightarrow> resHeader" where
  "sample_resp k index val =
     \<lparr>rs_PidTgid = 1, rs_TsNs = 0, rs_Conn = k, rs_Hook = hookFieldLri, rs_Dynamic = 1, rs_Index = index,
      rs_NameLen = 0, rs_ValueLen = of_nat (length val), rs_Name = [], rs_Value = val, rs_IpLen = 0, rs_Ip = []\<rparr>"

definition in_turn :: "h3_label list" where
  "in_turn =
     [TableEv (sample_insert 1 0 0 ''x-a'' ''1''),
      RespEv (sample_resp 1 0 ''v''), RespResolve, RespAppend 0,
      TableEv (sample_insert 1 0 0 ''x-b'' ''2''),
      RespEv (sample_resp 1 0 ''w''), RespResolve, RespAppend 1]"

definition in_between :: "h3_label list" where
  "in_between =
     [TableEv (sample_insert 1 0 0 ''x-a'' ''1''),
      RespEv (sample_resp 1 0 ''v''),
      TableEv (sample_insert 1 0 0 ''x-b'' ''2''),
      RespResolve, RespAppend 0,
      RespEv (sample_resp 1 0 ''w''), RespResolve, RespAppend 1]"

lemma sample_insert_handled:
  "length name < 2 ^ 32 \<Longrightarrow> length val < 2 ^ 32 \<Longrightarrow>
     handle_table (sample_insert k 0 0 name val) T = Some (tableInsert k name val T)"
  by (simp add: handle_table_def sample_insert_def front_Some tableOpInsert_def unat_of_nat)

lemma sample_resp_base:
  "length val < 2 ^ 32 \<Longrightarrow>
     resp_base (sample_resp k i val) s = Some (s\<lparr>resp_turn_of := Based (sample_resp k i val) [] val (currentBase k s)\<rparr>)"
  by (simp add: resp_base_def sample_resp_def front_Some unat_of_nat)

lemma sample_resp_fields:
  "rs_Conn (sample_resp k i val) = k" "rs_Dynamic (sample_resp k i val) = 1" "rs_Index (sample_resp k i val) = i"
  "rs_PidTgid (sample_resp k i val) = 1"
  by (simp_all add: sample_resp_def)

lemma table_of_empty: "table_of Map.empty k = []"
  by (simp add: table_of_def)

lemmas race_eval = h3_run_Cons h3_run_Nil table_step_iff resp_step_iff resolve_step_iff append_step_iff
  sample_insert_handled sample_resp_base resp_resolve_def resp_append_def appendRespField_def currentBase_def
  resolveIndexed_def table_of_insert new_h3_def Let_def

text \<open>
  C25: the fields of a response can be logged under wrong names: the same captured events, with the
  insertion of a table entry falling once after and once between the two critical sections of the
  first field's turn, give the second field the name of the entry it refers to, or of the new one.
\<close>

theorem response_base_race:
  "(\<exists>s. h3_run L srv in_turn (new_h3 w) s \<and>
      map_option pr_fields (pendingResp s 1) = Some [(''x-a'', ''v''), (''x-a'', ''w'')]) \<and>
   (\<exists>s. h3_run L srv in_between (new_h3 w) s \<and>
      map_option pr_fields (pendingResp s 1) = Some [(''x-a'', ''v''), (''x-b'', ''w'')])"
proof
  have wrap: "wrap64 0 = 0" "wrap64 1 = 1" by (simp_all add: wrap64_def)
  note conn = sample_resp_fields and empty = table_of_empty
  show "\<exists>s. h3_run L srv in_turn (new_h3 w) s \<and>
      map_option pr_fields (pendingResp s 1) = Some [(''x-a'', ''v''), (''x-a'', ''w'')]"
    by (simp add: in_turn_def race_eval wrap conn empty)
  show "\<exists>s. h3_run L srv in_between (new_h3 w) s \<and>
      map_option pr_fields (pendingResp s 1) = Some [(''x-a'', ''v''), (''x-b'', ''w'')]"
    by (simp add: in_between_def race_eval wrap conn empty)
qed

text \<open>The witness of a tick: the response above, 60 milliseconds later.\<close>

theorem idle_responses_emitted_witness:
  "\<exists>s pr. h3_run sample_libs (''10.0.0.2'', 443) [RespEv (sample_resp 1 0 ''v''), RespResolve, RespAppend 1]
       (new_h3 sample_world) s \<and> pendingResp s 1 = Some pr \<and>
     eventQueue (w_logger (h3_outside (flush_tick sample_libs (''10.0.0.2'', 443) 60000001 [(1, sample_now)] s))) =
       [response_logged sample_libs (''10.0.0.2'', 443) (1, sample_now, pr)] \<and>
     pendingResp (flush_tick sample_libs (''10.0.0.2'', 443) 60000001 [(1, sample_now)] s) 1 = None"
proof -
  let ?srv = "(''10.0.0.2'', 443 :: u16)" and ?evs = "[RespEv (sample_resp 1 0 ''v''), RespResolve, RespAppend 1]"
  have wrap: "wrap64 (- 1) = - 1" by (simp add: wrap64_def)
  have "\<exists>s. h3_run sample_libs ?srv ?evs (new_h3 sample_world) s \<and>
      dom (pendingResp s) = {1} \<and> map_option pr_lastUpdate (pendingResp s 1) = Some 1 \<and> h3_outside s = sample_world"
    by (simp add: race_eval sample_resp_fields table_of_empty wrap)
  then obtain s pr where s: "h3_run sample_libs ?srv ?evs (new_h3 sample_world) s"
    "dom (pendingResp s) = {1}" "pendingResp s 1 = Some pr" "pr_lastUpdate pr = 1" "h3_outside s = sample_world" by auto
  have "visits [(1, sample_now)] (pendingResp s)" by (simp add: s visits_def)
  from idle_responses_emitted [OF s(1) this, of 60000001] s show ?thesis
    by (intro exI [of _ s] exI [of _ pr])
      (auto simp: sample_world_def new_logger_def idle_responses_def List.map_filter_def flushIdleAfter_def)
qed

end
