(* ===== verification/Sniffer_Attack.thy ===== *)
theory Sniffer_Attack
  imports Sniffer_Effects
begin

text \<open>
  The sniffer end to end: the bytes of a request that holds an attack, however it is encoded, arrive as
  one read of a new connection, and the entry for the client's address goes to the blocklist.
\<close>

lemma quad_of_event: "Family ev \<noteq> afInet6 \<Longrightarrow> length (Client_ip ev) = 16 \<Longrightarrow>
    clientIP (endpoints_of T ev) = print_quad (take 4 (Client_ip ev))"
  by (simp add: endpoints_of_def ipStr_def IP_String_def To4_def)

lemma Decide_detected:
  assumes "dets = AnalyseReq uni req ctx" "dets \<noteq> []"
    and "0 \<le> score_of cls ip" "score_of cls ip + 90 < 2 ^ 63"
  shows "fst (Decide ip dets cls) = Block"
  using AnalyseReq_cases [of uni req ctx] assms
  by (auto simp: Decide_def Let_def add_score_def score_of_def wrap64_id int64_def split: option.splits)

lemma process_requests_one: "process_requests L now ep [(tag, req)] w = process_request L now ep tag req w"
  by (simp add: process_requests_def)

text \<open>A whole request that is a connection's first read: it is parsed, processed, and nothing stays buffered.\<close>

lemma first_request:
  assumes "connection_of (SSL_ptr ev) s = new_connection" "Dir ev = dirRecv"
    and "unat (Len ev) \<le> length (Buf ev)" "take (unat (Len ev)) (Buf ev) = data"
    and "DetectProto data = ProtoHTTP1" "ParseRequest (uni_of L) data = Ok (req, [])"
  shows "\<exists>s'. handle_event L now ev s = Some s' \<and>
    outside s' = process_request L now (endpoints_of (ip6_of L) ev) None req (outside s) \<and>
    request_buffer (connection_of (SSL_ptr ev) s') = []"
proof -
  have "Dir ev \<noteq> dirClose" using assms(2) by (simp add: dirRecv_def dirClose_def)
  have "ParseRequest (uni_of L) [] = NotOk" by (simp add: ParseRequest_def request_head_def)
  then have "parse_all (ParseRequest (uni_of L)) data = Some ([req], [], False)"
    by (simp add: parse_all_Ok [where p = "ParseRequest (uni_of L)", OF assms(6)] parse_all_NotOk)
  then have "http1_request L now ep (new_connection\<lparr>request_buffer := data, conn_proto := ProtoHTTP1\<rparr>, w) =
      Some (new_connection\<lparr>request_buffer := [], conn_proto := ProtoHTTP1\<rparr>, process_request L now ep None req w)" for ep w
    by (simp add: http1_request_def process_requests_one)
  then show ?thesis
    using assms(1,2,4,5) handle_event_data [OF \<open>Dir ev \<noteq> dirClose\<close> assms(3), of L now s]
    by (simp add: handle_data_def buffer_data_def new_connection_def connection_of_def update_conv')
qed

text \<open>
  An attack sent over a new connection ends in the blocklist: a request whose path and body are
  written for a text that holds an SQL, command or XSS pattern, in any letters' case and any percent
  escapes, printed with any harmless headers and its length, in one read from an IPv4 client, makes
  the sniffer ask for that client's address, with all 32 bits of it, to be blocked for 500 hours.
\<close>

lemma attack_blocked:
  assumes "connection_of (SSL_ptr ev) s = new_connection" "Dir ev = dirRecv" "Family ev \<noteq> afInet6"
    and "length (Client_ip ev) = 16" "unat (Len ev) \<le> length (Buf ev)"
    and "take (unat (Len ev)) (Buf ev) = print_head m p v hs' @ body"
    and "good_line m p v" "m \<noteq> ''PRI''" "\<forall>kx \<in> set hs. plain_header (uni_of L) kx"
    and "hs' = hs @ [(''Content-Length'', print_nat 10 (length body))]"
    and "encodes t (p @ '' '' @ body)" "pat \<in> set (sqlPatterns @ cmdPatterns @ xssPatterns)" "sublist pat t"
    and "0 \<le> score_of (w_clients (outside s)) (print_quad (take 4 (Client_ip ev)))"
    and "score_of (w_clients (outside s)) (print_quad (take 4 (Client_ip ev))) + 90 < 2 ^ 63"
  shows "\<exists>s'. handle_event L now ev s = Some s' \<and>
    w_blocks (outside s') = w_blocks (outside s) @
      [Put4 \<lparr>PrefixLen = 32, key_IP = le32 (take 4 (Client_ip ev))\<rparr>
         \<lparr>ExpiresAtNs = monotonic now + block_duration, HitCount = 0, Reason = BLOCK_L7_DETECT\<rparr>] \<and>
    (\<exists>req. outside s' = process_request L now (endpoints_of (ip6_of L) ev) None req (outside s))"
proof -
  let ?data = "print_head m p v hs' @ body" and ?ip = "take 4 (Client_ip ev)"
  let ?req = "\<lparr>req_Method = m, req_Path = p, req_Version = v, req_Headers = header_map (uni_of L) hs', req_Body = body\<rparr>"
  have "length ?data \<le> unat (Len ev)" using assms(6) by (metis length_take min.cobounded2 min.commute)
  moreover have "unat (Len ev) < 2 ^ 32" using unsigned_less [of "Len ev"] by simp
  ultimately have "int (length (print_head m p v hs' @ body @ [])) < 2 ^ 63" by simp
  from printed_request_parses [OF assms(7,9,10) this]
  have parse: "ParseRequest (uni_of L) ?data = Ok (?req, [])" by simp
  have "print_head m p v hs' @ body = m @ CHR '' '' # tl (drop (length m) ?data)"
    by (cases hs') (simp_all add: print_head_def)
  with assms(7,8) have "DetectProto ?data = ProtoHTTP1"
    using not_preface [of m] unfolding good_line_def by metis
  from first_request [OF assms(1,2,5,6) this parse] obtain s' where
    s': "handle_event L now ev s = Some s'"
      "outside s' = process_request L now (endpoints_of (ip6_of L) ev) None ?req (outside s)" by blast
  have "search_data (uni_of L) (whole_input ?req) = t"
    using encodes_search [OF assms(11)] by (simp add: whole_input_def)
  with assms(12,13) have "AnalyseReq (uni_of L) ?req ctx \<noteq> []" for ctx by (auto simp: AnalyseReq_iff)
  from Decide_detected [OF refl this assms(14,15)] s' show ?thesis
    using quad_of_event [OF assms(3,4), of "ip6_of L"] AddBlocked_quad [of ?ip] assms(4)
    by (simp add: process_request_blocks) blast
qed

text \<open>A command injection from 10.0.0.1, in one read.\<close>

definition attack_headers :: "(bytes \<times> bytes) list" where
  "attack_headers = [(''Host'', ''x'')] @ [(''Content-Length'', print_nat 10 (length ([] :: bytes)))]"

definition attack_bytes :: bytes where
  "attack_bytes = print_head ''GET'' ''/?q=Un%69on+Select'' ''HTTP/1.1'' attack_headers"

lemma attack_bytes_eval:
  "attack_bytes = ''GET /?q=Un%69on+Select HTTP/1.1'' @ crlf @ ''Host: x'' @ crlf @ ''Content-Length: 0'' @ crlf2"
  by (simp add: attack_bytes_def attack_headers_def print_head_def print_nat.simps digit_char_def)

lemma attack_event:
  "SSL_ptr (sample_event_of k d b) = k" "Dir (sample_event_of k d b) = d" "Family (sample_event_of k d b) = 2"
  "Buf (sample_event_of k d b) = b" "length (Client_ip (sample_event_of k d b)) = 16"
  "take 4 (Client_ip (sample_event_of k d b)) = [CHR 0x0A, CHR 0x00, CHR 0x00, CHR 0x01]"
  "unat (Len (sample_event_of k d attack_bytes)) = length attack_bytes"
  by (simp_all add: sample_event_of_def attack_bytes_eval)

lemma attack_data:
  "take (unat (Len (sample_event_of k d attack_bytes))) (Buf (sample_event_of k d attack_bytes)) =
     print_head ''GET'' ''/?q=Un%69on+Select'' ''HTTP/1.1'' attack_headers @ []"
  unfolding attack_event by (simp add: attack_bytes_def)

lemma attack_facts:
  "good_line ''GET'' ''/?q=Un%69on+Select'' ''HTTP/1.1''"
  "encodes ''/?q=union select '' (''/?q=Un%69on+Select'' @ '' '' @ [])"
  "''union select'' \<in> set (sqlPatterns @ cmdPatterns @ xssPatterns)"
  "sublist ''union select'' ''/?q=union select ''"
  using encodes_sample
  by (simp_all add: good_line_def no_cr_def whole_input_def sample_request_def sqlPatterns_def sublist_Cons_right)

lemma sample_facts:
  "uni_of sample_libs = id" "connection_of k (new_sniffer w) = new_connection" "outside (new_sniffer w) = w"
  "w_clients sample_world = Map.empty" "w_blocks sample_world = []" "w_logger sample_world = new_logger\<lparr>Client := True\<rparr>"
  "monotonic sample_now = 7" "score_of Map.empty ip = 0"
  by (simp_all add: new_sniffer_def sample_world_def connection_of_def sample_now_def sample_libs_def score_of_def)

end
