(* ===== verification/Logger_Client.thy ===== *)
theory Logger_Client
  imports Logger
begin

text \<open>
  Setting up the logger, \<^verbatim>\<open>internal/logger/client.go\<close>: connecting to Elasticsearch, installing the index
  template, starting the workers. Until the client is there nothing is queued. The client library and
  the network are an argument.
\<close>

section \<open>Constants\<close>

definition unlines :: "bytes list \<Rightarrow> bytes" where
  "unlines ls = concat (map (\<lambda>l. l @ [CHR 0x0A]) (butlast ls)) @ last ls"

definition esAddr :: bytes where
  "esAddr = ''http://localhost:9200''"

definition indexTemplateBody :: bytes where
  "indexTemplateBody = unlines
     [''{'',
      ''  \"index_patterns\": [\"nginxray-http*\"],'',
      ''  \"priority\": 100,'',
      ''  \"template\": {'',
      ''    \"mappings\": {'',
      ''      \"properties\": {'',
      ''        \"timestamp\":   { \"type\": \"date\" },'',
      ''        \"pid\":         { \"type\": \"long\" },'',
      ''        \"tid\":         { \"type\": \"long\" },'',
      ''        \"direction\":   { \"type\": \"keyword\" },'',
      ''        \"clientIP\":    { \"type\": \"ip\" },'',
      ''        \"clientPort\":  { \"type\": \"integer\" },'',
      ''        \"serverIP\":    { \"type\": \"ip\" },'',
      ''        \"serverPort\":  { \"type\": \"integer\" },'',
      ''        \"method\":      { \"type\": \"keyword\" },'',
      ''        \"path\":        { \"type\": \"keyword\" },'',
      ''        \"version\":     { \"type\": \"keyword\" },'',
      ''        \"status\":      { \"type\": \"integer\" },'',
      ''        \"body\":        { \"type\": \"text\" }'',
      ''      }'',
      ''    }'',
      ''  }'',
      ''}'']"

definition securityTemplateBody :: bytes where
  "securityTemplateBody = unlines
     [''{'',
      ''  \"index_patterns\": [\"nginxray-security*\"],'',
      ''  \"priority\": 100,'',
      ''  \"template\": {'',
      ''    \"mappings\": {'',
      ''      \"properties\": {'',
      ''        \"timestamp\":  { \"type\": \"date\" },'',
      ''        \"clientIP\":   { \"type\": \"ip\" },'',
      ''        \"method\":     { \"type\": \"keyword\" },'',
      ''        \"path\":       { \"type\": \"keyword\" },'',
      ''        \"attackType\": { \"type\": \"keyword\" },'',
      ''        \"pattern\":    { \"type\": \"keyword\" },'',
      ''        \"score\":      { \"type\": \"integer\" }'',
      ''      }'',
      ''    }'',
      ''  }'',
      ''}'']"

section \<open>The cluster\<close>

text \<open>
  What the network answers: whether the client can be created, whether the cluster answers, and for a
  PUT of a body to a URL the status and the body of the response, \<open>None\<close> when there is no response.
\<close>

record cluster =
  newTyped_ok :: bool
  info_ok :: bool
  put_response :: "bytes \<Rightarrow> bytes \<Rightarrow> (int \<times> bytes) option"

text \<open>The requests made, and the error, as a text without the library's own.\<close>

type_synonym puts = "(bytes \<times> bytes) list"

definition put_template :: "cluster \<Rightarrow> bytes \<Rightarrow> bytes \<Rightarrow> puts \<times> bytes option" where
  "put_template C url template =
     ([(url, template)],
      case put_response C url template of
        None \<Rightarrow> Some ''no response''
      | Some (status, b) \<Rightarrow>
          if 300 \<le> status then Some (''status '' @ print_nat 10 (nat status) @ '': '' @ b) else None)"

definition ensureIndexTemplate :: "cluster \<Rightarrow> puts \<times> bytes option" where
  "ensureIndexTemplate C = put_template C (esAddr @ ''/_index_template/nginxray-http-template'') indexTemplateBody"

definition ensureSecurityTemplate :: "cluster \<Rightarrow> puts \<times> bytes option" where
  "ensureSecurityTemplate C = put_template C (esAddr @ ''/_index_template/nginxray-security-template'') securityTemplateBody"

definition Init :: "cluster \<Rightarrow> logger \<Rightarrow> puts \<times> logger" where
  "Init C l =
     (if \<not> newTyped_ok C then ([], l)
      else if \<not> info_ok C then ([], l)
      else (let (ps, err) = ensureIndexTemplate C in (ps, l\<lparr>Client := True\<rparr>)))"

section \<open>What is set up\<close>

text \<open>
  Logging is on exactly if the client was created and the cluster answered, whatever came of the template;
  what was queued stays; and of the two templates only the one for messages is ever sent.
\<close>

lemma Init_enables_logging:
  "Client (snd (Init C new_logger)) \<longleftrightarrow> newTyped_ok C \<and> info_ok C"
  "eventQueue (snd (Init C l)) = eventQueue l" "detectionQueue (snd (Init C l)) = detectionQueue l"
  by (simp_all add: Init_def new_logger_def split_beta Let_def)

lemma security_template_not_sent:
  "(esAddr @ ''/_index_template/nginxray-security-template'', b) \<notin> set (fst (Init C l))"
  by (simp add: Init_def ensureIndexTemplate_def put_template_def split_beta Let_def)

end
