(* ===== verification/Program.thy ===== *)
theory Program
  imports Http3_Props Sniffer_Attack Logger_Client
begin

text \<open>
  The two programs: \<^verbatim>\<open>main\<close> runs the TLS sniffer, \<^verbatim>\<open>main_h3\<close> runs it beside the HTTP/3 sniffer, with one
  policy, one logger and one blocklist for both. The invariants of the world are proved for the first in
  the locale of the sniffer's and extended here to every interleaving of the two.
\<close>

section \<open>Start and steps\<close>

text \<open>Five minutes in nanoseconds.\<close>

definition test_duration :: u64 where
  "test_duration = 5 * 60 * 1000000000"

definition test_block :: "'d libs \<Rightarrow> u64 \<Rightarrow> bytes \<Rightarrow> block_request" where
  "test_block L now testBlockIP = AddBlocked (ip6_of L) now testBlockIP test_duration BLOCK_THREATFEED"

definition start_world :: "'d libs \<Rightarrow> u64 \<Rightarrow> bytes \<Rightarrow> cluster \<Rightarrow> world" where
  "start_world L now testBlockIP C =
     \<lparr>w_clients = Map.empty, w_logger = snd (Init C new_logger), w_blocks = [test_block L now testBlockIP],
      w_poison = [], w_printed = []\<rparr>"

text \<open>
  The world as the two sniffers' Main find it: the configured address has been blocked and nothing is set up
  for logging. A call of Init, which each of them makes, is a step of its own.
\<close>

definition initial_world :: "'d libs \<Rightarrow> u64 \<Rightarrow> bytes \<Rightarrow> world" where
  "initial_world L now testBlockIP =
     \<lparr>w_clients = Map.empty, w_logger = new_logger, w_blocks = [test_block L now testBlockIP],
      w_poison = [], w_printed = []\<rparr>"

definition log_init :: "cluster \<Rightarrow> world \<Rightarrow> world" where
  "log_init C w = w\<lparr>w_logger := snd (Init C (w_logger w))\<rparr>"

text \<open>The address the HTTP/3 sniffer reports as the server's, from its flag.\<close>

definition server_of :: "bytes \<Rightarrow> bytes \<times> u16" where
  "server_of listenAddr = (if listenAddr \<noteq> [] then splitHostPort listenAddr else (''0.0.0.0'', 443))"

inductive program_step :: "'d libs \<Rightarrow> bytes \<times> u16 \<Rightarrow> 'd sniffer \<times> h3 \<Rightarrow> 'd sniffer \<times> h3 \<Rightarrow> bool" for L srv where
  tls_step: "handle_event L now ev s = Some s' \<Longrightarrow>
    program_step L srv (s, h) (s', h\<lparr>h3_outside := outside s'\<rparr>)"
| quic_step: "h3_step L srv l h h' \<Longrightarrow>
    program_step L srv (s, h) (s\<lparr>outside := h3_outside h'\<rparr>, h')"
| init_step: "program_step L srv (s, h)
    (s\<lparr>outside := log_init C (outside s)\<rparr>, h\<lparr>h3_outside := log_init C (outside s)\<rparr>)"

inductive reachable :: "'d libs \<Rightarrow> bytes \<times> u16 \<Rightarrow> world \<Rightarrow> 'd sniffer \<times> h3 \<Rightarrow> bool" for L srv w where
  started: "reachable L srv w (new_sniffer w, new_h3 w)"
| stepped: "reachable L srv w p \<Longrightarrow> program_step L srv p p' \<Longrightarrow> reachable L srv w p'"

section \<open>Invariants of the shared world\<close>

locale program_invariant = world_invariant +
  assumes h3_request: "P w \<Longrightarrow> P (request_out L now srv pq w)"
    and h3_response: "P w \<Longrightarrow> P (emitResponse L now srv pr w)"
    and init: "P w \<Longrightarrow> P (log_init C w)"
begin

lemma h3_kept:
  assumes "h3_step L srv l h h'" "P (h3_outside h)"
  shows "P (h3_outside h')"
  using assms(1)
proof (cases rule: h3_step.cases)
  case (req_step now ev)
  have "P (h3_outside (emitRequest L now srv k h1))" if "P (h3_outside h1)" for k h1
    using that by (auto simp: emitRequest_def takeReqFields_def intro: h3_request split: option.split)
  with req_step assms(2) show ?thesis
    by (auto simp: handle_req_def appendReqField_def bind_eq_Some_conv Let_def split: if_splits)
next
  case (tick_step order now)
  have "P (fold (\<lambda>(_, t, pr). emitResponse L t srv pr) xs w)" if "P w" for xs w
    using that by (induction xs arbitrary: w) (auto intro: h3_response)
  with tick_step assms(2) show ?thesis by (simp add: flush_tick_def Let_def)
qed (use assms(2) in \<open>auto simp: resp_base_def resp_resolve_def resp_append_def appendRespField_def
    bind_eq_Some_conv Let_def split: if_splits\<close>)

lemma step_kept:
  "program_step L srv p p' \<Longrightarrow> P (outside (fst p)) \<and> outside (fst p) = h3_outside (snd p) \<Longrightarrow>
     P (outside (fst p')) \<and> outside (fst p') = h3_outside (snd p')"
  by (induction rule: program_step.induct) (auto intro: event h3_kept init)

lemma reachable_kept:
  "reachable L srv w p \<Longrightarrow> P w \<Longrightarrow> P (outside (fst p)) \<and> outside (fst p) = h3_outside (snd p)"
proof (induction rule: reachable.induct)
  case started
  then show ?case by (simp add: new_sniffer_def new_h3_def)
next
  case (stepped p p')
  from step_kept [OF stepped(2) stepped(3) [OF stepped(4)]] show ?case .
qed

end

lemma request_out_clients:
  "w_clients (request_out L now srv pr w) =
     snd (Decide (clientIP (h3_endpoints srv (pq_pidTgid pr) (pq_ip pr)))
       (AnalyseReq (uni_of L) (MaskRequest (json_of L) (uni_of L) (h3_buildRequest (pq_fields pr)))
          \<lparr>ctx_Timestamp = wall now, ctx_ClientIP = clientIP (h3_endpoints srv (pq_pidTgid pr) (pq_ip pr))\<rparr>)
       (w_clients w))"
  by (simp add: request_out_def Let_def split_beta)

lemma request_out_blocks:
  "w_blocks (request_out L now srv pr w) = w_blocks w @
     (if fst (Decide (clientIP (h3_endpoints srv (pq_pidTgid pr) (pq_ip pr)))
       (AnalyseReq (uni_of L) (MaskRequest (json_of L) (uni_of L) (h3_buildRequest (pq_fields pr)))
          \<lparr>ctx_Timestamp = wall now, ctx_ClientIP = clientIP (h3_endpoints srv (pq_pidTgid pr) (pq_ip pr))\<rparr>)
       (w_clients w)) = Block
      then [AddBlocked (ip6_of L) (monotonic now) (clientIP (h3_endpoints srv (pq_pidTgid pr) (pq_ip pr)))
              block_duration BLOCK_L7_DETECT] else [])"
  by (simp add: request_out_def Let_def split_beta)

interpretation program_log: program_invariant L "world_masked L" for L :: "'d libs"
proof unfold_locales
  fix w now srv pq pr
  assume w: "world_masked L w"
  show "world_masked L (request_out L now srv pq w)"
    using w masked_events(1)
    by (auto simp: world_masked_def request_out_def Let_def split_beta LogRequest_def intro!: enqueue_all)
  show "world_masked L (emitResponse L now srv pr w)"
    using w masked_events(2)
    by (auto simp: world_masked_def emitResponse_def Let_def LogResponse_def intro!: enqueue_all)
  show "world_masked L (log_init C w)" for C
    using w by (simp add: world_masked_def log_init_def Init_enables_logging)
qed

text \<open>Every block is the one the program starts with, or of a client the policy holds a detection against.\<close>

definition blocks_justified :: "'d libs \<Rightarrow> block_request \<Rightarrow> world \<Rightarrow> bool" where
  "blocks_justified L first w \<longleftrightarrow> (\<exists>bs. w_blocks w = first # bs \<and> blocks_known L (w\<lparr>w_blocks := bs\<rparr>))"

lemma blocks_known_grow:
  assumes "blocks_known L w" "w_blocks w' = w_blocks w @ (if fst d = Block then [AddBlocked (ip6_of L) t ip block_duration BLOCK_L7_DETECT] else [])"
    and "w_clients w' = snd d" "d = Decide ip dets (w_clients w)"
  shows "blocks_known L w'"
proof -
  have "list_all (\<lambda>b. \<exists>ip t. b = AddBlocked (ip6_of L) t ip block_duration BLOCK_L7_DETECT \<and> w_clients w' ip \<noteq> None) (w_blocks w)"
    using assms(1) unfolding blocks_known_def assms(3,4)
    by (rule list.pred_mono_strong) (use Decide_clients(2) in blast)
  moreover have "w_clients w' ip \<noteq> None" if "fst d = Block"
    using Decide_clients(1) that unfolding assms(3,4) by blast
  ultimately show ?thesis using assms(2) unfolding blocks_known_def list_all_append by auto
qed

lemma justified_grow:
  assumes "blocks_justified L first w"
    and "w_blocks w' = w_blocks w @ (if fst d = Block then [AddBlocked (ip6_of L) t ip block_duration BLOCK_L7_DETECT] else [])"
    and "w_clients w' = snd d" "d = Decide ip dets (w_clients w)"
  shows "blocks_justified L first w'"
proof -
  from assms(1) obtain bs where bs: "w_blocks w = first # bs" "blocks_known L (w\<lparr>w_blocks := bs\<rparr>)"
    by (auto simp: blocks_justified_def)
  let ?bs = "bs @ (if fst d = Block then [AddBlocked (ip6_of L) t ip block_duration BLOCK_L7_DETECT] else [])"
  have "blocks_known L (w'\<lparr>w_blocks := ?bs\<rparr>)"
    by (rule blocks_known_grow [OF bs(2), of _ d t ip dets]) (use assms(3,4) in simp_all)
  with assms(2) bs(1) show ?thesis by (auto simp: blocks_justified_def)
qed

interpretation program_blocks: program_invariant L "blocks_justified L first" for L :: "'d libs" and first
proof unfold_locales
  fix w now srv pq pr ms ep tag req resp
  assume w: "blocks_justified L first w"
  show "blocks_justified L first (process_request L now ep tag req w)"
    by (rule justified_grow [OF w process_request_blocks process_request_clients refl])
  show "blocks_justified L first (request_out L now srv pq w)"
    by (rule justified_grow [OF w request_out_blocks request_out_clients refl])
  show "blocks_justified L first (process_response L now ep tag resp w)" "blocks_justified L first (w\<lparr>w_poison := ms\<rparr>)"
    "blocks_justified L first (emitResponse L now srv pr w)" "blocks_justified L first (log_init C w)" for C
    using w by (auto simp: blocks_justified_def blocks_known_def process_response_def emitResponse_def log_init_def Let_def)
qed

text \<open>
  Every detection on the logger's second queue is of a known attack and of a client the policy holds a score for.
  It has the request's path as it was captured: only the headers and bodies of messages are masked.
\<close>

definition known_attacks :: "(bytes \<times> bytes) list" where
  "known_attacks =
     map (Pair ''SQL Injection'') sqlPatterns @ map (Pair ''Command Injection'') cmdPatterns @
     map (Pair ''Path Traversal'') traversalPatterns @ map (Pair ''XSS'') xssPatterns"

definition detection_known :: "clients \<Rightarrow> DetectionEvent \<Rightarrow> bool" where
  "detection_known cls d \<longleftrightarrow>
     (de_AttackType d, de_Pattern d) \<in> set known_attacks \<and> de_Score d = 90 \<and> cls (de_ClientIP d) \<noteq> None"

definition detections_justified :: "world \<Rightarrow> bool" where
  "detections_justified w \<longleftrightarrow> list_all (detection_known (w_clients w)) (detectionQueue (w_logger w))"

lemma find_in: "Some x = find P xs \<Longrightarrow> x \<in> set xs"
  by (induction xs) (auto split: if_splits)

lemma AnalyseReq_known:
  assumes "det \<in> set (AnalyseReq uni req ctx)"
  shows "(AttackType det, Pattern det) \<in> set known_attacks" "Score det = 90" "det_ClientIP det = ctx_ClientIP ctx"
proof -
  from assms obtain kind p d where "(kind, p, d) \<in> set (rules req)" and det: "det = detection ctx req kind p"
    unfolding AnalyseReq_rules by (auto split: option.splits dest: find_in)
  then show "(AttackType det, Pattern det) \<in> set known_attacks" "Score det = 90" "det_ClientIP det = ctx_ClientIP ctx"
    by (auto simp: rules_def known_attacks_def detection_def)
qed

lemma LogDetection_set:
  "set (detectionQueue (fold LogDetection dets l)) \<subseteq> set (detectionQueue l) \<union> detection_event ` set dets"
proof (induction dets arbitrary: l)
  case (Cons det dets)
  have "set (detectionQueue (LogDetection det l)) \<subseteq> insert (detection_event det) (set (detectionQueue l))"
    by (auto simp: LogDetection_def enqueueDetection_def)
  with Cons.IH [of "LogDetection det l"] show ?case by auto
qed simp

lemma enqueue_detections [simp]: "detectionQueue (enqueue e l) = detectionQueue l"
  by (simp add: enqueue_def)

lemma detections_grow:
  assumes "detections_justified w" "dets = AnalyseReq uni req ctx"
    and "w_clients w' = snd (Decide (ctx_ClientIP ctx) dets (w_clients w))"
    and "detectionQueue (w_logger w') = detectionQueue (fold LogDetection dets (w_logger w))"
  shows "detections_justified w'"
proof -
  have old: "detection_known (w_clients w) d \<Longrightarrow> detection_known (w_clients w') d" for d
    unfolding detection_known_def assms(3) using Decide_clients(2) by blast
  have new: "detection_known (w_clients w') (detection_event det)" if "det \<in> set dets" for det
  proof -
    from that have "dets \<noteq> []" by auto
    then have "w_clients w' (ctx_ClientIP ctx) \<noteq> None" by (simp add: assms(3) Decide_def Let_def)
    with AnalyseReq_known that assms(2) show ?thesis by (simp add: detection_known_def detection_event_def)
  qed
  show ?thesis
    using assms(1) old new LogDetection_set [of dets "w_logger w"]
    unfolding detections_justified_def assms(4) list_all_iff by blast
qed

interpretation program_detections: program_invariant L "detections_justified" for L :: "'d libs"
proof unfold_locales
  fix w now srv pq pr ms ep tag req resp
  assume w: "detections_justified w"
  show "detections_justified (process_request L now ep tag req w)"
    by (rule detections_grow [OF w refl, where uni = "uni_of L" and req = req and ctx = "\<lparr>ctx_Timestamp = wall now, ctx_ClientIP = clientIP ep\<rparr>"])
      (simp add: process_request_clients, simp add: process_request_def LogRequest_def Let_def split_beta)
  show "detections_justified (request_out L now srv pq w)"
    by (rule detections_grow [OF w refl, where uni = "uni_of L" and req = "MaskRequest (json_of L) (uni_of L) (h3_buildRequest (pq_fields pq))"
          and ctx = "\<lparr>ctx_Timestamp = wall now, ctx_ClientIP = clientIP (h3_endpoints srv (pq_pidTgid pq) (pq_ip pq))\<rparr>"])
      (simp add: request_out_clients, simp add: request_out_def LogRequest_def Let_def split_beta)
  show "detections_justified (process_response L now ep tag resp w)" "detections_justified (w\<lparr>w_poison := ms\<rparr>)"
    "detections_justified (emitResponse L now srv pr w)" "detections_justified (log_init C w)" for C
    using w by (auto simp: detections_justified_def process_response_def emitResponse_def LogResponse_def log_init_def
        Init_enables_logging Let_def)
qed

section \<open>The whole program\<close>

text \<open>
  C14: in every state the program can reach from its start, however the TLS and HTTP/3 sniffers' steps and their
  calls of Init interleave, the headers and bodies of all messages that are queued for the log or printed are
  masked; every detection queued is of a known attack and of a client the policy holds a score for; and the
  blocks asked of the kernel are the configured one of the start and, after it, only clients the policy holds a
  detection against. Paths are not masked, in messages or in detections.
\<close>

theorem program_masks_and_blocks:
  assumes "reachable L (server_of listenAddr) (initial_world L t testBlockIP) (s, h)"
  shows "list_all (event_masked L) (eventQueue (w_logger (outside s))) \<and>
    list_all (printed_masked L) (w_printed (outside s)) \<and>
    list_all (\<lambda>d. (de_AttackType d, de_Pattern d) \<in> set known_attacks \<and> de_Score d = 90 \<and>
      w_clients (outside s) (de_ClientIP d) \<noteq> None) (detectionQueue (w_logger (outside s))) \<and>
    (\<exists>bs. w_blocks (outside s) = test_block L t testBlockIP # bs \<and>
       list_all (\<lambda>b. \<exists>ip t. b = AddBlocked (ip6_of L) t ip block_duration BLOCK_L7_DETECT \<and>
         w_clients (outside s) ip \<noteq> None) bs) \<and>
    h3_outside h = outside s"
proof -
  have "world_masked L (initial_world L t testBlockIP)"
    by (simp add: world_masked_def initial_world_def new_logger_def)
  moreover have "blocks_justified L (test_block L t testBlockIP) (initial_world L t testBlockIP)"
    by (simp add: blocks_justified_def blocks_known_def initial_world_def)
  moreover have "detections_justified (initial_world L t testBlockIP)"
    by (simp add: detections_justified_def initial_world_def new_logger_def)
  ultimately show ?thesis
    using program_log.reachable_kept [OF assms] program_blocks.reachable_kept [OF assms]
      program_detections.reachable_kept [OF assms]
    by (auto simp: world_masked_def blocks_justified_def blocks_known_def detections_justified_def
        detection_known_def [abs_def])
qed

definition sample_cluster :: cluster where
  "sample_cluster = \<lparr>newTyped_ok = True, info_ok = True, put_response = \<lambda>url b. Some (200, [])\<rparr>"

lemma started_world: "log_init C (initial_world L t ip) = start_world L t ip C"
  by (simp add: log_init_def initial_world_def start_world_def)

theorem program_masks_and_blocks_witness:
  "\<exists>s h. reachable sample_libs (server_of []) (initial_world sample_libs 7 ''10.9.9.9'') (s, h) \<and>
     (\<exists>b. w_blocks (outside s) = [test_block sample_libs 7 ''10.9.9.9'', b]) \<and>
     list_all (event_masked sample_libs) (eventQueue (w_logger (outside s))) \<and>
     list_all (printed_masked sample_libs) (w_printed (outside s)) \<and> h3_outside h = outside s"
proof -
  let ?w = "initial_world sample_libs 7 ''10.9.9.9''" and ?ev = "sample_event_of 1 dirRecv attack_bytes"
  define s0 :: "unit sniffer" where "s0 = (new_sniffer ?w)\<lparr>outside := start_world sample_libs 7 ''10.9.9.9'' sample_cluster\<rparr>"
  define h0 where "h0 = (new_h3 ?w)\<lparr>h3_outside := start_world sample_libs 7 ''10.9.9.9'' sample_cluster\<rparr>"
  have w: "w_clients (outside s0) = Map.empty" "w_blocks (outside s0) = [test_block sample_libs 7 ''10.9.9.9'']"
    "connection_of 1 s0 = new_connection"
    by (simp_all add: s0_def start_world_def connection_of_def new_sniffer_def)
  have "outside (new_sniffer ?w :: unit sniffer) = ?w" by (simp add: new_sniffer_def)
  then have first: "reachable sample_libs (server_of []) ?w (s0, h0)"
    using stepped [OF started [where L = sample_libs and srv = "server_of []" and w = ?w] init_step [where C = sample_cluster]]
    by (simp add: s0_def h0_def started_world)
  have "\<exists>s'. handle_event sample_libs sample_now ?ev s0 = Some s' \<and>
      (\<exists>b. w_blocks (outside s') = [test_block sample_libs 7 ''10.9.9.9'', b])"
    using attack_blocked [of ?ev s0, OF _ _ _ _ _ attack_data
        attack_facts(1) _ _ attack_headers_def attack_facts(2-4), of sample_libs sample_now]
      host_header [of id] by (auto simp: attack_event sample_facts w afInet6_def)
  then obtain s where s: "handle_event sample_libs sample_now ?ev s0 = Some s"
    "\<exists>b. w_blocks (outside s) = [test_block sample_libs 7 ''10.9.9.9'', b]" by blast
  have reach: "reachable sample_libs (server_of []) ?w (s, h0\<lparr>h3_outside := outside s\<rparr>)"
    by (rule stepped [OF first tls_step [OF s(1)]])
  with program_masks_and_blocks [OF reach] s(2) show ?thesis by blast
qed

end
