(* ===== verification/Http3_Attack.thy ===== *)
theory Http3_Attack
  imports Program
begin

text \<open>
  The HTTP/3 sniffer end to end: the header fields of a request that holds an attack, captured one by
  one among everything else that goes on, end in the blocklist entry for the client.
\<close>

section \<open>Addresses as nginx prints them\<close>

lemma LastIndexByte_None: "c \<notin> set s \<Longrightarrow> LastIndexByte s c = None"
  by (induction s) auto

lemma splitHostPort_plain: "CHR '':'' \<notin> set s \<Longrightarrow> fst (splitHostPort s) = s"
  by (simp add: splitHostPort_def SplitHostPort_def LastIndexByte_None)

section \<open>Masking before analysis\<close>

text \<open>
  Requests over HTTP/3 are masked before they are analysed. They have no body, and the path is not
  masked, so the analysis sees what it would have seen.
\<close>

lemma ReplaceAllString_Nil: "0 < min_width r \<Longrightarrow> ReplaceAllString r pieces [] = []"
  using replace_at_end [of r pieces "[]"] by (simp add: ReplaceAllString_def)

lemma maskPlaintext_Nil: "maskPlaintext [] = []"
proof -
  have "foldl (\<lambda>s (re, repl). ReplaceAllString re repl s) [] ps = []" if "list_all (\<lambda>(re, repl). 0 < min_width re) ps" for ps
    using that by (induction ps) (auto simp: ReplaceAllString_Nil)
  with patterns_positive show ?thesis by (simp add: maskPlaintext_def)
qed

lemma h3_request_body: "req_Body (h3_buildRequest fs) = []"
proof -
  have "req_Body (fold h3_request_field fs req) = req_Body req" for req
    by (induction fs arbitrary: req) (simp_all add: h3_request_field_def split_beta)
  then show ?thesis by (simp add: h3_buildRequest_def)
qed

lemma masked_input:
  assumes "Unmarshal J [] = None"
  shows "whole_input (MaskRequest J uni (h3_buildRequest fs)) = req_Path (h3_buildRequest fs) @ '' ''"
  using assms by (simp add: whole_input_def MaskRequest_def maskBody_def h3_request_body maskPlaintext_Nil)

section \<open>From captured fields to the blocklist entry\<close>

lemma request_out_blocked:
  assumes "Unmarshal (json_of L) [] = None" "pq_ip pr = print_quad ip" "length ip = 4"
    and "encodes t (req_Path (h3_buildRequest (pq_fields pr)) @ '' '')"
    and "pat \<in> set (sqlPatterns @ cmdPatterns @ xssPatterns)" "sublist pat t"
    and "0 \<le> score_of (w_clients w) (print_quad ip)" "score_of (w_clients w) (print_quad ip) + 90 < 2 ^ 63"
  shows "w_blocks (request_out L now srv pr w) = w_blocks w @
    [Put4 \<lparr>PrefixLen = 32, key_IP = le32 ip\<rparr>
       \<lparr>ExpiresAtNs = monotonic now + block_duration, HitCount = 0, Reason = BLOCK_L7_DETECT\<rparr>]"
proof -
  let ?req = "MaskRequest (json_of L) (uni_of L) (h3_buildRequest (pq_fields pr))"
  have ip: "clientIP (h3_endpoints srv (pq_pidTgid pr) (pq_ip pr)) = print_quad ip"
    using splitHostPort_plain [OF print_quad_plain(2), of ip] assms(2)
    by (simp add: h3_endpoints_def Let_def split_beta)
  have "search_data (uni_of L) (whole_input ?req) = t"
    using encodes_search [OF assms(4)] by (simp add: masked_input [OF assms(1)])
  with assms(5,6) have "AnalyseReq (uni_of L) ?req ctx \<noteq> []" for ctx by (auto simp: AnalyseReq_iff)
  from Decide_detected [OF refl this assms(7,8)] show ?thesis
    by (simp add: request_out_blocks ip AddBlocked_quad [OF assms(3)])
qed

text \<open>
  C15: an attack over HTTP/3 ends in the blocklist: when the fields of a request whose path is written
  for a text with an SQL, command or XSS pattern have been captured, mixed in any way with the other
  goroutines' steps and other connections' events, the end of its headers makes the sniffer ask for
  exactly the address the client was captured with to be blocked. That reading an empty text as JSON
  is an error is the documented behaviour of encoding/json.
\<close>

theorem http3_attack_blocks_client:
  assumes "h3_run L srv ls s0 s" "pendingReq s0 k = None"
    and "list_all (\<lambda>ev. rq_ok ev \<and> sint (rq_Ret ev) = ngxOK) (req_events k ls)" "req_events k ls \<noteq> []"
    and "rq_ok end_ev" "sint (rq_Ret end_ev) = ngxDone" "rq_ConnID end_ev = k" "rq_NameLen end_ev = 0" "rq_ValueLen end_ev = 0"
    and "rq_addr (hd (req_events k ls)) = print_quad ip" "length ip = 4"
    and "encodes t (req_Path (h3_buildRequest (map rq_field (req_events k ls))) @ '' '')"
    and "pat \<in> set (sqlPatterns @ cmdPatterns @ xssPatterns)" "sublist pat t"
    and "0 \<le> score_of (w_clients (h3_outside s)) (print_quad ip)"
    and "score_of (w_clients (h3_outside s)) (print_quad ip) + 90 < 2 ^ 63"
    and "Unmarshal (json_of L) [] = None"
  shows "\<exists>s'. handle_req L now srv end_ev s = Some s' \<and>
    w_blocks (h3_outside s') = w_blocks (h3_outside s) @
      [Put4 \<lparr>PrefixLen = 32, key_IP = le32 ip\<rparr>
         \<lparr>ExpiresAtNs = monotonic now + block_duration, HitCount = 0, Reason = BLOCK_L7_DETECT\<rparr>]"
proof -
  obtain s' where "handle_req L now srv end_ev s = Some s'" "h3_outside s' = request_out L now srv
      \<lparr>pq_fields = map rq_field (req_events k ls), pq_ip = rq_addr (hd (req_events k ls)),
       pq_pidTgid = rq_PidTgid (last (req_events k ls))\<rparr> (h3_outside s)"
    using request_assembled [OF assms(1,2,3,5,6,7), of "req_events k ls" now] assms(4,8,9) by auto
  then show ?thesis
    using request_out_blocked [OF assms(17) _ assms(11) _ assms(13,14,15,16)] assms(10,12) by simp
qed

text \<open>An attack over HTTP/3 from 10.0.0.1, with another connection's request in between.\<close>

definition h3_attack :: "h3_label list" where
  "h3_attack =
     [ReqEv sample_now (sample_req 1 0 '':method'' ''GET''), ReqEv sample_now (sample_req 2 0 '':path'' ''/''),
      ReqEv sample_now (sample_req 1 0 '':path'' ''/?q=Un%69on+Select'')]"

theorem http3_attack_blocks_client_witness:
  "\<exists>s s'. h3_run sample_libs (''10.0.0.2'', 443) h3_attack (new_h3 sample_world) s \<and>
     handle_req sample_libs sample_now (''10.0.0.2'', 443) (sample_req 1 (-4) [] []) s = Some s' \<and>
     w_blocks (h3_outside s') =
       [Put4 \<lparr>PrefixLen = 32, key_IP = le32 [CHR 0x0A, CHR 0x00, CHR 0x00, CHR 0x01]\<rparr>
          \<lparr>ExpiresAtNs = 7 + block_duration, HitCount = 0, Reason = BLOCK_L7_DETECT\<rparr>]"
proof -
  let ?srv = "(''10.0.0.2'', 443 :: u16)" and ?ip = "[CHR 0x0A, CHR 0x00, CHR 0x00, CHR 0x01]"
  have "\<exists>s. h3_run sample_libs ?srv h3_attack (new_h3 sample_world) s \<and> h3_outside s = sample_world"
    by (simp add: h3_attack_def h3_run_Cons h3_run_Nil req_step_iff handle_req_ok_event sample_req_facts ngxOK_def
        appendReqField_def new_h3_def Let_def)
  then obtain s where s: "h3_run sample_libs ?srv h3_attack (new_h3 sample_world) s" "h3_outside s = sample_world" by blast
  have evs: "req_events 1 h3_attack = [sample_req 1 0 '':method'' ''GET'', sample_req 1 0 '':path'' ''/?q=Un%69on+Select'']"
    by (simp add: h3_attack_def sample_req_facts)
  have end_ev: "rq_ok (sample_req 1 (-4) [] [])" "sint (rq_Ret (sample_req 1 (-4) [] [])) = ngxDone"
    "rq_ConnID (sample_req 1 (-4) [] []) = 1" "rq_NameLen (sample_req 1 (-4) [] []) = 0" "rq_ValueLen (sample_req 1 (-4) [] []) = 0"
    by (simp_all add: sample_req_facts ngxDone_def, simp_all add: sample_req_def)
  have ip: "print_quad ?ip = ''10.0.0.1''" by (simp add: print_quad_def print_nat.simps digit_char_def)
  have path: "req_Path (h3_buildRequest (map rq_field (req_events 1 h3_attack))) @ '' '' = ''/?q=Un%69on+Select'' @ '' '' @ []"
    unfolding evs by (simp add: sample_req_facts h3_buildRequest_def h3_request_field_def)
  have json: "Unmarshal (json_of sample_libs) [] = None" by (simp add: sample_libs_def)
  have pending: "pendingReq (new_h3 sample_world) 1 = None" by (simp add: new_h3_def)
  from http3_attack_blocks_client [OF s(1) pending _ _ end_ev _ _ _ attack_facts(3,4) _ _ json, of ?ip sample_now]
  have "\<exists>s'. handle_req sample_libs sample_now ?srv (sample_req 1 (-4) [] []) s = Some s' \<and>
     w_blocks (h3_outside s') = [Put4 \<lparr>PrefixLen = 32, key_IP = le32 ?ip\<rparr>
          \<lparr>ExpiresAtNs = 7 + block_duration, HitCount = 0, Reason = BLOCK_L7_DETECT\<rparr>]"
    unfolding path s ip using attack_facts(2)
    by (simp add: evs sample_req_facts ngxOK_def sample_facts)
  with s(1) show ?thesis by blast
qed

end
