(* ===== verification/Samples.thy ===== *)
theory Samples
  imports Http3_Attack "HOL-Library.Monad_Syntax"
begin

text \<open>
  From the raw samples of the ring buffers to events: \<^verbatim>\<open>binary.Read\<close> of a struct of fixed size, little
  endian and without padding. A sample that is too short is logged and skipped; one that is long enough
  always gives an event, whose arrays have their declared sizes.
\<close>

section \<open>Reading\<close>

fun le_val :: "bytes \<Rightarrow> nat" where
  "le_val [] = 0"
| "le_val (b # bs) = of_char b + 256 * le_val bs"

fun le_bytes :: "nat \<Rightarrow> nat \<Rightarrow> bytes" where
  "le_bytes 0 v = []"
| "le_bytes (Suc n) v = char_of v # le_bytes n (v div 256)"

definition get_word :: "nat \<Rightarrow> bytes \<Rightarrow> ('a::len word \<times> bytes) option" where
  "get_word n raw = (if length raw < n then None else Some (of_nat (le_val (take n raw)), drop n raw))"

definition get_array :: "nat \<Rightarrow> bytes \<Rightarrow> (bytes \<times> bytes) option" where
  "get_array n raw = (if length raw < n then None else Some (take n raw, drop n raw))"

definition decode_sslbuffer :: "bytes \<Rightarrow> sslbuffer option" where
  "decode_sslbuffer raw = do {
     (timens, raw) \<leftarrow> get_word 8 raw; (tid, raw) \<leftarrow> get_word 4 raw; (pid, raw) \<leftarrow> get_word 4 raw;
     (len, raw) \<leftarrow> get_word 4 raw; (dir, raw) \<leftarrow> get_word 4 raw; (ssl, raw) \<leftarrow> get_word 8 raw;
     (family, raw) \<leftarrow> get_word 2 raw; (cport, raw) \<leftarrow> get_word 2 raw; (sport, raw) \<leftarrow> get_word 2 raw;
     (cip, raw) \<leftarrow> get_array 16 raw; (sip, raw) \<leftarrow> get_array 16 raw; (b, raw) \<leftarrow> get_array 8192 raw;
     Some \<lparr>Timens = timens, Tid = tid, Pid = pid, Len = len, Dir = dir, SSL_ptr = ssl, Family = family,
       Client_port = cport, Server_port = sport, Client_ip = cip, Server_ip = sip, Buf = b\<rparr> }"

definition decode_reqHeader :: "bytes \<Rightarrow> reqHeader option" where
  "decode_reqHeader raw = do {
     (p, raw) \<leftarrow> get_word 8 raw; (ts, raw) \<leftarrow> get_word 8 raw; (conn, raw) \<leftarrow> get_word 8 raw;
     (req, raw) \<leftarrow> get_word 8 raw; (ret, raw) \<leftarrow> get_word 4 raw; (nl, raw) \<leftarrow> get_word 4 raw;
     (vl, raw) \<leftarrow> get_word 4 raw; (name, raw) \<leftarrow> get_array 128 raw; (val, raw) \<leftarrow> get_array 512 raw;
     (il, raw) \<leftarrow> get_word 4 raw; (ip, raw) \<leftarrow> get_array 64 raw;
     Some \<lparr>rq_PidTgid = p, rq_TsNs = ts, rq_ConnID = conn, rq_ReqID = req, rq_Ret = ret, rq_NameLen = nl,
       rq_ValueLen = vl, rq_Name = name, rq_Value = val, rq_IpLen = il, rq_Ip = ip\<rparr> }"

definition decode_resHeader :: "bytes \<Rightarrow> resHeader option" where
  "decode_resHeader raw = do {
     (p, raw) \<leftarrow> get_word 8 raw; (ts, raw) \<leftarrow> get_word 8 raw; (conn, raw) \<leftarrow> get_word 8 raw;
     (hook, raw) \<leftarrow> get_word 4 raw; (dyn, raw) \<leftarrow> get_word 4 raw; (index, raw) \<leftarrow> get_word 8 raw;
     (nl, raw) \<leftarrow> get_word 4 raw; (vl, raw) \<leftarrow> get_word 4 raw; (name, raw) \<leftarrow> get_array 128 raw;
     (val, raw) \<leftarrow> get_array 512 raw; (il, raw) \<leftarrow> get_word 4 raw; (ip, raw) \<leftarrow> get_array 64 raw;
     Some \<lparr>rs_PidTgid = p, rs_TsNs = ts, rs_Conn = conn, rs_Hook = hook, rs_Dynamic = dyn, rs_Index = index,
       rs_NameLen = nl, rs_ValueLen = vl, rs_Name = name, rs_Value = val, rs_IpLen = il, rs_Ip = ip\<rparr> }"

definition decode_tableEvent :: "bytes \<Rightarrow> tableEvent option" where
  "decode_tableEvent raw = do {
     (p, raw) \<leftarrow> get_word 8 raw; (ts, raw) \<leftarrow> get_word 8 raw; (conn, raw) \<leftarrow> get_word 8 raw;
     (opr, raw) \<leftarrow> get_word 4 raw; (dyn, raw) \<leftarrow> get_word 4 raw; (index, raw) \<leftarrow> get_word 8 raw;
     (nl, raw) \<leftarrow> get_word 4 raw; (vl, raw) \<leftarrow> get_word 4 raw; (name, raw) \<leftarrow> get_array 128 raw;
     (val, raw) \<leftarrow> get_array 512 raw; (il, raw) \<leftarrow> get_word 4 raw; (ip, raw) \<leftarrow> get_array 64 raw;
     Some \<lparr>te_PidTgid = p, te_TsNs = ts, te_Conn = conn, te_Op = opr, te_Dynamic = dyn, te_Index = index,
       te_NameLen = nl, te_ValueLen = vl, te_Name = name, te_Value = val, te_IpLen = il, te_Ip = ip\<rparr> }"

section \<open>The loops over a ring buffer\<close>

text \<open>
  A read of a ring buffer gives a sample, an error, or that the reader was closed. A closed reader ends the
  loop; after an error, or for a sample too short for the struct, the loop goes on with the next read.
\<close>

datatype ring_read = Sample bytes | Read_failed | Ring_closed

fun ring_loop :: "(bytes \<Rightarrow> 'e option) \<Rightarrow> (clock \<Rightarrow> 'e \<Rightarrow> 's \<Rightarrow> 's option) \<Rightarrow> (clock \<times> ring_read) list \<Rightarrow> 's \<Rightarrow> 's option" where
  "ring_loop decode handle [] s = Some s"
| "ring_loop decode handle ((now, Ring_closed) # reads) s = Some s"
| "ring_loop decode handle ((now, Read_failed) # reads) s = ring_loop decode handle reads s"
| "ring_loop decode handle ((now, Sample raw) # reads) s =
     (case decode raw of
        None \<Rightarrow> ring_loop decode handle reads s
      | Some ev \<Rightarrow> Option.bind (handle now ev s) (ring_loop decode handle reads))"

definition sniffLoop :: "'d libs \<Rightarrow> (clock \<times> ring_read) list \<Rightarrow> 'd sniffer \<Rightarrow> 'd sniffer option" where
  "sniffLoop L = ring_loop decode_sslbuffer (handle_event L)"

definition reqEventLoop :: "'d libs \<Rightarrow> bytes \<times> u16 \<Rightarrow> (clock \<times> ring_read) list \<Rightarrow> h3 \<Rightarrow> h3 option" where
  "reqEventLoop L srv = ring_loop decode_reqHeader (\<lambda>now. handle_req L now srv)"

definition tableEventLoop :: "(clock \<times> ring_read) list \<Rightarrow> h3 \<Rightarrow> h3 option" where
  "tableEventLoop = ring_loop decode_tableEvent
     (\<lambda>now tev s. map_option (\<lambda>T. s\<lparr>dynamicTables := T\<rparr>) (handle_table tev (dynamicTables s)))"

text \<open>A turn of the response loop that nothing interrupts, from its sample to the field appended.\<close>

definition handle_resp :: "clock \<Rightarrow> resHeader \<Rightarrow> h3 \<Rightarrow> h3 option" where
  "handle_resp now rv s = map_option (\<lambda>s. resp_append (uint (monotonic now)) (resp_resolve s)) (resp_base rv s)"

definition respEventLoop :: "(clock \<times> ring_read) list \<Rightarrow> h3 \<Rightarrow> h3 option" where
  "respEventLoop = ring_loop decode_resHeader handle_resp"

text \<open>The events of the reads up to the close.\<close>

fun ring_events :: "(bytes \<Rightarrow> 'e option) \<Rightarrow> (clock \<times> ring_read) list \<Rightarrow> (clock \<times> 'e) list" where
  "ring_events decode [] = []"
| "ring_events decode ((now, Ring_closed) # reads) = []"
| "ring_events decode ((now, Read_failed) # reads) = ring_events decode reads"
| "ring_events decode ((now, Sample raw) # reads) =
     (case decode raw of None \<Rightarrow> [] | Some ev \<Rightarrow> [(now, ev)]) @ ring_events decode reads"

lemma sniffLoop_events: "sniffLoop L reads s = sniff L (ring_events decode_sslbuffer reads) s"
  unfolding sniffLoop_def
  by (induction "decode_sslbuffer" "handle_event L" reads s rule: ring_loop.induct)
     (auto split: option.splits bind_splits)

lemma reqEventLoop_run:
  "reqEventLoop L srv reads s = Some s' \<Longrightarrow>
     h3_run L srv (map (\<lambda>(now, ev). ReqEv now ev) (ring_events decode_reqHeader reads)) s s'"
  unfolding reqEventLoop_def
  by (induction "decode_reqHeader" "\<lambda>now. handle_req L now srv" reads s rule: ring_loop.induct)
     (auto simp: h3_run_Nil h3_run_Cons req_step_iff split: option.splits bind_splits)

lemma tableEventLoop_run:
  "tableEventLoop reads s = Some s' \<Longrightarrow>
     h3_run L srv (map (\<lambda>(now, ev). TableEv ev) (ring_events decode_tableEvent reads)) s s'"
  unfolding tableEventLoop_def
  by (induction decode_tableEvent
        "\<lambda>(now :: clock) tev s. map_option (\<lambda>T. s\<lparr>dynamicTables := T\<rparr>) (handle_table tev (dynamicTables (s :: h3)))"
        reads s rule: ring_loop.induct)
     (auto simp: h3_run_Nil h3_run_Cons table_step_iff split: option.splits bind_splits)

fun resp_labels :: "(clock \<times> resHeader) list \<Rightarrow> h3_label list" where
  "resp_labels [] = []"
| "resp_labels ((now, rv) # evs) =
     (if rs_Hook rv = hookFieldLri then [RespEv rv, RespResolve, RespAppend (uint (monotonic now))] else [RespEv rv]) @
     resp_labels evs"

lemma handle_resp_run:
  assumes "resp_turn_of s = Waiting" "handle_resp now rv s = Some s'"
  shows "resp_turn_of s' = Waiting" "h3_run L srv (resp_labels [(now, rv)]) s s'"
  using assms
  by (auto simp: handle_resp_def resp_base_def resp_resolve_def resp_append_def appendRespField_def Let_def
      h3_run_Nil h3_run_Cons h3_step_iffs split: bind_splits if_splits)

lemma h3_run_append: "h3_run L srv ls s s1 \<Longrightarrow> h3_run L srv ls' s1 s' \<Longrightarrow> h3_run L srv (ls @ ls') s s'"
  by (induction rule: h3_run.induct) (auto intro: h3_run.intros)

lemma respEventLoop_run:
  "respEventLoop reads s = Some s' \<Longrightarrow> resp_turn_of s = Waiting \<Longrightarrow>
     h3_run L srv (resp_labels (ring_events decode_resHeader reads)) s s'"
  unfolding respEventLoop_def
proof (induction decode_resHeader handle_resp reads s rule: ring_loop.induct)
  case (4 now raw reads s)
  show ?case
  proof (cases "decode_resHeader raw")
    case (Some rv)
    with "4.prems"(1) obtain s1 where s1: "handle_resp now rv s = Some s1" "ring_loop decode_resHeader handle_resp reads s1 = Some s'"
      by (auto split: bind_splits)
    note step = handle_resp_run [OF "4.prems"(2) s1(1)]
    have "h3_run L srv (resp_labels [(now, rv)] @ resp_labels (ring_events decode_resHeader reads)) s s'"
      using h3_run_append [OF step(2) "4.hyps"(2) [OF Some s1 step(1)]] .
    then show ?thesis by (simp add: Some)
  qed (use 4 in auto)
qed (auto simp: h3_run_Nil)

section \<open>The contract of a reader\<close>

text \<open>
  A reader of a part of a sample undoes its writer, and succeeds exactly on what is long enough.
\<close>

locale codec =
  fixes get :: "bytes \<Rightarrow> ('a \<times> bytes) option" and put :: "'a \<Rightarrow> bytes" and good :: "'a \<Rightarrow> bool" and size :: nat
  assumes get_put: "good x \<Longrightarrow> get (put x @ rest) = Some (x, rest)"
    and get_size: "size \<le> length raw \<Longrightarrow> \<exists>x. get raw = Some (x, drop size raw) \<and> good x \<and> put x = take size raw"
    and get_short: "length raw < size \<Longrightarrow> get raw = None"
begin

lemma get_SomeD:
  assumes "get raw = Some (x, rest)"
  shows "raw = put x @ rest \<and> good x \<and> length raw = size + length rest"
proof -
  have long: "size \<le> length raw" using assms get_short [of raw] by (cases "size \<le> length raw") auto
  with get_size [OF long] assms show ?thesis by auto
qed

lemma bind_None:
  assumes "\<And>x rest. f x rest = None \<longleftrightarrow> length rest < m"
  shows "Option.bind (get raw) (\<lambda>(x, rest). f x rest) = None \<longleftrightarrow> length raw < size + m"
proof (cases "size \<le> length raw")
  case True
  with get_size [OF True] assms show ?thesis by auto
qed (simp add: get_short)

lemma bind_put: "good x \<Longrightarrow> Option.bind (get (put x @ rest)) (\<lambda>(x, rest). f x rest) = f x rest"
  by (simp add: get_put)

lemma get_None: "get raw = None \<longleftrightarrow> length raw < size"
  using get_size [of raw] get_short [of raw] by (cases "size \<le> length raw") auto

end

lemma le_val_bytes: "le_val (le_bytes n v) = v mod 256 ^ n"
proof (induction n arbitrary: v)
  case (Suc n)
  have "v mod (256 * 256 ^ n) = 256 * (v div 256 mod 256 ^ n) + v mod 256" by (rule mod_mult2_eq)
  with Suc show ?case by (simp add: take_bit_eq_mod [symmetric])
qed simp

lemma char_of_add_256: "char_of (of_char b + 256 * v :: nat) = b"
proof -
  have "char_of (of_char b + 256 * v) = (char_of ((of_char b + 256 * v) mod 256) :: char)" by (simp only: char_of_mod_256)
  also have "(of_char b + 256 * v) mod 256 = (of_char b :: nat)" by simp
  finally show ?thesis by simp
qed

lemma le_bytes_val: "le_bytes (length bs) (le_val bs) = bs"
  by (induction bs) (simp_all add: char_of_add_256)

lemma length_le_bytes [simp]: "length (le_bytes n v) = n"
  by (induction n arbitrary: v) auto

lemma get_word_codec:
  assumes "LENGTH('a) = 8 * n"
  shows "codec (get_word n :: bytes \<Rightarrow> ('a::len word \<times> bytes) option) (\<lambda>w. le_bytes n (unat w)) (\<lambda>w. True) n"
proof
  fix w :: "'a word" and rest raw :: bytes
  have "unat w < 256 ^ n" using unsigned_less [of w, where ?'a = nat] by (simp add: assms power_mult)
  then show "get_word n (le_bytes n (unat w) @ rest) = Some (w, rest)"
    by (simp add: get_word_def le_val_bytes)
  assume long: "n \<le> length raw"
  have "le_val bs < 256 ^ length bs" for bs :: bytes
  proof (induction bs)
    case (Cons b bs)
    have "of_char b + 256 * le_val bs < 256 + 256 * le_val bs" by simp
    also have "\<dots> \<le> 256 * 256 ^ length bs" using Cons by simp
    finally show ?case by simp
  qed simp
  from this [of "take n raw"] long have "le_val (take n raw) < 2 ^ LENGTH('a)" by (simp add: assms power_mult)
  then have "unat (of_nat (le_val (take n raw)) :: 'a word) = le_val (take n raw)"
    by (simp add: unat_of_nat take_bit_nat_eq_self)
  with long le_bytes_val [of "take n raw"]
  show "\<exists>x :: 'a word. get_word n raw = Some (x, drop n raw) \<and> True \<and> le_bytes n (unat x) = take n raw"
    by (simp add: get_word_def)
qed (simp add: get_word_def)

interpretation u16: codec "get_word 2 :: bytes \<Rightarrow> (u16 \<times> bytes) option" "\<lambda>w. le_bytes 2 (unat w)" "\<lambda>w. True" 2
  by (rule get_word_codec) simp

interpretation u32: codec "get_word 4 :: bytes \<Rightarrow> (u32 \<times> bytes) option" "\<lambda>w. le_bytes 4 (unat w)" "\<lambda>w. True" 4
  by (rule get_word_codec) simp

interpretation u64: codec "get_word 8 :: bytes \<Rightarrow> (u64 \<times> bytes) option" "\<lambda>w. le_bytes 8 (unat w)" "\<lambda>w. True" 8
  by (rule get_word_codec) simp

interpretation array: codec "get_array n" "\<lambda>b. b" "\<lambda>b. length b = n" n for n
  by unfold_locales (auto simp: get_array_def)

section \<open>Structs\<close>

definition encode_sslbuffer :: "sslbuffer \<Rightarrow> bytes" where
  "encode_sslbuffer ev = le_bytes 8 (unat (Timens ev)) @ le_bytes 4 (unat (Tid ev)) @ le_bytes 4 (unat (Pid ev)) @
     le_bytes 4 (unat (Len ev)) @ le_bytes 4 (unat (Dir ev)) @ le_bytes 8 (unat (SSL_ptr ev)) @
     le_bytes 2 (unat (Family ev)) @ le_bytes 2 (unat (Client_port ev)) @ le_bytes 2 (unat (Server_port ev)) @
     Client_ip ev @ Server_ip ev @ Buf ev"

definition sslbuffer_typed :: "sslbuffer \<Rightarrow> bool" where
  "sslbuffer_typed ev \<longleftrightarrow> length (Client_ip ev) = 16 \<and> length (Server_ip ev) = 16 \<and> length (Buf ev) = 8192"

lemmas codec_binds = u16.bind_None u32.bind_None u64.bind_None array.bind_None

lemma Some_None_length: "Some x = None \<longleftrightarrow> length (raw :: bytes) < 0"
  by simp

lemma decode_sslbuffer_None: "decode_sslbuffer raw = None \<longleftrightarrow> length raw < 8262"
proof -
  have "decode_sslbuffer raw = None \<longleftrightarrow>
      length raw < 8 + (4 + (4 + (4 + (4 + (8 + (2 + (2 + (2 + (16 + (16 + (8192 + 0)))))))))))"
    unfolding decode_sslbuffer_def by (intro codec_binds Some_None_length)
  then show ?thesis by simp
qed

lemma decode_reqHeader_None: "decode_reqHeader raw = None \<longleftrightarrow> length raw < 752"
proof -
  have "decode_reqHeader raw = None \<longleftrightarrow>
      length raw < 8 + (8 + (8 + (8 + (4 + (4 + (4 + (128 + (512 + (4 + (64 + 0))))))))))"
    unfolding decode_reqHeader_def by (intro codec_binds Some_None_length)
  then show ?thesis by simp
qed

lemma decode_resHeader_None: "decode_resHeader raw = None \<longleftrightarrow> length raw < 756"
proof -
  have "decode_resHeader raw = None \<longleftrightarrow>
      length raw < 8 + (8 + (8 + (4 + (4 + (8 + (4 + (4 + (128 + (512 + (4 + (64 + 0)))))))))))"
    unfolding decode_resHeader_def by (intro codec_binds Some_None_length)
  then show ?thesis by simp
qed

lemma decode_tableEvent_None: "decode_tableEvent raw = None \<longleftrightarrow> length raw < 756"
proof -
  have "decode_tableEvent raw = None \<longleftrightarrow>
      length raw < 8 + (8 + (8 + (4 + (4 + (8 + (4 + (4 + (128 + (512 + (4 + (64 + 0)))))))))))"
    unfolding decode_tableEvent_def by (intro codec_binds Some_None_length)
  then show ?thesis by simp
qed

lemma decode_encode_sslbuffer:
  assumes "sslbuffer_typed ev"
  shows "decode_sslbuffer (encode_sslbuffer ev @ rest) = Some ev"
  using assms unfolding sslbuffer_typed_def decode_sslbuffer_def encode_sslbuffer_def append_assoc
  by (simp only: u16.bind_put u32.bind_put u64.bind_put array.bind_put simp_thms) simp

definition encode_reqHeader :: "reqHeader \<Rightarrow> bytes" where
  "encode_reqHeader ev = le_bytes 8 (unat (rq_PidTgid ev)) @ le_bytes 8 (unat (rq_TsNs ev)) @
     le_bytes 8 (unat (rq_ConnID ev)) @ le_bytes 8 (unat (rq_ReqID ev)) @ le_bytes 4 (unat (rq_Ret ev)) @
     le_bytes 4 (unat (rq_NameLen ev)) @ le_bytes 4 (unat (rq_ValueLen ev)) @ rq_Name ev @ rq_Value ev @
     le_bytes 4 (unat (rq_IpLen ev)) @ rq_Ip ev"

lemma decode_encode_reqHeader:
  assumes "length (rq_Name ev) = 128" "length (rq_Value ev) = 512" "length (rq_Ip ev) = 64"
  shows "decode_reqHeader (encode_reqHeader ev @ rest) = Some ev"
  using assms unfolding decode_reqHeader_def encode_reqHeader_def append_assoc
  by (simp only: u32.bind_put u64.bind_put array.bind_put simp_thms) simp

lemma encode_decode_sslbuffer:
  assumes "decode_sslbuffer raw = Some ev"
  shows "sslbuffer_typed ev \<and> (\<exists>rest. raw = encode_sslbuffer ev @ rest)"
  using assms unfolding decode_sslbuffer_def
  by (auto dest!: u16.get_SomeD u32.get_SomeD u64.get_SomeD array.get_SomeD
        simp: bind_eq_Some_conv sslbuffer_typed_def encode_sslbuffer_def)

lemma length_encode_sslbuffer: "sslbuffer_typed ev \<Longrightarrow> length (encode_sslbuffer ev) = 8262"
  by (simp add: encode_sslbuffer_def sslbuffer_typed_def)

text \<open>
  A raw sample of the TLS ring buffer decodes to an event exactly when its arrays have their declared
  sizes and its encoding is the first 8262 bytes of the sample. So every sample that is long enough gives
  exactly one event, and a shorter one none.
\<close>

lemma sample_decodes:
  "(decode_sslbuffer raw = Some ev \<longleftrightarrow> sslbuffer_typed ev \<and> take 8262 raw = encode_sslbuffer ev) \<and>
   (decode_sslbuffer raw = None \<longleftrightarrow> length raw < 8262)"
proof -
  have "sslbuffer_typed ev \<and> take 8262 raw = encode_sslbuffer ev" if "decode_sslbuffer raw = Some ev"
    using encode_decode_sslbuffer [OF that] length_encode_sslbuffer [of ev] by auto
  moreover have "decode_sslbuffer raw = Some ev" if "sslbuffer_typed ev" "take 8262 raw = encode_sslbuffer ev"
    using decode_encode_sslbuffer [OF that(1), of "drop 8262 raw"] that(2) append_take_drop_id [of 8262 raw] by metis
  ultimately show ?thesis using decode_sslbuffer_None by blast
qed

end
