(* ===== verification/Startup.thy ===== *)
theory Startup
  imports Samples
begin

text \<open>
  From the start of the program to its end: \<^verbatim>\<open>filter.New\<close> and \<^verbatim>\<open>filter.Close\<close>, the search for libssl, the probes
  that the two sniffers' Main attach, \<^verbatim>\<open>main\<close> and \<^verbatim>\<open>main_h3\<close>. What the kernel grants is an argument, and so is the file
  system; what is opened and closed is a trace. Only what has a Close of its own is in the trace.
\<close>

section \<open>Finding libssl\<close>

text \<open>Which paths exist, and what \<^verbatim>\<open>ldconfig -p\<close> prints if it can be run.\<close>

record host =
  Stat :: "bytes \<Rightarrow> bool"
  ldconfig :: "bytes option"

definition standardPaths :: "bytes list" where
  "standardPaths =
     [''/usr/lib/x86_64-linux-gnu/libssl.so.3'',
      ''/lib/x86_64-linux-gnu/libssl.so.3'',
      ''/usr/lib/libssl.so.3'',
      ''/usr/lib64/libssl.so.3'',
      ''/usr/lib/libssl.so.1.1'']"

fun ldconfig_path :: "bytes list \<Rightarrow> bytes option" where
  "ldconfig_path [] = None"
| "ldconfig_path (line # ls) =
     (if Contains line ''libssl.so'' then
        (case Split line ''=> '' of
           [_, path] \<Rightarrow> Some (TrimSpace path)
         | _ \<Rightarrow> ldconfig_path ls)
      else ldconfig_path ls)"

definition findLibSSLPath :: "host \<Rightarrow> bytes option" where
  "findLibSSLPath H =
     (case find (Stat H) standardPaths of
        Some path \<Rightarrow> Some path
      | None \<Rightarrow> (case ldconfig H of None \<Rightarrow> None | Some out \<Rightarrow> ldconfig_path (Split out [newline])))"

section \<open>Resources\<close>

text \<open>
  A probe has the symbol that it is attached to and the program that runs there, under the name that it
  has in the loaded objects.
\<close>

datatype resource =
  Memlock
| Objects bytes
| Executable bytes
| Uprobe bytes bytes bytes
| Uretprobe bytes bytes bytes
| Kretprobe bytes bytes
| Reader bytes
| Interface bytes
| XDP bytes

text \<open>What has a Close of its own. The memory limit, an opened executable and an interface's index have none.\<close>

fun closable :: "resource \<Rightarrow> bool" where
  "closable Memlock = False"
| "closable (Executable path) = False"
| "closable (Interface ifaceName) = False"
| "closable r = True"

datatype action = Opened resource | Closed resource

text \<open>What is held after a trace. Closing anything but what was opened last, or what is not held, is an error.\<close>

fun holding :: "action list \<Rightarrow> resource list \<Rightarrow> resource list option" where
  "holding [] held = Some held"
| "holding (Opened r # tr) held = holding tr (r # held)"
| "holding (Closed r # tr) [] = None"
| "holding (Closed r # tr) (r' # held) = (if r = r' then holding tr held else None)"

text \<open>
  A sequence of steps, each of which ends the process when it is not granted. All that has a Close is in
  the trace once it is granted. A step that a deferred Close follows in the code is marked; the deferred
  calls come back last first.
\<close>

fun acquire :: "(resource \<Rightarrow> bool) \<Rightarrow> (resource \<times> bool) list \<Rightarrow> action list \<times> resource list \<times> resource option" where
  "acquire grants [] = ([], [], None)"
| "acquire grants ((r, deferred) # steps) =
     (if \<not> grants r then ([], [], Some r)
      else (let (tr, ds, failed) = acquire grants steps
            in (if closable r then Opened r # tr else tr, if deferred then ds @ [r] else ds, failed)))"

lemma holding_append: "holding (tr @ tr') held = Option.bind (holding tr held) (holding tr')"
  by (induction tr held rule: holding.induct) auto

lemma holding_opens: "holding (map Opened rs) held = Some (rev rs @ held)"
  by (induction rs arbitrary: held) auto

lemma holding_closes: "holding (map Closed ds) (ds @ held) = Some held"
  by (induction ds) auto

lemma acquire_eq:
  "acquire grants steps =
     (map Opened (filter closable (takeWhile grants (map fst steps))),
      rev (map fst (filter snd (takeWhile (grants \<circ> fst) steps))),
      find (\<lambda>r. \<not> grants r) (map fst steps))"
  by (induction grants steps rule: acquire.induct) auto

lemma find_refused_None: "find (\<lambda>r. \<not> grants r) rs = None \<longleftrightarrow> list_all grants rs"
  by (induction rs) auto

lemma takeWhile_granted: "list_all grants rs \<Longrightarrow> takeWhile grants rs = rs"
  by (induction rs) auto

lemma acquire_granted:
  assumes "list_all grants (map fst steps)"
  shows "acquire grants steps = (map Opened (filter closable (map fst steps)), rev (map fst (filter snd steps)), None)"
proof -
  have all: "takeWhile (grants \<circ> fst) steps = steps" using assms by (induction steps) auto
  show ?thesis
    unfolding acquire_eq takeWhile_granted [OF assms] all by (simp add: assms find_refused_None [THEN iffD2])
qed

section \<open>The filter\<close>

definition filter_New :: "(resource \<Rightarrow> bool) \<Rightarrow> bytes \<Rightarrow> action list \<times> resource option" where
  "filter_New grants ifaceName =
     (if \<not> grants Memlock then ([], Some Memlock)
      else if \<not> grants (Objects ''filter'') then ([], Some (Objects ''filter''))
      else if \<not> grants (Interface ifaceName)
        then ([Opened (Objects ''filter''), Closed (Objects ''filter'')], Some (Interface ifaceName))
      else if \<not> grants (XDP ifaceName)
        then ([Opened (Objects ''filter''), Closed (Objects ''filter'')], Some (XDP ifaceName))
      else ([Opened (Objects ''filter''), Opened (XDP ifaceName)], None))"

definition filter_Close :: "bytes \<Rightarrow> action list" where
  "filter_Close ifaceName = [Closed (XDP ifaceName), Closed (Objects ''filter'')]"

section \<open>The sniffers' start\<close>

definition sniffer_probes :: "bytes \<Rightarrow> (resource \<times> bool) list" where
  "sniffer_probes path =
     [(Executable path, False),
      (Uprobe path ''SSL_read'' ''SslReadEntry'', True),
      (Uretprobe path ''SSL_read'' ''SslReadExit'', True),
      (Uprobe path ''SSL_write'' ''SslWriteEntry'', True),
      (Uretprobe path ''SSL_write'' ''SslWriteExit'', True),
      (Uprobe path ''SSL_free'' ''SslFreeEntry'', True),
      (Kretprobe ''inet_csk_accept'' ''InetCskAcceptExit'', True),
      (Kretprobe ''__x64_sys_accept'' ''AcceptExit'', True),
      (Kretprobe ''__x64_sys_accept4'' ''Accept4Exit'', True),
      (Uprobe path ''SSL_set_fd'' ''SslSetFd'', True),
      (Reader ''ringbuf'', True)]"

definition h3_probes :: "bytes \<Rightarrow> (resource \<times> bool) list" where
  "h3_probes binPath =
     [(Executable binPath, False),
      (Uprobe binPath ''ngx_http_v3_parse_headers'' ''EntryParseHeaders'', True),
      (Uretprobe binPath ''ngx_http_v3_parse_headers'' ''RetParseHeaders'', True),
      (Uprobe binPath ''ngx_http_v3_encode_field_lri'' ''EntryEncodeFieldLri'', True),
      (Uprobe binPath ''ngx_http_v3_insert'' ''EntryInsert'', True),
      (Uprobe binPath ''ngx_http_v3_ref_insert'' ''EntryRefInsert'', True),
      (Uprobe binPath ''ngx_http_v3_duplicate'' ''EntryDuplicate'', True),
      (Reader ''events'', True), (Reader ''resp_events'', True), (Reader ''table_events'', True)]"

text \<open>
  How a run stands after the given reads: ended by \<^verbatim>\<open>log.Fatalf\<close>, which runs no deferred call, ended by a panic
  or a return, which run them, or waiting in \<^verbatim>\<open>rd.Read\<close>, when no read has said that the reader was closed.
\<close>

datatype 'd ending = Fatal resource | NoLibSSL | Panicked | Returned "'d sniffer" | Reading "'d sniffer"

definition sniffer_Main ::
  "'d libs \<Rightarrow> (resource \<Rightarrow> bool) \<Rightarrow> host \<Rightarrow> cluster \<Rightarrow> (clock \<times> ring_read) list \<Rightarrow> world \<Rightarrow> action list \<times> 'd ending" where
  "sniffer_Main L grants H C reads w =
     (case acquire grants [(Memlock, False), (Objects ''sniffer'', True)] of
        (tr, ds, Some r) \<Rightarrow> (tr, Fatal r)
      | (tr, ds, None) \<Rightarrow>
          (let w = log_init C w in
           case findLibSSLPath H of
             None \<Rightarrow> (tr, NoLibSSL)
           | Some path \<Rightarrow>
               (case acquire grants (sniffer_probes path) of
                  (tr', ds', Some r) \<Rightarrow> (tr @ tr', Fatal r)
                | (tr', ds', None) \<Rightarrow>
                    (let deferred = map Closed ds' @ map Closed ds in
                     case sniffLoop L reads (new_sniffer w) of
                       None \<Rightarrow> (tr @ tr' @ deferred, Panicked)
                     | Some s \<Rightarrow>
                         if Ring_closed \<in> snd ` set reads then (tr @ tr' @ deferred, Returned s)
                         else (tr @ tr', Reading s)))))"

definition main_tls ::
  "'d libs \<Rightarrow> (resource \<Rightarrow> bool) \<Rightarrow> host \<Rightarrow> cluster \<Rightarrow> bytes \<Rightarrow> u64 \<Rightarrow> bytes \<Rightarrow> (clock \<times> ring_read) list \<Rightarrow>
     action list \<times> 'd ending" where
  "main_tls L grants H C interfaceName now testBlockIP reads =
     (case filter_New grants interfaceName of
        (tr, Some r) \<Rightarrow> (tr, Fatal r)
      | (tr, None) \<Rightarrow>
          (let (tr', e) = sniffer_Main L grants H C reads (initial_world L now testBlockIP);
               deferred = (case e of Panicked \<Rightarrow> filter_Close interfaceName
                                   | Returned s \<Rightarrow> filter_Close interfaceName | _ \<Rightarrow> [])
           in (tr @ tr' @ deferred, e)))"

section \<open>What a run needs and holds\<close>

text \<open>
  Apart from the code of the two Mains: the programs of \<^verbatim>\<open>ssl_hook.bpf.c\<close> with the sections that their SEC lines
  name, each under its name in the loaded objects, and what attaching a program to its section takes.
\<close>

datatype hook = At_entry | At_return | Kernel_return

definition ssl_hook_programs :: "(hook \<times> bytes \<times> bytes) list" where
  "ssl_hook_programs =
     [(At_entry, ''SSL_read'', ''SslReadEntry''),
      (At_entry, ''SSL_write'', ''SslWriteEntry''),
      (At_entry, ''SSL_free'', ''SslFreeEntry''),
      (At_return, ''SSL_read'', ''SslReadExit''),
      (At_return, ''SSL_write'', ''SslWriteExit''),
      (Kernel_return, ''inet_csk_accept'', ''InetCskAcceptExit''),
      (Kernel_return, ''__x64_sys_accept'', ''AcceptExit''),
      (Kernel_return, ''__x64_sys_accept4'', ''Accept4Exit''),
      (At_entry, ''SSL_set_fd'', ''SslSetFd'')]"

fun attached :: "bytes \<Rightarrow> hook \<times> bytes \<times> bytes \<Rightarrow> resource" where
  "attached path (At_entry, symbol, prog) = Uprobe path symbol prog"
| "attached path (At_return, symbol, prog) = Uretprobe path symbol prog"
| "attached path (Kernel_return, symbol, prog) = Kretprobe symbol prog"

text \<open>
  What is open while the loop runs, in the order of opening but for the probes: the filter's objects, the
  program on the interface, the sniffer's objects, every program of theirs at its section, the ring buffer.
\<close>

definition in_service :: "bytes \<Rightarrow> bytes \<Rightarrow> resource list \<Rightarrow> bool" where
  "in_service iface path rs \<longleftrightarrow>
     (let probes = drop 3 (butlast rs) in
        rs = [Objects ''filter'', XDP iface, Objects ''sniffer''] @ probes @ [Reader ''ringbuf''] \<and>
        distinct probes \<and> set probes = attached path ` set ssl_hook_programs)"

text \<open>The steps of a run of \<^verbatim>\<open>main\<close> that can be refused, in order, up to the library and after it.\<close>

definition first_steps :: "bytes \<Rightarrow> resource list" where
  "first_steps iface = [Memlock, Objects ''filter'', Interface iface, XDP iface, Memlock, Objects ''sniffer'']"

definition main_steps :: "bytes \<Rightarrow> host \<Rightarrow> resource list" where
  "main_steps iface H =
     first_steps iface @ (case findLibSSLPath H of None \<Rightarrow> [] | Some path \<Rightarrow> map fst (sniffer_probes path))"

lemma probes_closable:
  "map fst (filter snd (sniffer_probes path)) = filter closable (map fst (sniffer_probes path))"
  by (simp add: sniffer_probes_def)

lemma probes_in_service:
  "in_service iface path
     (Objects ''filter'' # XDP iface # Objects ''sniffer'' # filter closable (map fst (sniffer_probes path)))"
  unfolding in_service_def Let_def by (auto simp: sniffer_probes_def ssl_hook_programs_def)

lemma filter_New_eq:
  "filter_New grants iface =
     (case find (\<lambda>r. \<not> grants r) [Memlock, Objects ''filter'', Interface iface, XDP iface] of
        None \<Rightarrow> ([Opened (Objects ''filter''), Opened (XDP iface)], None)
      | Some r \<Rightarrow> (fst (filter_New grants iface), Some r))"
  by (simp add: filter_New_def)

lemma filter_New_refused:
  "snd (filter_New grants iface) = Some r \<Longrightarrow> holding (fst (filter_New grants iface)) held = Some held"
  by (auto simp: filter_New_def split: if_splits)

lemma filter_New_granted:
  "snd (filter_New grants iface) = None \<longleftrightarrow>
     list_all grants [Memlock, Objects ''filter'', Interface iface, XDP iface]"
  by (simp add: filter_New_def)

lemma filter_Close_eq: "filter_Close iface = map Closed (rev [Objects ''filter'', XDP iface])"
  by (simp add: filter_Close_def)

text \<open>The part of a run after the filter is there.\<close>

lemma sniffer_Main_eq:
  "sniffer_Main L grants H C reads w =
     (if \<not> grants Memlock then ([], Fatal Memlock)
      else if \<not> grants (Objects ''sniffer'') then ([], Fatal (Objects ''sniffer''))
      else case findLibSSLPath H of
        None \<Rightarrow> ([Opened (Objects ''sniffer'')], NoLibSSL)
      | Some path \<Rightarrow>
          (let steps = map fst (sniffer_probes path);
               opened = Objects ''sniffer'' # filter closable (takeWhile grants steps)
           in case find (\<lambda>r. \<not> grants r) steps of
                Some r \<Rightarrow> (map Opened opened, Fatal r)
              | None \<Rightarrow>
                  (case sniffLoop L reads (new_sniffer (log_init C w)) of
                     None \<Rightarrow> (map Opened opened @ map Closed (rev opened), Panicked)
                   | Some s \<Rightarrow>
                       if Ring_closed \<in> snd ` set reads then (map Opened opened @ map Closed (rev opened), Returned s)
                       else (map Opened opened, Reading s))))"
proof (cases "findLibSSLPath H")
  case None
  then show ?thesis by (simp add: sniffer_Main_def Let_def)
next
  case (Some path)
  let ?steps = "map fst (sniffer_probes path)"
  show ?thesis
  proof (cases "find (\<lambda>r. \<not> grants r) ?steps")
    case None
    then have granted: "list_all grants ?steps" by (simp only: find_refused_None)
    show ?thesis
      using None acquire_granted [OF granted] takeWhile_granted [OF granted, THEN arg_cong, of "filter closable"]
      by (simp add: sniffer_Main_def Let_def Some probes_closable rev_map split: option.split)
  next
    case (Some r)
    then show ?thesis
      using \<open>findLibSSLPath H = Some path\<close> acquire_eq [of grants "sniffer_probes path"]
      by (simp add: sniffer_Main_def Let_def)
  qed
qed

text \<open>How a run ends is determined by the first step refused, the library, the loop, and whether the reader was closed.\<close>

lemma main_ending:
  "snd (main_tls L grants H C iface t ip reads) =
     (case find (\<lambda>r. \<not> grants r) (main_steps iface H) of
        Some r \<Rightarrow> Fatal r
      | None \<Rightarrow>
          if findLibSSLPath H = None then NoLibSSL
          else (case sniffLoop L reads (new_sniffer (start_world L t ip C)) of
                  None \<Rightarrow> Panicked
                | Some s \<Rightarrow> if Ring_closed \<in> snd ` set reads then Returned s else Reading s))"
  unfolding main_tls_def main_steps_def first_steps_def sniffer_Main_eq started_world
  by (subst filter_New_eq) (auto simp: Let_def split: option.split)

text \<open>What it has opened and closed by then.\<close>

lemma main_trace:
  "case main_tls L grants H C iface t ip reads of (tr, e) \<Rightarrow>
     (case e of
        Fatal r \<Rightarrow>
          holding tr [] = Some (if r \<in> {Memlock, Objects ''filter'', Interface iface, XDP iface} then []
            else rev (filter closable (takeWhile grants (main_steps iface H))))
      | NoLibSSL \<Rightarrow> holding tr [] = Some [Objects ''sniffer'', XDP iface, Objects ''filter'']
      | Reading s \<Rightarrow>
          \<exists>path opened. findLibSSLPath H = Some path \<and> in_service iface path opened \<and> tr = map Opened opened
      | _ \<Rightarrow>
          \<exists>path opened. findLibSSLPath H = Some path \<and> in_service iface path opened \<and>
            tr = map Opened opened @ map Closed (rev opened))"
proof (cases "snd (filter_New grants iface)")
  case (Some r)
  then have "r \<in> {Memlock, Objects ''filter'', Interface iface, XDP iface}"
    by (auto simp: filter_New_def split: if_splits)
  with Some filter_New_refused [OF Some, of "[]"] show ?thesis
    by (cases "filter_New grants iface") (simp add: main_tls_def)
next
  case None
  then have new: "filter_New grants iface = ([Opened (Objects ''filter''), Opened (XDP iface)], None)"
    and granted: "list_all grants [Memlock, Objects ''filter'', Interface iface, XDP iface]"
    unfolding filter_New_granted by (simp_all add: filter_New_def)
  show ?thesis
  proof (cases "grants (Objects ''sniffer'') \<and> findLibSSLPath H \<noteq> None")
    case False
    with granted show ?thesis
      by (auto simp: main_tls_def new sniffer_Main_eq main_steps_def first_steps_def split: option.split)
  next
    case True
    then obtain path where path: "findLibSSLPath H = Some path" "grants (Objects ''sniffer'')" by auto
    note opened = probes_in_service [of iface path]
    show ?thesis
    proof (cases "find (\<lambda>r. \<not> grants r) (map fst (sniffer_probes path))")
      case None
      then have "list_all grants (map fst (sniffer_probes path))" by (simp only: find_refused_None)
      note all = takeWhile_granted [OF this, THEN arg_cong, of "filter closable"]
      let ?opened = "Objects ''filter'' # XDP iface # Objects ''sniffer'' # filter closable (map fst (sniffer_probes path))"
      let ?loop = "sniffLoop L reads (new_sniffer (log_init C (initial_world L t ip)))"
      have run: "main_tls L grants H C iface t ip reads =
          (case ?loop of
             None \<Rightarrow> (map Opened ?opened @ map Closed (rev ?opened), Panicked)
           | Some s \<Rightarrow> if Ring_closed \<in> snd ` set reads then (map Opened ?opened @ map Closed (rev ?opened), Returned s)
                       else (map Opened ?opened, Reading s))"
        using None granted path
        by (simp add: main_tls_def new sniffer_Main_eq Let_def filter_Close_eq all split: option.split)
      have "\<exists>p rs. findLibSSLPath H = Some p \<and> in_service iface p rs \<and> map Opened ?opened = map Opened rs"
        "\<exists>p rs. findLibSSLPath H = Some p \<and> in_service iface p rs \<and>
           map Opened ?opened @ map Closed (rev ?opened) = map Opened rs @ map Closed (rev rs)"
        using path(1) opened by blast+
      then show ?thesis unfolding run by (cases ?loop) (simp_all only: option.case prod.case ending.case split: if_split, blast+)
    next
      case (Some r)
      then have "r \<in> set (map fst (sniffer_probes path))" unfolding find_Some_iff using nth_mem by blast
      then have "r \<notin> {Memlock, Objects ''filter'', Interface iface, XDP iface}"
        by (auto simp: sniffer_probes_def)
      with Some granted path show ?thesis
        by (simp add: main_tls_def new sniffer_Main_eq Let_def main_steps_def first_steps_def holding_append holding_opens)
    qed
  qed
qed

text \<open>
  C9: How \<^verbatim>\<open>main\<close> ends, or that it goes on reading, and what it has open then. It ends in a fatal error exactly
  at the first step that is refused, and without a libssl if nothing is refused up to the search for it; it
  panics exactly if the loop does, returns exactly if the loop ends on a closed reader, and otherwise
  reads on, on the world with logging set up and the configured address blocked. While it reads, the
  filter is on the interface and every program of \<^verbatim>\<open>ssl_hook.bpf.c\<close> is attached, once, where its section
  says. On a return or a panic all of that is closed, last opened first closed. A failing \<^verbatim>\<open>New\<close> leaves
  nothing open, and a later fatal error all that was opened.
\<close>

theorem main_runs:
  "case main_tls L grants H C iface t ip reads of (tr, e) \<Rightarrow>
     e = (case find (\<lambda>r. \<not> grants r) (main_steps iface H) of
        Some r \<Rightarrow> Fatal r
      | None \<Rightarrow>
          if findLibSSLPath H = None then NoLibSSL
          else (case sniffLoop L reads (new_sniffer (start_world L t ip C)) of
                  None \<Rightarrow> Panicked
                | Some s \<Rightarrow> if Ring_closed \<in> snd ` set reads then Returned s else Reading s)) \<and>
     (case e of
        Fatal r \<Rightarrow>
          holding tr [] = Some (if r \<in> {Memlock, Objects ''filter'', Interface iface, XDP iface} then []
            else rev (filter closable (takeWhile grants (main_steps iface H))))
      | NoLibSSL \<Rightarrow> holding tr [] = Some [Objects ''sniffer'', XDP iface, Objects ''filter'']
      | Reading s \<Rightarrow>
          \<exists>path opened. findLibSSLPath H = Some path \<and> in_service iface path opened \<and> tr = map Opened opened
      | _ \<Rightarrow>
          \<exists>path opened. findLibSSLPath H = Some path \<and> in_service iface path opened \<and>
            tr = map Opened opened @ map Closed (rev opened))"
  using main_ending [where L = L and grants = grants and H = H and C = C and iface = iface and t = t and ip = ip and reads = reads]
    main_trace [where L = L and grants = grants and H = H and C = C and iface = iface and t = t and ip = ip and reads = reads]
  unfolding split_beta by (rule conjI)

text \<open>The log and the terminal of a run of \<^verbatim>\<open>main\<close> on raw samples.\<close>

lemma main_run_masked:
  assumes "snd (main_tls L grants H C iface t ip reads) \<in> {Returned s, Reading s}"
  shows "list_all (event_masked L) (eventQueue (w_logger (outside s))) \<and> list_all (printed_masked L) (w_printed (outside s))"
proof -
  from assms have "sniff L (ring_events decode_sslbuffer reads) (new_sniffer (start_world L t ip C)) = Some s"
    unfolding main_ending by (auto simp: sniffLoop_events split: option.splits if_splits)
  moreover have "world_masked L (start_world L t ip C)"
    by (simp add: world_masked_def start_world_def Init_enables_logging new_logger_def)
  ultimately have "world_masked L (outside s)" using masked_log.sniff_kept by (fastforce simp: new_sniffer_def)
  then show ?thesis by (simp add: world_masked_def)
qed

section \<open>The HTTP/3 sniffer's start\<close>

text \<open>The flags of the command line that are set.\<close>

record flags =
  nginx_bin :: "bytes option"
  listen :: "bytes option"

text \<open>
  Its Main up to its loops: what it opened, and what stopped it, or the server address it reports, the
  world it serves and the deferred calls. They run when the loop over the requests returns.
\<close>

datatype h3_start = H3_Fatal resource | H3_Serving "bytes \<times> u16" world "resource list"

definition h3_Main :: "(resource \<Rightarrow> bool) \<Rightarrow> cluster \<Rightarrow> flags \<Rightarrow> world \<Rightarrow> action list \<times> h3_start" where
  "h3_Main grants C F w =
     (let binPath = (case nginx_bin F of None \<Rightarrow> ''/usr/bin/nginx'' | Some path \<Rightarrow> path);
          server = server_of (case listen F of None \<Rightarrow> [] | Some addr \<Rightarrow> addr)
      in case acquire grants [(Memlock, False), (Objects ''h3'', True)] of
           (tr, ds, Some r) \<Rightarrow> (tr, H3_Fatal r)
         | (tr, ds, None) \<Rightarrow>
             (let w = log_init C w in
              case acquire grants (h3_probes binPath) of
                (tr', ds', Some r) \<Rightarrow> (tr @ tr', H3_Fatal r)
              | (tr', ds', None) \<Rightarrow> (tr @ tr', H3_Serving server w (ds' @ ds))))"

text \<open>
  It serves exactly if all is granted, with every program of \<^verbatim>\<open>http3_headers.bpf.c\<close> at the section of its SEC line
  and a reader for each of the three ring buffers; then the deferred calls close all that is open, last
  opened first closed. If not, it names the first that was not granted.
\<close>

definition h3_programs :: "(hook \<times> bytes \<times> bytes) list" where
  "h3_programs =
     [(At_entry, ''ngx_http_v3_parse_headers'', ''EntryParseHeaders''),
      (At_return, ''ngx_http_v3_parse_headers'', ''RetParseHeaders''),
      (At_entry, ''ngx_http_v3_encode_field_lri'', ''EntryEncodeFieldLri''),
      (At_entry, ''ngx_http_v3_insert'', ''EntryInsert''),
      (At_entry, ''ngx_http_v3_ref_insert'', ''EntryRefInsert''),
      (At_entry, ''ngx_http_v3_duplicate'', ''EntryDuplicate'')]"

lemma h3_Main_run:
  fixes F
  defines "path \<equiv> case nginx_bin F of None \<Rightarrow> ''/usr/bin/nginx'' | Some path \<Rightarrow> path"
  shows "case h3_Main grants C F w of
      (tr, H3_Fatal r) \<Rightarrow> find (\<lambda>r. \<not> grants r) ([Memlock, Objects ''h3''] @ map fst (h3_probes path)) = Some r
    | (tr, H3_Serving server w' ds) \<Rightarrow>
        server = server_of (case listen F of None \<Rightarrow> [] | Some addr \<Rightarrow> addr) \<and>
        w' = log_init C w \<and>
        ds = rev ([Objects ''h3''] @ map (attached path) h3_programs @
               [Reader ''events'', Reader ''resp_events'', Reader ''table_events'']) \<and>
        tr = map Opened (rev ds)"
proof (cases "find (\<lambda>r. \<not> grants r) (map fst (h3_probes path))")
  case None
  then have "list_all grants (map fst (h3_probes path))" by (simp only: find_refused_None)
  from None acquire_granted [OF this] show ?thesis
    by (simp add: h3_Main_def path_def [symmetric] Let_def) (simp add: h3_probes_def h3_programs_def)
next
  case (Some r)
  then show ?thesis by (simp add: h3_Main_def path_def [symmetric] Let_def acquire_eq [of grants "h3_probes path"])
qed

text \<open>In \<^verbatim>\<open>main_h3\<close> both sniffers set up logging; the second time changes nothing but the workers.\<close>

lemma log_init_twice: "log_init C (log_init C w) = log_init C w"
  by (simp add: log_init_def Init_def split_beta Let_def)

text \<open>
  \<^verbatim>\<open>main_h3\<close>: the filter as in \<^verbatim>\<open>main\<close>, the block, then both Mains on one world, one of them in a goroutine.
  What they do from there is \<open>program_step\<close> of theory \<open>Program\<close>, from the world given here.
\<close>

definition main_h3 ::
  "'d libs \<Rightarrow> (resource \<Rightarrow> bool) \<Rightarrow> bytes \<Rightarrow> u64 \<Rightarrow> bytes \<Rightarrow> action list \<times> (resource + world)" where
  "main_h3 L grants interfaceName now testBlockIP =
     (case filter_New grants interfaceName of
        (tr, Some r) \<Rightarrow> (tr, Inl r)
      | (tr, None) \<Rightarrow> (tr, Inr (initial_world L now testBlockIP)))"

lemma main_h3_world:
  "snd (main_h3 L grants iface t ip) = Inr w \<longleftrightarrow>
     list_all grants [Memlock, Objects ''filter'', Interface iface, XDP iface] \<and> w = initial_world L t ip"
  using filter_New_granted [of grants iface] by (auto simp: main_h3_def split: prod.splits option.splits)

text \<open>So with all granted whatever it reaches is masked and its blocks are justified.\<close>

lemma main_h3_masked:
  assumes "snd (main_h3 L grants iface t ip) = Inr w" "reachable L srv w (s, h)"
  shows "list_all (event_masked L) (eventQueue (w_logger (outside s))) \<and> list_all (printed_masked L) (w_printed (outside s))"
proof -
  have "world_masked L w" using assms(1) by (simp add: main_h3_world world_masked_def initial_world_def new_logger_def)
  from program_log.reachable_kept [OF assms(2) this] have "world_masked L (outside s)" unfolding fst_conv by (rule conjunct1)
  then show ?thesis by (simp add: world_masked_def)
qed

section \<open>Which libssl\<close>

text \<open>
  A standard path that exists is taken, the first in order; otherwise a line of ldconfig's that names
  libssl and has one arrow, and of that what follows the arrow, without white space around it.
\<close>

lemma ldconfig_path_SomeD:
  "ldconfig_path ls = Some p \<Longrightarrow>
     \<exists>line a b. line \<in> set ls \<and> Contains line ''libssl.so'' \<and> Split line ''=> '' = [a, b] \<and> p = TrimSpace b"
  by (induction ls) (auto split: if_splits list.splits)

lemma findLibSSLPath_SomeD:
  assumes "findLibSSLPath H = Some p"
  shows "(p \<in> set standardPaths \<and> Stat H p) \<or>
    (list_all (\<lambda>q. \<not> Stat H q) standardPaths \<and> (\<exists>out line a b. ldconfig H = Some out \<and> line \<in> set (Split out [newline]) \<and>
       Contains line ''libssl.so'' \<and> Split line ''=> '' = [a, b] \<and> p = TrimSpace b))"
proof (cases "find (Stat H) standardPaths")
  case None
  with assms show ?thesis
    by (auto simp: findLibSSLPath_def find_None_iff list_all_iff split: option.splits dest!: ldconfig_path_SomeD)
next
  case (Some q)
  with assms show ?thesis by (auto simp: findLibSSLPath_def find_Some_iff in_set_conv_nth)
qed

end
