(* ===== verification/Ssl_Probes.thy ===== *)
theory Ssl_Probes
  imports Samples
begin

text \<open>
  The probes on nginx's TLS library, \<^verbatim>\<open>src/bpf/ssl_hook.bpf.c\<close>: they follow a connection from accept to its file
  descriptor and from there to the SSL object, and turn every read and write into a sample for the Go
  program. The kernel's answers are arguments: the process, the clock, user memory, the memory that the
  ring buffer reserves (with what was in it before), whether a map has room. That the LRU maps may forget
  an entry is a step of its own.
\<close>

section \<open>Data\<close>

record ssl_state =
  st_buf :: u64
  st_ssl :: u64

record conn_info =
  ci_family :: u16
  ci_client_port :: u16
  ci_server_port :: u16
  ci_client_ip :: bytes
  ci_server_ip :: bytes

record ssl_maps =
  bufs :: "u32 \<rightharpoonup> ssl_state"
  tid_to_conn :: "u32 \<rightharpoonup> conn_info"
  fd_to_conn :: "u64 \<rightharpoonup> conn_info"
  ssl_to_conn :: "u64 \<times> u32 \<rightharpoonup> conn_info"

text \<open>The process that a probe runs in.\<close>

record task =
  comm :: bytes
  tk_pid :: u32
  tk_tid :: u32

text \<open>What the helpers answer at the end of a call. \<open>user_bytes\<close> is what a read of user memory leaves in the buffer.\<close>

record exit_env =
  ktime :: u64
  reserved :: "sslbuffer option"
  user_bytes :: "u64 \<Rightarrow> nat \<Rightarrow> bytes"

text \<open>The fields of a socket that are read.\<close>

record sock =
  skc_family :: u16
  skc_v6_daddr :: bytes
  skc_v6_rcv_saddr :: bytes
  skc_daddr :: bytes
  skc_rcv_saddr :: bytes
  skc_dport :: u16
  skc_num :: u16

definition MAX_BUF_SIZE :: u32 where "MAX_BUF_SIZE = 8192"

definition is_target :: "task \<Rightarrow> bool" where
  "is_target t \<longleftrightarrow> take 6 (comm t) = ''nginx'' @ [CHR 0x00]"

text \<open>\<^verbatim>\<open>bpf_ntohs\<close> and \<^verbatim>\<open>bpf_htons\<close> on a little-endian machine.\<close>

definition swap16 :: "u16 \<Rightarrow> u16" where
  "swap16 w = push_bit 8 w OR drop_bit 8 w"

section \<open>Entry probes\<close>

text \<open>\<^verbatim>\<open>ssl_read_entry\<close> and \<^verbatim>\<open>ssl_write_entry\<close> have the same body; \<open>room\<close> is whether \<^verbatim>\<open>bufs\<close> takes the entry.\<close>

definition ssl_entry :: "bool \<Rightarrow> task \<Rightarrow> u64 \<Rightarrow> u64 \<Rightarrow> ssl_maps \<Rightarrow> ssl_maps" where
  "ssl_entry room t ssl ptr m =
     (if \<not> is_target t then m
      else if room then m\<lparr>bufs := (bufs m)(tk_tid t \<mapsto> \<lparr>st_buf = ptr, st_ssl = ssl\<rparr>)\<rparr> else m)"

definition ssl_free_entry :: "task \<Rightarrow> exit_env \<Rightarrow> u64 \<Rightarrow> ssl_maps \<Rightarrow> sslbuffer option \<times> ssl_maps" where
  "ssl_free_entry t env ssl m =
     (if \<not> is_target t then (None, m)
      else case reserved env of
        None \<Rightarrow> (None, m)
      | Some e \<Rightarrow>
          (Some (e\<lparr>Timens := ktime env, Pid := tk_pid t, Tid := tk_tid t, Len := 0, Dir := dirClose, SSL_ptr := ssl,
             Family := 0, Client_port := 0, Server_port := 0,
             Client_ip := replicate 16 CHR 0x00, Server_ip := replicate 16 CHR 0x00\<rparr>),
           m\<lparr>ssl_to_conn := (ssl_to_conn m)((ssl, tk_pid t) := None)\<rparr>))"

section \<open>Exit probes\<close>

definition captured_len :: "int \<Rightarrow> u32" where
  "captured_len ret =
     (let len = word_of_int ret;
          len = (if MAX_BUF_SIZE - 1 < len then MAX_BUF_SIZE - 1 else len)
      in len AND (MAX_BUF_SIZE - 1))"

text \<open>
  \<^verbatim>\<open>ssl_read_exit\<close> and \<^verbatim>\<open>ssl_write_exit\<close> differ in the direction only. \<open>ret\<close> is the return value as a signed integer of
  32 bits. The first bytes of the buffer are copied over what the reserved memory held.
\<close>

definition conn_fields :: "conn_info option \<Rightarrow> sslbuffer \<Rightarrow> sslbuffer" where
  "conn_fields c e =
     (case c of
        Some c \<Rightarrow> e\<lparr>Family := ci_family c, Client_port := swap16 (ci_client_port c), Server_port := swap16 (ci_server_port c),
          Client_ip := ci_client_ip c, Server_ip := ci_server_ip c\<rparr>
      | None \<Rightarrow> e\<lparr>Family := 0, Client_port := 0, Server_port := 0,
          Client_ip := replicate 16 CHR 0x00, Server_ip := replicate 16 CHR 0x00\<rparr>)"

definition ssl_exit :: "u32 \<Rightarrow> task \<Rightarrow> exit_env \<Rightarrow> int \<Rightarrow> ssl_maps \<Rightarrow> sslbuffer option \<times> ssl_maps" where
  "ssl_exit dir t env ret m =
     (case bufs m (tk_tid t) of
        None \<Rightarrow> (None, m)
      | Some st \<Rightarrow>
          (let m' = m\<lparr>bufs := (bufs m)(tk_tid t := None)\<rparr> in
           if ret \<le> 0 then (None, m')
           else
             (let len = captured_len ret in
              case reserved env of
                None \<Rightarrow> (None, m')
              | Some e \<Rightarrow>
                  (let e = e\<lparr>Timens := ktime env, Pid := tk_pid t, Tid := tk_tid t, Len := len, Dir := dir, SSL_ptr := st_ssl st,
                         Buf := user_bytes env (st_buf st) (unat len) @ drop (unat len) (Buf e)\<rparr>
                   in (Some (conn_fields (ssl_to_conn m (st_ssl st, tk_pid t)) e), m')))))"

definition ssl_read_exit :: "task \<Rightarrow> exit_env \<Rightarrow> int \<Rightarrow> ssl_maps \<Rightarrow> sslbuffer option \<times> ssl_maps" where
  "ssl_read_exit = ssl_exit dirRecv"

definition ssl_write_exit :: "task \<Rightarrow> exit_env \<Rightarrow> int \<Rightarrow> ssl_maps \<Rightarrow> sslbuffer option \<times> ssl_maps" where
  "ssl_write_exit = ssl_exit dirSend"

section \<open>From accept to the SSL object\<close>

definition sock_info :: "sock \<Rightarrow> conn_info" where
  "sock_info sk =
     (let zeros = replicate 16 CHR 0x00 in
      \<lparr>ci_family = skc_family sk, ci_client_port = skc_dport sk, ci_server_port = swap16 (skc_num sk),
       ci_client_ip = (if skc_family sk = afInet6 then skc_v6_daddr sk else skc_daddr sk @ drop 4 zeros),
       ci_server_ip = (if skc_family sk = afInet6 then skc_v6_rcv_saddr sk else skc_rcv_saddr sk @ drop 4 zeros)\<rparr>)"

definition inet_csk_accept_exit :: "task \<Rightarrow> sock option \<Rightarrow> ssl_maps \<Rightarrow> ssl_maps" where
  "inet_csk_accept_exit t sk m =
     (if \<not> is_target t then m
      else case sk of
        None \<Rightarrow> m
      | Some sk \<Rightarrow> m\<lparr>tid_to_conn := (tid_to_conn m)(tk_tid t \<mapsto> sock_info sk)\<rparr>)"

definition fd_key :: "u32 \<Rightarrow> int \<Rightarrow> u64" where
  "fd_key pid fd = push_bit 32 (ucast pid) OR ucast (word_of_int fd :: u32)"

text \<open>
  \<^verbatim>\<open>accept_exit\<close> and \<^verbatim>\<open>accept4_exit\<close> have the same body. The pointer that was looked up is read after its entry has been
  deleted; the entry's memory is taken to be unchanged until the probe ends.
\<close>

definition accept_exit :: "task \<Rightarrow> int \<Rightarrow> ssl_maps \<Rightarrow> ssl_maps" where
  "accept_exit t newfd m =
     (if \<not> is_target t then m
      else
        (let conn = tid_to_conn m (tk_tid t);
             m = m\<lparr>tid_to_conn := (tid_to_conn m)(tk_tid t := None)\<rparr>
         in case conn of
              None \<Rightarrow> m
            | Some c \<Rightarrow> if newfd < 0 then m else m\<lparr>fd_to_conn := (fd_to_conn m)(fd_key (tk_pid t) newfd \<mapsto> c)\<rparr>))"

definition ssl_set_fd :: "task \<Rightarrow> u64 \<Rightarrow> int \<Rightarrow> ssl_maps \<Rightarrow> ssl_maps" where
  "ssl_set_fd t ssl fd m =
     (if \<not> is_target t then m
      else case fd_to_conn m (fd_key (tk_pid t) fd) of
        None \<Rightarrow> m
      | Some c \<Rightarrow>
          m\<lparr>ssl_to_conn := (ssl_to_conn m)((ssl, tk_pid t) \<mapsto> c),
            fd_to_conn := (fd_to_conn m)(fd_key (tk_pid t) fd := None)\<rparr>)"

section \<open>Runs\<close>

datatype probe_call =
  Entry bool task u64 u64
| Free task exit_env u64
| Read_exit task exit_env int
| Write_exit task exit_env int
| Csk_accept task "sock option"
| Accept_exit task int
| Set_fd task u64 int
| Forget "u32 set" "u64 set" "(u64 \<times> u32) set"

fun probe :: "probe_call \<Rightarrow> ssl_maps \<Rightarrow> sslbuffer option \<times> ssl_maps" where
  "probe (Entry room t ssl ptr) m = (None, ssl_entry room t ssl ptr m)"
| "probe (Free t env ssl) m = ssl_free_entry t env ssl m"
| "probe (Read_exit t env ret) m = ssl_read_exit t env ret m"
| "probe (Write_exit t env ret) m = ssl_write_exit t env ret m"
| "probe (Csk_accept t sk) m = (None, inet_csk_accept_exit t sk m)"
| "probe (Accept_exit t fd) m = (None, accept_exit t fd m)"
| "probe (Set_fd t ssl fd) m = (None, ssl_set_fd t ssl fd m)"
| "probe (Forget tids fds ssls) m =
     (None, m\<lparr>tid_to_conn := (tid_to_conn m) |` (- tids), fd_to_conn := (fd_to_conn m) |` (- fds),
        ssl_to_conn := (ssl_to_conn m) |` (- ssls)\<rparr>)"

text \<open>The samples that a sequence of calls leaves in the ring buffer, in order, and the maps after it.\<close>

fun captured :: "probe_call list \<Rightarrow> ssl_maps \<Rightarrow> sslbuffer list \<times> ssl_maps" where
  "captured [] m = ([], m)"
| "captured (c # cs) m =
     (let (e, m) = probe c m; (es, m) = captured cs m
      in (case e of None \<Rightarrow> es | Some e \<Rightarrow> e # es, m))"

definition no_connections :: ssl_maps where
  "no_connections = \<lparr>bufs = Map.empty, tid_to_conn = Map.empty, fd_to_conn = Map.empty, ssl_to_conn = Map.empty\<rparr>"

end
