(* ===== verification/Ssl_Probes_Props.thy ===== *)
theory Ssl_Probes_Props
  imports Ssl_Probes
begin

text \<open>
  What the probes guarantee to the Go program: every sample decodes to the event that was captured, with a
  length within its buffer; and a read of a connection that was followed from its accept on carries the
  client's address and what nginx read.
\<close>

section \<open>Lengths\<close>

lemma mask_and: "(w :: u32) AND 8191 = take_bit 13 w"
  by (simp add: take_bit_eq_mask mask_eq_exp_minus_1)

lemma captured_len_bound: "unat (captured_len ret) \<le> 8191"
proof -
  have "unat (take_bit 13 w) < 2 ^ 13" for w :: u32
    unfolding unsigned_take_bit_eq by (rule take_bit_nat_less_exp)
  then have "unat (take_bit 13 w) \<le> 8191" for w :: u32 by (simp add: less_Suc_eq_le [symmetric])
  then show ?thesis by (simp add: captured_len_def Let_def MAX_BUF_SIZE_def mask_and)
qed

lemma captured_len:
  assumes "0 < ret" "ret < 2 ^ 31"
  shows "unat (captured_len ret) = min (nat ret) 8191"
proof -
  have ret: "unat (word_of_int ret :: u32) = nat ret"
    using assms by (simp add: unat_eq_nat_uint uint_word_of_int_eq take_bit_int_eq_self)
  have small: "unat (take_bit 13 w) = unat w" if "unat w \<le> 8191" for w :: u32
    using that by (simp add: unsigned_take_bit_eq take_bit_nat_eq_self)
  show ?thesis
  proof (cases "nat ret \<le> 8191")
    case True
    then have "\<not> 8191 < (word_of_int ret :: u32)" using ret by (simp add: word_less_nat_alt)
    with True small [of "word_of_int ret"] ret show ?thesis
      by (simp add: captured_len_def Let_def MAX_BUF_SIZE_def mask_and)
  next
    case False
    then have "8191 < (word_of_int ret :: u32)" using ret by (simp add: word_less_nat_alt)
    with False small [of 8191] show ?thesis
      by (simp add: captured_len_def Let_def MAX_BUF_SIZE_def mask_and)
  qed
qed

section \<open>Types\<close>

definition env_ok :: "exit_env \<Rightarrow> bool" where
  "env_ok env \<longleftrightarrow> pred_option sslbuffer_typed (reserved env) \<and> (\<forall>p n. length (user_bytes env p n) = n)"

definition sock_ok :: "sock \<Rightarrow> bool" where
  "sock_ok sk \<longleftrightarrow> length (skc_v6_daddr sk) = 16 \<and> length (skc_v6_rcv_saddr sk) = 16 \<and>
     length (skc_daddr sk) = 4 \<and> length (skc_rcv_saddr sk) = 4"

fun call_ok :: "probe_call \<Rightarrow> bool" where
  "call_ok (Free t env ssl) \<longleftrightarrow> env_ok env"
| "call_ok (Read_exit t env ret) \<longleftrightarrow> env_ok env"
| "call_ok (Write_exit t env ret) \<longleftrightarrow> env_ok env"
| "call_ok (Csk_accept t sk) \<longleftrightarrow> pred_option sock_ok sk"
| "call_ok c \<longleftrightarrow> True"

definition conn_typed :: "conn_info \<Rightarrow> bool" where
  "conn_typed c \<longleftrightarrow> length (ci_client_ip c) = 16 \<and> length (ci_server_ip c) = 16"

definition maps_typed :: "ssl_maps \<Rightarrow> bool" where
  "maps_typed m \<longleftrightarrow> (\<forall>k c. tid_to_conn m k = Some c \<longrightarrow> conn_typed c) \<and>
     (\<forall>k c. fd_to_conn m k = Some c \<longrightarrow> conn_typed c) \<and> (\<forall>k c. ssl_to_conn m k = Some c \<longrightarrow> conn_typed c)"

definition event_ok :: "sslbuffer \<Rightarrow> bool" where
  "event_ok e \<longleftrightarrow> sslbuffer_typed e \<and> unat (Len e) \<le> 8191 \<and> Dir e \<in> {dirSend, dirRecv, dirClose}"

lemma conn_fields_ok:
  assumes "sslbuffer_typed e" "pred_option conn_typed c"
  shows "sslbuffer_typed (conn_fields c e)" "Len (conn_fields c e) = Len e" "Dir (conn_fields c e) = Dir e"
  using assms by (auto simp: conn_fields_def sslbuffer_typed_def conn_typed_def split: option.split)

lemma ssl_exit_ok:
  assumes "env_ok env" "maps_typed m" "dir \<in> {dirSend, dirRecv, dirClose}"
  shows "pred_option event_ok (fst (ssl_exit dir t env ret m)) \<and> maps_typed (snd (ssl_exit dir t env ret m))"
proof -
  have conn: "pred_option conn_typed (ssl_to_conn m k)" for k
    using assms(2) by (cases "ssl_to_conn m k"; cases k) (simp_all add: maps_typed_def)
  have "sslbuffer_typed (e\<lparr>Timens := a, Pid := c, Tid := b, Len := captured_len ret, Dir := dir, SSL_ptr := d,
      Buf := user_bytes env p (unat (captured_len ret)) @ drop (unat (captured_len ret)) (Buf e)\<rparr>)"
    if "reserved env = Some e" for e a b c d p
    using assms(1) that captured_len_bound [of ret] by (auto simp: env_ok_def sslbuffer_typed_def)
  note typed = conn_fields_ok [OF this conn]
  show ?thesis
    using assms(2,3) typed captured_len_bound [of ret]
    by (auto simp: ssl_exit_def Let_def event_ok_def maps_typed_def split: option.split)
qed

lemma sock_info_ok: "sock_ok sk \<Longrightarrow> conn_typed (sock_info sk)"
  by (simp add: sock_ok_def conn_typed_def sock_info_def Let_def)

lemma probe_ok:
  assumes "call_ok c" "maps_typed m"
  shows "pred_option event_ok (fst (probe c m)) \<and> maps_typed (snd (probe c m))"
proof (cases c)
  case (Free t env ssl)
  with assms show ?thesis
    by (auto simp: ssl_free_entry_def env_ok_def event_ok_def sslbuffer_typed_def maps_typed_def split: option.split)
next
  case (Csk_accept t sk)
  with assms show ?thesis
    by (auto simp: inet_csk_accept_exit_def maps_typed_def sock_info_ok split: option.split)
next
  case (Read_exit t env ret)
  with assms ssl_exit_ok [of env m dirRecv t ret] show ?thesis by (simp add: ssl_read_exit_def)
next
  case (Write_exit t env ret)
  with assms ssl_exit_ok [of env m dirSend t ret] show ?thesis by (simp add: ssl_write_exit_def)
qed (use assms in \<open>auto simp: ssl_entry_def accept_exit_def
    ssl_set_fd_def maps_typed_def Let_def restrict_map_def split: option.splits if_splits\<close>)

lemma captured_ok:
  "list_all call_ok cs \<Longrightarrow> maps_typed m \<Longrightarrow> list_all event_ok (fst (captured cs m)) \<and> maps_typed (snd (captured cs m))"
proof (induction cs arbitrary: m)
  case (Cons c cs)
  with probe_ok [of c m] Cons.IH [of "snd (probe c m)"] show ?case
    by (auto simp: split_beta Let_def split: option.split)
qed simp

text \<open>
  C8: whatever nginx does, and however the maps forget connections, every sample that the probes leave in the
  ring buffer, with any padding after it, decodes to the event that was captured, and its length is within
  its buffer: so the Go program's slice of it never panics.
\<close>

theorem samples_decode_safely:
  assumes "list_all call_ok cs" "e \<in> set (fst (captured cs no_connections))"
  shows "decode_sslbuffer (encode_sslbuffer e @ padding) = Some e \<and> unat (Len e) \<le> 8191 \<and>
    go_slice (Buf e) 0 (int (unat (Len e))) = Some (take (unat (Len e)) (Buf e)) \<and>
    Dir e \<in> {dirSend, dirRecv, dirClose}"
proof -
  have "maps_typed no_connections" by (simp add: maps_typed_def no_connections_def)
  from captured_ok [OF assms(1) this] assms(2) have ok: "event_ok e" by (simp add: list_all_iff)
  then have "int (unat (Len e)) \<le> 8192" by (simp add: event_ok_def del: of_nat_unat)
  with ok show ?thesis
    by (simp add: event_ok_def decode_encode_sslbuffer go_slice_def sslbuffer_typed_def)
qed

section \<open>Whose data it is\<close>

text \<open>What nginx does from accepting a connection to the end of its first read, in one thread.\<close>

definition accept_and_read :: "task \<Rightarrow> sock \<Rightarrow> int \<Rightarrow> u64 \<Rightarrow> u64 \<Rightarrow> exit_env \<Rightarrow> int \<Rightarrow> probe_call list" where
  "accept_and_read t sk fd ssl ptr env ret =
     [Csk_accept t (Some sk), Accept_exit t fd, Set_fd t ssl fd, Entry True t ssl ptr, Read_exit t env ret]"

lemma accept_and_read_captured:
  assumes "is_target t" "0 \<le> fd" "0 < ret" "ret < 2 ^ 31" "reserved env = Some e0"
  shows "\<exists>e. fst (captured (accept_and_read t sk fd ssl ptr env ret) m) = [e] \<and>
    SSL_ptr e = ssl \<and> Dir e = dirRecv \<and> Family e = skc_family sk \<and>
    Client_ip e = ci_client_ip (sock_info sk) \<and> Server_ip e = ci_server_ip (sock_info sk) \<and>
    Client_port e = swap16 (skc_dport sk) \<and>
    unat (Len e) = min (nat ret) 8191 \<and>
    Buf e = user_bytes env ptr (min (nat ret) 8191) @ drop (min (nat ret) 8191) (Buf e0)"
  using assms
  by (simp add: accept_and_read_def inet_csk_accept_exit_def accept_exit_def ssl_set_fd_def ssl_entry_def
      ssl_read_exit_def ssl_exit_def conn_fields_def captured_len Let_def) (simp add: sock_info_def Let_def)

text \<open>A connection that was not followed from its accept on has the address 0.0.0.0.\<close>

lemma unknown_client:
  assumes "bufs m (tk_tid t) = Some st" "ssl_to_conn m (st_ssl st, tk_pid t) = None" "0 < ret" "reserved env = Some e0"
  shows "\<exists>e. fst (ssl_read_exit t env ret m) = Some e \<and> ipStr T (Family e) (Client_ip e) = ''0.0.0.0''"
  using assms
  by (simp add: ssl_read_exit_def ssl_exit_def conn_fields_def Let_def ipStr_def afInet6_def IP_String_def To4_def
      print_quad_def print_nat.simps digit_char_def)

end
