(* ===== verification/Xdp.thy ===== *)
theory Xdp
  imports Blocklist_Props
begin

text \<open>
  The packet filter in the kernel, \<^verbatim>\<open>src/bpf/xdp_filter.bpf.c\<close>: every packet's source address is looked up in
  the two blocklist maps that the Go program fills, and then charged to a token bucket. The longest-prefix
  lookup is the kernel's: it is a parameter, whose documented behaviour is the locale \<open>lpm_trie\<close>. Packets are
  lists of bytes; the places of their fields are those of Ethernet, IPv4 and IPv6.
\<close>

section \<open>Constants and data\<close>

definition RATE :: u64 where "RATE = 1000"
definition BURST :: u64 where "BURST = 1000"
definition NS_PER_SEC :: u64 where "NS_PER_SEC = 1000000000"
definition NS_PER_TOKEN :: u64 where "NS_PER_TOKEN = NS_PER_SEC div RATE"
definition max_entries :: nat where "max_entries = 1024"

datatype verdict = XDP_PASS | XDP_DROP

record buckets =
  last_updated_at :: u64
  tokens :: u64

record xdp =
  block_maps :: filter_maps
  ratelimit_per_ipv4 :: "u32 \<rightharpoonup> buckets"
  ratelimit_per_ipv6 :: "bytes \<rightharpoonup> buckets"

section \<open>Prefixes\<close>

text \<open>The bits of an address from the first, and the addresses that a prefix covers.\<close>

definition byte_bits :: "byte \<Rightarrow> bool list" where
  "byte_bits c = [digit7 c, digit6 c, digit5 c, digit4 c, digit3 c, digit2 c, digit1 c, digit0 c]"

definition addr_bits :: "bytes \<Rightarrow> bool list" where
  "addr_bits a = concat (map byte_bits a)"

definition covers :: "nat \<times> bytes \<Rightarrow> bytes \<Rightarrow> bool" where
  "covers p addr \<longleftrightarrow> take (fst p) (addr_bits (snd p)) = take (fst p) (addr_bits addr)"

definition view4 :: "LPMKey \<Rightarrow> nat \<times> bytes" where
  "view4 k = (unat (PrefixLen k), put_le32 (key_IP k))"

definition view6 :: "LPMKey6 \<Rightarrow> nat \<times> bytes" where
  "view6 k = (unat (PrefixLen6 k), key_IP6 k)"

text \<open>
  A lookup in a longest-prefix-match map: the key of an entry that covers the address, of greatest length
  among those, and none only if no entry covers it.
\<close>

locale lpm_trie =
  fixes view :: "'k \<Rightarrow> nat \<times> bytes" and lookup :: "('k \<times> BlockInfo) list \<Rightarrow> bytes \<Rightarrow> 'k option"
  assumes lookup_Some: "lookup m addr = Some k \<Longrightarrow> k \<in> fst ` set m \<and> covers (view k) addr"
    and lookup_longest: "lookup m addr = Some k \<Longrightarrow> k' \<in> fst ` set m \<Longrightarrow> covers (view k') addr \<Longrightarrow>
      fst (view k') \<le> fst (view k)"
    and lookup_None: "lookup m addr = None \<Longrightarrow> k \<in> fst ` set m \<Longrightarrow> \<not> covers (view k) addr"

record lpm_lib =
  lookup4 :: "(LPMKey \<times> BlockInfo) list \<Rightarrow> bytes \<Rightarrow> LPMKey option"
  lookup6 :: "(LPMKey6 \<times> BlockInfo) list \<Rightarrow> bytes \<Rightarrow> LPMKey6 option"

definition lpm_ok :: "lpm_lib \<Rightarrow> bool" where
  "lpm_ok K \<longleftrightarrow> lpm_trie view4 (lookup4 K) \<and> lpm_trie view6 (lookup6 K)"

section \<open>The two checks\<close>

definition check_block :: "BlockInfo \<Rightarrow> u64 \<Rightarrow> verdict \<times> BlockInfo" where
  "check_block blocked now =
     (if ExpiresAtNs blocked \<noteq> 0 \<and> ExpiresAtNs blocked < now then (XDP_PASS, blocked)
      else (XDP_DROP, blocked\<lparr>HitCount := HitCount blocked + 1\<rparr>))"

text \<open>\<open>None\<close> is the null pointer of a lookup that finds nothing; the entry found is changed in place.\<close>

definition check_map :: "'k option \<Rightarrow> ('k \<times> BlockInfo) list \<Rightarrow> u64 \<Rightarrow> verdict \<times> ('k \<times> BlockInfo) list" where
  "check_map found m now =
     (case found of
        None \<Rightarrow> (XDP_PASS, m)
      | Some k \<Rightarrow>
          (case map_of m k of
             None \<Rightarrow> (XDP_PASS, m)
           | Some blocked \<Rightarrow> (let (v, blocked) = check_block blocked now in (v, AList.update k blocked m))))"

text \<open>The body shared by \<^verbatim>\<open>check_ratelim_ipv4\<close> and \<^verbatim>\<open>check_ratelim_ipv6\<close>, on the client's bucket.\<close>

definition take_token :: "u64 \<Rightarrow> buckets option \<Rightarrow> verdict \<times> buckets" where
  "take_token now bucket =
     (case bucket of
        None \<Rightarrow> (XDP_PASS, \<lparr>last_updated_at = now, tokens = BURST - 1\<rparr>)
      | Some b \<Rightarrow>
          (let elapsed = now - last_updated_at b;
               new_tokens = elapsed div NS_PER_TOKEN;
               b = (if 0 < new_tokens then
                      (let t = tokens b + new_tokens
                       in \<lparr>last_updated_at = last_updated_at b + new_tokens * NS_PER_TOKEN,
                           tokens = (if BURST < t then BURST else t)\<rparr>)
                    else b)
           in if tokens b = 0 then (XDP_DROP, b) else (XDP_PASS, b\<lparr>tokens := tokens b - 1\<rparr>)))"

definition check_ratelim_ipv4 :: "u32 \<Rightarrow> u64 \<Rightarrow> xdp \<Rightarrow> verdict \<times> xdp" where
  "check_ratelim_ipv4 ip now s =
     (let (v, b) = take_token now (ratelimit_per_ipv4 s ip)
      in (v, s\<lparr>ratelimit_per_ipv4 := (ratelimit_per_ipv4 s)(ip \<mapsto> b)\<rparr>))"

definition check_ratelim_ipv6 :: "bytes \<Rightarrow> u64 \<Rightarrow> xdp \<Rightarrow> verdict \<times> xdp" where
  "check_ratelim_ipv6 ip now s =
     (let (v, b) = take_token now (ratelimit_per_ipv6 s ip)
      in (v, s\<lparr>ratelimit_per_ipv6 := (ratelimit_per_ipv6 s)(ip \<mapsto> b)\<rparr>))"

section \<open>The program\<close>

definition ETH_P_IP :: bytes where "ETH_P_IP = [CHR 0x08, CHR 0x00]"
definition ETH_P_IPV6 :: bytes where "ETH_P_IPV6 = [CHR 0x86, CHR 0xDD]"

definition h_proto :: "bytes \<Rightarrow> bytes" where "h_proto packet = take 2 (drop 12 packet)"
definition saddr4 :: "bytes \<Rightarrow> bytes" where "saddr4 packet = take 4 (drop (14 + 12) packet)"
definition saddr6 :: "bytes \<Rightarrow> bytes" where "saddr6 packet = take 16 (drop (14 + 8) packet)"

definition xdp_filter :: "lpm_lib \<Rightarrow> u64 \<Rightarrow> bytes \<Rightarrow> xdp \<Rightarrow> verdict \<times> xdp" where
  "xdp_filter K now packet s =
     (if length packet < 14 then (XDP_PASS, s)
      else if h_proto packet = ETH_P_IP then
        (if length packet < 14 + 20 then (XDP_PASS, s)
         else
           (let m = LpmMap (block_maps s);
                (v, m) = check_map (lookup4 K m (saddr4 packet)) m now;
                s = s\<lparr>block_maps := (block_maps s)\<lparr>LpmMap := m\<rparr>\<rparr>
            in if v = XDP_DROP then (XDP_DROP, s) else check_ratelim_ipv4 (le32 (saddr4 packet)) now s))
      else if h_proto packet = ETH_P_IPV6 then
        (if length packet < 14 + 40 then (XDP_PASS, s)
         else
           (let m = LpmMapIpv6 (block_maps s);
                (v, m) = check_map (lookup6 K m (saddr6 packet)) m now;
                s = s\<lparr>block_maps := (block_maps s)\<lparr>LpmMapIpv6 := m\<rparr>\<rparr>
            in if v = XDP_DROP then (XDP_DROP, s) else check_ratelim_ipv6 (saddr6 packet) now s))
      else (XDP_PASS, s))"

text \<open>
  What the kernel does with a request of AddBlocked: a prefix longer than the address is refused, and so is a
  new key in a full map.
\<close>

definition put_entry :: "'k \<Rightarrow> BlockInfo \<Rightarrow> ('k \<times> BlockInfo) list \<Rightarrow> ('k \<times> BlockInfo) list" where
  "put_entry k info m = (if map_of m k = None \<and> max_entries \<le> length m then m else AList.update k info m)"

definition install :: "block_request \<Rightarrow> filter_maps \<Rightarrow> filter_maps" where
  "install b f =
     (case b of
        InvalidCIDR \<Rightarrow> f
      | Put4 k info \<Rightarrow> if unat (PrefixLen k) \<le> 32 then f\<lparr>LpmMap := put_entry k info (LpmMap f)\<rparr> else f
      | Put6 k info \<Rightarrow> if unat (PrefixLen6 k) \<le> 128 then f\<lparr>LpmMapIpv6 := put_entry k info (LpmMapIpv6 f)\<rparr> else f)"

text \<open>The three kinds of step that change the maps: packets, ticks of the garbage collector, requests.\<close>

datatype kernel_event = Packet u64 bytes | Collect gc_tick | Request block_request

fun kernel_step :: "lpm_lib \<Rightarrow> kernel_event \<Rightarrow> xdp \<Rightarrow> xdp" where
  "kernel_step K (Packet now packet) s = snd (xdp_filter K now packet s)"
| "kernel_step K (Collect t) s = s\<lparr>block_maps := gc t (block_maps s)\<rparr>"
| "kernel_step K (Request b) s = s\<lparr>block_maps := install b (block_maps s)\<rparr>"

definition kernel_run :: "lpm_lib \<Rightarrow> kernel_event list \<Rightarrow> xdp \<Rightarrow> xdp" where
  "kernel_run K = fold (kernel_step K)"

end
