(* ===== verification/Block_Map.thy ===== *)
theory Block_Map
  imports Xdp
begin

text \<open>
  The kernel's two blocklist maps, for IPv4 and IPv6, behave alike: packets change hit counts only, the
  garbage collector removes what has expired, and requests add entries or replace them. The locale \<open>block_map\<close>
  says so of one map, and proves of it once that a block outlasts every run that does not shorten it.
\<close>

section \<open>One map\<close>

definition entries_ok :: "('k \<Rightarrow> bool) \<Rightarrow> ('k \<times> BlockInfo) list \<Rightarrow> bool" where
  "entries_ok key_ok m \<longleftrightarrow> distinct (map fst m) \<and> list_all (\<lambda>(k, info). key_ok k) m"

definition lasts_until :: "u64 \<Rightarrow> BlockInfo \<Rightarrow> bool" where
  "lasts_until exp info \<longleftrightarrow> ExpiresAtNs info = 0 \<or> exp \<le> ExpiresAtNs info"

definition live_until :: "u64 \<Rightarrow> 'k \<Rightarrow> ('k \<times> BlockInfo) list \<Rightarrow> bool" where
  "live_until exp k m \<longleftrightarrow> pred_option (lasts_until exp) (map_of m k) \<and> map_of m k \<noteq> None"

text \<open>What may happen meanwhile: collections before the time, and requests that do not shorten the block.\<close>

definition keeps :: "(gc_tick \<Rightarrow> u64) \<Rightarrow> (block_request \<Rightarrow> ('k \<times> BlockInfo) option) \<Rightarrow> ('k \<Rightarrow> bool) \<Rightarrow> u64 \<Rightarrow> 'k \<Rightarrow> kernel_event \<Rightarrow> bool" where
  "keeps time put key_ok exp k e \<longleftrightarrow>
     (case e of
        Packet now packet \<Rightarrow> True
      | Collect t \<Rightarrow> time t \<le> exp
      | Request b \<Rightarrow>
          (case put b of None \<Rightarrow> True | Some (k', info) \<Rightarrow> key_ok k' \<and> (k' = k \<longrightarrow> lasts_until exp info)))"

lemma check_map_entries:
  "snd (check_map found m now) = m \<or>
   (\<exists>k info n. map_of m k = Some info \<and> snd (check_map found m now) = AList.update k (info\<lparr>HitCount := n\<rparr>) m)"
proof (cases "Option.bind found (map_of m)")
  case None
  then show ?thesis by (auto simp: check_map_def split: option.split)
next
  case (Some info)
  then obtain k where k: "found = Some k" "map_of m k = Some info" by (auto simp: bind_eq_Some_conv)
  define n where "n = (if ExpiresAtNs info \<noteq> 0 \<and> ExpiresAtNs info < now then HitCount info else HitCount info + 1)"
  have "snd (check_block info now) = info\<lparr>HitCount := n\<rparr>" by (simp add: check_block_def n_def)
  with k(1,2) have "snd (check_map found m now) = AList.update k (info\<lparr>HitCount := n\<rparr>) m"
    by (simp add: check_map_def split_beta)
  with k(2) show ?thesis by blast
qed

lemma entries_ok_update:
  assumes "entries_ok key_ok m" "map_of m k \<noteq> None \<or> key_ok k"
  shows "entries_ok key_ok (AList.update k info m)"
proof -
  have "key_ok k" using assms by (auto simp: entries_ok_def list_all_iff dest: map_of_SomeD)
  then show ?thesis
    using assms(1) set_update_subset [of k info m] by (auto simp: entries_ok_def distinct_update list_all_iff)
qed

lemma lasts_until_HitCount [simp]: "lasts_until exp (info\<lparr>HitCount := n\<rparr>) = lasts_until exp info"
  by (simp add: lasts_until_def)

locale block_map =
  fixes entries :: "filter_maps \<Rightarrow> ('k \<times> BlockInfo) list"
    and iter :: "gc_tick \<Rightarrow> bool" and del :: "gc_tick \<Rightarrow> 'k \<Rightarrow> bool" and time :: "gc_tick \<Rightarrow> u64"
    and put :: "block_request \<Rightarrow> ('k \<times> BlockInfo) option" and key_ok :: "'k \<Rightarrow> bool"
  assumes packet: "\<exists>found. entries (block_maps (snd (xdp_filter K now packet s))) \<in>
      {entries (block_maps s), snd (check_map found (entries (block_maps s)) now)}"
    and collect: "entries (gc t f) = cleanupExpired (iter t) (del t) (time t) (entries f)"
    and request_None: "put b = None \<Longrightarrow> entries (install b f) = entries f"
    and request_Some: "put b = Some (k, info) \<Longrightarrow> key_ok k \<Longrightarrow> entries (install b f) = put_entry k info (entries f)"
begin

lemma step_ok:
  assumes "entries_ok key_ok (entries (block_maps s))" "keeps time put key_ok exp k e"
  shows "entries_ok key_ok (entries (block_maps (kernel_step K e s)))"
proof (cases e)
  case (Packet now p)
  obtain found where found: "entries (block_maps (snd (xdp_filter K now p s))) \<in>
      {entries (block_maps s), snd (check_map found (entries (block_maps s)) now)}"
    using packet by blast
  have "entries_ok key_ok (snd (check_map found (entries (block_maps s)) now))"
    using check_map_entries [of found "entries (block_maps s)" now] assms(1) entries_ok_update by fastforce
  with found assms(1) show ?thesis by (auto simp: Packet)
next
  case (Collect t)
  with assms(1) show ?thesis
    by (auto simp: collect entries_ok_def cleanupExpired_filter distinct_map_filter list_all_iff)
next
  case (Request b)
  with assms show ?thesis
    by (cases "put b") (auto simp: request_None request_Some put_entry_def keeps_def intro: entries_ok_update)
qed

lemma step_live:
  assumes "entries_ok key_ok (entries (block_maps s))" "live_until exp k (entries (block_maps s))"
    and "keeps time put key_ok exp k e"
  shows "live_until exp k (entries (block_maps (kernel_step K e s)))"
proof (cases e)
  case (Packet now p)
  obtain found where found: "entries (block_maps (snd (xdp_filter K now p s))) \<in>
      {entries (block_maps s), snd (check_map found (entries (block_maps s)) now)}"
    using packet by blast
  have "live_until exp k (snd (check_map found (entries (block_maps s)) now))"
    using check_map_entries [of found "entries (block_maps s)" now] assms(2)
    by (auto simp: live_until_def map_of_update)
  with found assms(2) show ?thesis by (auto simp: Packet)
next
  case (Collect t)
  from assms(2) obtain info where info: "map_of (entries (block_maps s)) k = Some info" "lasts_until exp info"
    by (auto simp: live_until_def)
  with assms(3) have "\<not> is_expired (time t) info" by (auto simp: Collect keeps_def is_expired_def lasts_until_def)
  moreover have distinct: "distinct (map fst (entries (block_maps s)))" using assms(1) by (simp add: entries_ok_def)
  ultimately have "(k, info) \<in> set (entries (gc t (block_maps s)))"
    using map_of_SomeD [OF info(1)] by (simp add: collect cleanupExpired_filter)
  moreover have "distinct (map fst (entries (gc t (block_maps s))))"
    using distinct by (simp add: collect cleanupExpired_keeps_distinct)
  ultimately show ?thesis using info(2) by (simp add: Collect live_until_def)
next
  case (Request b)
  with assms(2,3) show ?thesis
    by (cases "put b") (auto simp: request_None request_Some put_entry_def keeps_def live_until_def map_of_update)
qed

lemma run_live:
  "entries_ok key_ok (entries (block_maps s)) \<Longrightarrow> live_until exp k (entries (block_maps s)) \<Longrightarrow>
     list_all (keeps time put key_ok exp k) es \<Longrightarrow>
     entries_ok key_ok (entries (block_maps (kernel_run K es s))) \<and> live_until exp k (entries (block_maps (kernel_run K es s)))"
  unfolding kernel_run_def
proof (induction es arbitrary: s)
  case (Cons e es)
  have e: "keeps time put key_ok exp k e" and es: "list_all (keeps time put key_ok exp k) es"
    using Cons.prems(3) by simp_all
  from Cons.IH [OF step_ok [OF Cons.prems(1) e] step_live [OF Cons.prems(1,2) e] es] show ?case by simp
qed simp

text \<open>A request that is stored is the start of such a run.\<close>

lemma request_live:
  assumes "entries_ok key_ok (entries (block_maps s))" "length (entries (block_maps s)) < max_entries"
    and "put b = Some (k, info)" "key_ok k" "lasts_until exp info" "list_all (keeps time put key_ok exp k) es"
  shows "entries_ok key_ok (entries (block_maps (kernel_run K (Request b # es) s))) \<and>
    live_until exp k (entries (block_maps (kernel_run K (Request b # es) s)))"
proof -
  let ?s = "kernel_step K (Request b) s"
  have "keeps time put key_ok exp k (Request b)" using assms(3-5) by (simp add: keeps_def)
  from step_ok [OF assms(1) this] have "entries_ok key_ok (entries (block_maps ?s))" .
  moreover have "live_until exp k (entries (block_maps ?s))"
    using assms(2-5) by (simp add: request_Some put_entry_def live_until_def map_of_update)
  ultimately have "entries_ok key_ok (entries (block_maps (kernel_run K es ?s))) \<and>
      live_until exp k (entries (block_maps (kernel_run K es ?s)))"
    by (rule run_live) (rule assms(6))
  then show ?thesis by (simp add: kernel_run_def)
qed

end

section \<open>The two maps\<close>

definition put4 :: "block_request \<Rightarrow> (LPMKey \<times> BlockInfo) option" where
  "put4 b = (case b of Put4 k info \<Rightarrow> if unat (PrefixLen k) \<le> 32 then Some (k, info) else None | _ \<Rightarrow> None)"

definition put6 :: "block_request \<Rightarrow> (LPMKey6 \<times> BlockInfo) option" where
  "put6 b = (case b of Put6 k info \<Rightarrow> if unat (PrefixLen6 k) \<le> 128 then Some (k, info) else None | _ \<Rightarrow> None)"

definition key4_ok :: "LPMKey \<Rightarrow> bool" where
  "key4_ok k \<longleftrightarrow> unat (PrefixLen k) \<le> 32"

definition key6_ok :: "LPMKey6 \<Rightarrow> bool" where
  "key6_ok k \<longleftrightarrow> unat (PrefixLen6 k) \<le> 128 \<and> length (key_IP6 k) = 16"

lemma ratelim_maps [simp]:
  "block_maps (snd (check_ratelim_ipv4 a now s)) = block_maps s"
  "block_maps (snd (check_ratelim_ipv6 b now s)) = block_maps s"
  by (simp_all add: check_ratelim_ipv4_def check_ratelim_ipv6_def split_beta)

interpretation map4: block_map LpmMap iter4 del4 now4 put4 key4_ok
proof
  show "\<exists>found. LpmMap (block_maps (snd (xdp_filter K now packet s))) \<in>
      {LpmMap (block_maps s), snd (check_map found (LpmMap (block_maps s)) now)}" for K now packet s
    by (rule exI [of _ "lookup4 K (LpmMap (block_maps s)) (saddr4 packet)"]) (auto simp: xdp_filter_def Let_def split_beta)
qed (auto simp: gc_def install_def put4_def key4_ok_def split: block_request.splits if_splits)

interpretation map6: block_map LpmMapIpv6 iter6 del6 now6 put6 key6_ok
proof
  show "\<exists>found. LpmMapIpv6 (block_maps (snd (xdp_filter K now packet s))) \<in>
      {LpmMapIpv6 (block_maps s), snd (check_map found (LpmMapIpv6 (block_maps s)) now)}" for K now packet s
    by (rule exI [of _ "lookup6 K (LpmMapIpv6 (block_maps s)) (saddr6 packet)"]) (auto simp: xdp_filter_def Let_def split_beta)
qed (auto simp: gc_def install_def put6_def key6_ok_def split: block_request.splits if_splits)

end
