(* ===== verification/Xdp_Props.thy ===== *)
theory Xdp_Props
  imports Block_Map
begin

text \<open>
  What the packet filter guarantees: a blocked address stays blocked until its entry expires, whatever else
  happens in between; a client gets no more packets through than its bucket allows. And where it fails: an
  expired entry hides a live one with a shorter prefix.
\<close>

section \<open>Longest prefixes\<close>

lemma length_byte_bits [simp]: "length (byte_bits c) = 8"
  by (simp add: byte_bits_def)

lemma length_addr_bits [simp]: "length (addr_bits a) = 8 * length a"
  by (induction a) (simp_all add: addr_bits_def)

lemma byte_bits_inj: "byte_bits c = byte_bits d \<longleftrightarrow> c = d"
  by (auto simp: byte_bits_def intro: char.expand)

lemma addr_bits_inj: "length a = length b \<Longrightarrow> addr_bits a = addr_bits b \<longleftrightarrow> a = b"
  by (induction a b rule: list_induct2) (auto simp: addr_bits_def byte_bits_inj)

lemma covers_whole: "length (snd p) = length addr \<Longrightarrow> fst p = 8 * length addr \<Longrightarrow> covers p addr \<longleftrightarrow> snd p = addr"
  by (simp add: covers_def addr_bits_inj)

context lpm_trie
begin

text \<open>The entry of an address itself, with all its bits, is always the one found.\<close>

lemma exact_match:
  assumes "k \<in> fst ` set m" "view k = (8 * length addr, addr)"
    and "\<And>k'. k' \<in> fst ` set m \<Longrightarrow> fst (view k') \<le> 8 * length addr \<and> length (snd (view k')) = length addr"
    and "inj_on view (fst ` set m)"
  shows "lookup m addr = Some k"
proof (cases "lookup m addr")
  case None
  with lookup_None [OF None assms(1)] show ?thesis by (simp add: assms(2) covers_whole)
next
  case (Some k')
  have "fst (view k) \<le> fst (view k')" by (rule lookup_longest [OF Some assms(1)]) (simp add: assms(2) covers_whole)
  with assms(3) [of k'] lookup_Some [OF Some] assms(2) have "fst (view k') = 8 * length addr" "length (snd (view k')) = length addr"
    by auto
  with lookup_Some [OF Some] have "view k' = view k" by (metis assms(2) covers_whole prod.collapse)
  with assms(1,4) lookup_Some [OF Some] show ?thesis by (simp add: Some inj_on_eq_iff)
qed

end

text \<open>A lookup that is one: the best of all entries that cover the address.\<close>

fun longest_match :: "('k \<Rightarrow> nat \<times> bytes) \<Rightarrow> ('k \<times> BlockInfo) list \<Rightarrow> bytes \<Rightarrow> 'k option" where
  "longest_match view [] addr = None"
| "longest_match view ((k, info) # m) addr =
     (case longest_match view m addr of
        None \<Rightarrow> if covers (view k) addr then Some k else None
      | Some b \<Rightarrow> if covers (view k) addr \<and> fst (view b) \<le> fst (view k) then Some k else Some b)"

lemma longest_match_None: "longest_match view m addr = None \<Longrightarrow> k \<in> fst ` set m \<Longrightarrow> \<not> covers (view k) addr"
  by (induction view m addr rule: longest_match.induct) (auto split: option.splits if_splits)

lemma longest_match_Some:
  "longest_match view m addr = Some k \<Longrightarrow>
     k \<in> fst ` set m \<and> covers (view k) addr \<and>
     (\<forall>k' \<in> fst ` set m. covers (view k') addr \<longrightarrow> fst (view k') \<le> fst (view k))"
proof (induction view m addr arbitrary: k rule: longest_match.induct)
  case (2 view k0 info m addr)
  then show ?case
    by (cases "longest_match view m addr") (auto dest: longest_match_None split: if_splits)
qed simp

lemma longest_match_ok: "lpm_trie view (longest_match view)"
proof
  show "k \<in> fst ` set m \<and> covers (view k) addr" if "longest_match view m addr = Some k" for m addr k
    using longest_match_Some [OF that] by (rule conjE) (erule conjE, rule conjI)
  show "fst (view k') \<le> fst (view k)"
    if "longest_match view m addr = Some k" "k' \<in> fst ` set m" "covers (view k') addr" for m addr k k'
    using longest_match_Some [OF that(1)] that(2,3) by auto
  show "\<not> covers (view k) addr" if "longest_match view m addr = None" "k \<in> fst ` set m" for m addr k
    using that by (rule longest_match_None)
qed

interpretation trie4: lpm_trie view4 "longest_match view4" by (rule longest_match_ok)
interpretation trie6: lpm_trie view6 "longest_match view6" by (rule longest_match_ok)

definition sample_lpm :: lpm_lib where
  "sample_lpm = \<lparr>lookup4 = longest_match view4, lookup6 = longest_match view6\<rparr>"

lemma sample_lpm_ok: "lpm_ok sample_lpm"
  unfolding lpm_ok_def sample_lpm_def using trie4.lpm_trie_axioms trie6.lpm_trie_axioms by simp

section \<open>A blocked address stays blocked\<close>

definition maps_ok :: "filter_maps \<Rightarrow> bool" where
  "maps_ok f \<longleftrightarrow> distinct (map fst (LpmMap f)) \<and> list_all (\<lambda>(k, info). unat (PrefixLen k) \<le> 32) (LpmMap f)"

text \<open>What may happen meanwhile: collections before the time, and requests that do not shorten the block.\<close>

fun spares :: "u64 \<Rightarrow> LPMKey \<Rightarrow> kernel_event \<Rightarrow> bool" where
  "spares exp k (Packet now packet) \<longleftrightarrow> True"
| "spares exp k (Collect t) \<longleftrightarrow> now4 t \<le> exp"
| "spares exp k (Request (Put4 k' info)) \<longleftrightarrow> (k' = k \<longrightarrow> ExpiresAtNs info = 0 \<or> exp \<le> ExpiresAtNs info)"
| "spares exp k (Request b) \<longleftrightarrow> True"

lemma maps_ok_entries: "maps_ok f \<longleftrightarrow> entries_ok key4_ok (LpmMap f)"
  by (simp add: maps_ok_def entries_ok_def key4_ok_def)

lemma spares_keeps: "spares exp k e \<Longrightarrow> keeps now4 put4 key4_ok exp k e"
  by (induction exp k e rule: spares.induct) (auto simp: keeps_def put4_def key4_ok_def lasts_until_def)

lemma le32_put_le32: "le32 (put_le32 w) = w"
proof -
  have b: "(of_char (char_of (unat x)) :: u32) = take_bit 8 x" for x :: u32
    by (simp add: of_char_char_of_word)
  have "le32 (put_le32 w) = take_bit 8 w OR push_bit 8 (take_bit 8 (drop_bit 8 w)) OR
      push_bit 16 (take_bit 8 (drop_bit 16 w)) OR push_bit 24 (take_bit 8 (drop_bit 24 w))"
    by (simp add: le32_def put_le32_def b)
  also have "\<dots> = w"
  proof (rule bit_word_eqI)
    fix n assume "n < LENGTH(32)"
    then show "bit (take_bit 8 w OR push_bit 8 (take_bit 8 (drop_bit 8 w)) OR
      push_bit 16 (take_bit 8 (drop_bit 16 w)) OR push_bit 24 (take_bit 8 (drop_bit 24 w))) n = bit w n"
      by (cases "n < 24"; cases "n < 16"; cases "n < 8") (auto simp: bit_simps)
  qed
  finally show ?thesis .
qed

lemma view4_inj: "view4 k = view4 k' \<Longrightarrow> k = k'"
proof -
  assume "view4 k = view4 k'"
  then have "PrefixLen k = PrefixLen k'" "put_le32 (key_IP k) = put_le32 (key_IP k')"
    by (simp_all add: view4_def word_unat_eq_iff)
  then show "k = k'" using le32_put_le32 by (metis LPMKey.equality old.unit.exhaust)
qed

lemma length_view4 [simp]: "length (snd (view4 k)) = 4"
  by (simp add: view4_def put_le32_def)

lemma lookup4_exact:
  assumes "lpm_ok K" "maps_ok f" "length ip = 4" "\<lparr>PrefixLen = 32, key_IP = le32 ip\<rparr> \<in> fst ` set (LpmMap f)"
  shows "lookup4 K (LpmMap f) ip = Some \<lparr>PrefixLen = 32, key_IP = le32 ip\<rparr>"
proof (rule lpm_trie.exact_match [OF _ assms(4)])
  show "lpm_trie view4 (lookup4 K)" using assms(1) by (simp add: lpm_ok_def)
  show "view4 \<lparr>PrefixLen = 32, key_IP = le32 ip\<rparr> = (8 * length ip, ip)" by (simp add: view4_def put_le32 assms(3))
  show "inj_on view4 (fst ` set (LpmMap f))" by (rule inj_onI) (rule view4_inj)
  fix k' assume "k' \<in> fst ` set (LpmMap f)"
  with assms(2) have "unat (PrefixLen k') \<le> 32" by (auto simp: maps_ok_def list_all_iff)
  then show "fst (view4 k') \<le> 8 * length ip \<and> length (snd (view4 k')) = length ip"
    using assms(3) by (simp add: view4_def put_le32_def)
qed

definition ipv4_from :: "bytes \<Rightarrow> bytes \<Rightarrow> bool" where
  "ipv4_from ip packet \<longleftrightarrow> 34 \<le> length packet \<and> h_proto packet = ETH_P_IP \<and> saddr4 packet = ip"

lemma check_map_drops:
  assumes "live_until exp k m" "now \<le> exp"
  shows "fst (check_map (Some k) m now) = XDP_DROP"
proof -
  from assms(1) obtain info where info: "map_of m k = Some info" "ExpiresAtNs info = 0 \<or> exp \<le> ExpiresAtNs info"
    by (auto simp: live_until_def lasts_until_def)
  have "fst (check_block info now) = XDP_DROP" using info(2) assms(2) by (auto simp: check_block_def)
  with info(1) show ?thesis by (simp add: check_map_def split_beta)
qed

lemma live_key: "live_until exp k m \<Longrightarrow> k \<in> fst ` set m"
  by (force simp: live_until_def dest: map_of_SomeD)

lemma filter_drops:
  assumes "lpm_ok K" "entries_ok key4_ok (LpmMap (block_maps s))" "length ip = 4"
    and "live_until exp \<lparr>PrefixLen = 32, key_IP = le32 ip\<rparr> (LpmMap (block_maps s))" "ipv4_from ip packet" "now \<le> exp"
  shows "fst (xdp_filter K now packet s) = XDP_DROP"
proof -
  let ?m = "LpmMap (block_maps s)"
  have "lookup4 K ?m ip = Some \<lparr>PrefixLen = 32, key_IP = le32 ip\<rparr>"
    using lookup4_exact [OF assms(1) _ assms(3) live_key [OF assms(4)]] assms(2) by (simp add: maps_ok_entries)
  with check_map_drops [OF assms(4,6)] have "fst (check_map (lookup4 K ?m ip) ?m now) = XDP_DROP" by simp
  with assms(5) show ?thesis by (simp add: xdp_filter_def ipv4_from_def Let_def split_beta)
qed

lemma block_request_drops:
  assumes "lpm_ok K" "maps_ok (block_maps s)" "length (LpmMap (block_maps s)) < max_entries" "length ip = 4"
    and "t \<le> t + d" "list_all (spares (t + d) \<lparr>PrefixLen = 32, key_IP = le32 ip\<rparr>) es"
    and "ipv4_from ip packet" "now \<le> t + d"
  shows "fst (xdp_filter K now packet (kernel_run K (Request (AddBlocked T t (IP_String T ip) d reason) # es) s)) = XDP_DROP"
proof -
  let ?k = "\<lparr>PrefixLen = 32, key_IP = le32 ip\<rparr>" and ?info = "\<lparr>ExpiresAtNs = t + d, HitCount = 0, Reason = reason\<rparr>"
  have request: "AddBlocked T t (IP_String T ip) d reason = Put4 ?k ?info"
    using AddBlocked_quad [OF assms(4)] by (simp add: IP_String_def To4_def assms(4))
  have es: "list_all (keeps now4 put4 key4_ok (t + d) ?k) es"
    using assms(6) by (rule list.pred_mono_strong) (rule spares_keeps)
  from map4.request_live [OF assms(2) [unfolded maps_ok_entries] assms(3) _ _ _ es, of "Put4 ?k ?info" ?info K]
  show ?thesis
    unfolding request by (intro filter_drops [OF assms(1) _ assms(4) _ assms(7,8)]) (simp_all add: put4_def key4_ok_def lasts_until_def)
qed

text \<open>
  C3: once the Go program has asked to block a client, every IPv4 packet from its address is dropped up to the
  time the block expires, whatever the kernel does meanwhile: packets of anybody, collections by the garbage
  collector, and other requests, as long as they do not shorten this block. The map must have room.
\<close>

theorem blocked_client_dropped:
  assumes "lpm_ok K" "maps_ok (block_maps s)" "length (LpmMap (block_maps s)) < max_entries" "length ip = 4"
    and "t \<le> t + d" "list_all (spares (t + d) \<lparr>PrefixLen = 32, key_IP = le32 ip\<rparr>) es"
    and "ipv4_from ip packet" "now \<le> t + d"
  shows "fst (xdp_filter K now packet (kernel_run K (Request (AddBlocked T t (IP_String T ip) d reason) # es) s)) = XDP_DROP"
  by (rule block_request_drops [OF assms])

definition sample_ip :: bytes where
  "sample_ip = [CHR 0x0A, CHR 0x00, CHR 0x00, CHR 0x01]"

definition sample_packet :: bytes where
  "sample_packet = replicate 12 CHR 0x00 @ ETH_P_IP @ replicate 12 CHR 0x00 @ sample_ip @ replicate 4 CHR 0x00"

definition empty_xdp :: xdp where
  "empty_xdp = \<lparr>block_maps = \<lparr>LpmMap = [], LpmMapIpv6 = []\<rparr>, ratelimit_per_ipv4 = Map.empty, ratelimit_per_ipv6 = Map.empty\<rparr>"

lemma sample_packet_from: "ipv4_from sample_ip sample_packet"
  by (simp add: ipv4_from_def sample_packet_def h_proto_def saddr4_def ETH_P_IP_def sample_ip_def numeral_eq_Suc)

lemma length_sample_ip: "length sample_ip = 4"
  by (simp add: sample_ip_def)

theorem blocked_client_dropped_witness:
  "fst (xdp_filter sample_lpm 9 sample_packet
     (kernel_run sample_lpm [Request (AddBlocked no_ip6 7 (IP_String no_ip6 sample_ip) 5 BLOCK_L7_DETECT), Packet 8 sample_packet]
        empty_xdp)) = XDP_DROP"
  by (rule blocked_client_dropped [OF sample_lpm_ok])
    (simp_all add: empty_xdp_def maps_ok_def max_entries_def length_sample_ip sample_packet_from)

section \<open>A client in the mapped form\<close>

text \<open>
  C40: an IPv4 client written in the mapped form, as a dual-stack socket reports it, is never blocked: the request
  is for a key of the IPv4 map with a prefix of 128 bits, which the kernel refuses, so the kernel goes on as if
  nothing had been asked.
\<close>

theorem mapped_address_not_blocked:
  assumes "parse6 T s = Some (mapped_prefix @ q)" "length q = 4"
    and "find (\<lambda>c. c = CHR ''.'' \<or> c = CHR '':'' \<or> c = CHR ''%'') s = Some CHR '':''" "CHR ''/'' \<notin> set s"
  shows "(\<exists>info. AddBlocked T now s duration reason = Put4 \<lparr>PrefixLen = 128, key_IP = le32 q\<rparr> info) \<and>
    kernel_run K (before @ Request (AddBlocked T now s duration reason) # es) x = kernel_run K (before @ es) x"
proof -
  obtain info where request: "AddBlocked T now s duration reason = Put4 \<lparr>PrefixLen = 128, key_IP = le32 q\<rparr> info"
    using mapped_address_bad_prefix [OF assms] by blast
  then have "install (AddBlocked T now s duration reason) f = f" for f by (simp add: install_def)
  with request show ?thesis by (simp add: kernel_run_def)
qed

theorem mapped_address_not_blocked_witness:
  "fst (xdp_filter sample_lpm 9 sample_packet
     (kernel_run sample_lpm ([] @ Request (AddBlocked no_ip6 7 ''::ffff:10.0.0.1'' 5 BLOCK_L7_DETECT) # []) empty_xdp)) = XDP_PASS"
proof -
  have "kernel_run sample_lpm ([] @ Request (AddBlocked no_ip6 7 ''::ffff:10.0.0.1'' 5 BLOCK_L7_DETECT) # []) empty_xdp =
      kernel_run sample_lpm ([] @ []) empty_xdp"
    by (rule mapped_address_not_blocked [of no_ip6 "''::ffff:10.0.0.1''" sample_ip, THEN conjunct2])
      (simp_all add: no_ip6_def sample_ip_def)
  also have "\<dots> = empty_xdp" by (simp add: kernel_run_def)
  finally show ?thesis
    using sample_packet_from
    by (simp add: xdp_filter_def ipv4_from_def empty_xdp_def check_map_def check_ratelim_ipv4_def take_token_def Let_def split_beta
        split: option.split)
qed

section \<open>An expired entry hides a live one\<close>

text \<open>
  C13: an entry for a client's whole address that has expired is still the longest match, and as it has expired
  the block check passes: the packet goes to the rate limiter even if an entry with a shorter prefix that
  covers the client is live. Only the next tick of the garbage collector ends this.
\<close>

theorem expired_entry_unblocks:
  assumes "lpm_ok K" "maps_ok (block_maps s)" "length ip = 4" "ipv4_from ip packet"
    and "map_of (LpmMap (block_maps s)) \<lparr>PrefixLen = 32, key_IP = le32 ip\<rparr> = Some info"
    and "ExpiresAtNs info \<noteq> 0" "ExpiresAtNs info < now"
  shows "fst (xdp_filter K now packet s) = fst (take_token now (ratelimit_per_ipv4 s (le32 ip)))"
proof -
  let ?k = "\<lparr>PrefixLen = 32, key_IP = le32 ip\<rparr>" and ?m = "LpmMap (block_maps s)"
  have "?k \<in> fst ` set ?m" using map_of_SomeD [OF assms(5)] by force
  from lookup4_exact [OF assms(1-3) this] have "lookup4 K ?m ip = Some ?k" .
  moreover have "fst (check_block info now) = XDP_PASS" using assms(6,7) by (simp add: check_block_def)
  ultimately have "fst (check_map (lookup4 K ?m ip) ?m now) = XDP_PASS" using assms(5) by (simp add: check_map_def split_beta)
  with assms(4) show ?thesis by (simp add: xdp_filter_def ipv4_from_def check_ratelim_ipv4_def Let_def split_beta)
qed

text \<open>A block of a whole network is live, and one of its clients passes.\<close>

definition shadowed_xdp :: xdp where
  "shadowed_xdp = empty_xdp\<lparr>block_maps :=
     \<lparr>LpmMap = [(\<lparr>PrefixLen = 24, key_IP = le32 [CHR 0x0A, CHR 0x00, CHR 0x00, CHR 0x00]\<rparr>, \<lparr>ExpiresAtNs = 0, HitCount = 0, Reason = BLOCK_MANUAL\<rparr>),
        (\<lparr>PrefixLen = 32, key_IP = le32 sample_ip\<rparr>, \<lparr>ExpiresAtNs = 5, HitCount = 0, Reason = BLOCK_L7_DETECT\<rparr>)],
      LpmMapIpv6 = []\<rparr>\<rparr>"

theorem expired_entry_unblocks_witness:
  "covers (view4 \<lparr>PrefixLen = 24, key_IP = le32 [CHR 0x0A, CHR 0x00, CHR 0x00, CHR 0x00]\<rparr>) sample_ip \<and>
   fst (xdp_filter sample_lpm 9 sample_packet shadowed_xdp) = XDP_PASS"
proof
  show "covers (view4 \<lparr>PrefixLen = 24, key_IP = le32 [CHR 0x0A, CHR 0x00, CHR 0x00, CHR 0x00]\<rparr>) sample_ip"
    by (simp add: covers_def view4_def put_le32 addr_bits_def byte_bits_def sample_ip_def)
  have "maps_ok (block_maps shadowed_xdp)" by (simp add: maps_ok_def shadowed_xdp_def)
  from expired_entry_unblocks [OF sample_lpm_ok this length_sample_ip sample_packet_from, of "\<lparr>ExpiresAtNs = 5, HitCount = 0, Reason = BLOCK_L7_DETECT\<rparr>" 9]
  show "fst (xdp_filter sample_lpm 9 sample_packet shadowed_xdp) = XDP_PASS"
    by (simp add: shadowed_xdp_def empty_xdp_def take_token_def)
qed

end
