(* ===== verification/Rate_Limit.thy ===== *)
theory Rate_Limit
  imports Xdp_Props
begin

text \<open>
  The token buckets of the packet filter: a bucket holds at most \<open>BURST\<close> tokens, gains one every
  \<open>NS_PER_TOKEN\<close> nanoseconds and keeps the remainder, so in any stretch of time a client gets at most
  \<open>BURST\<close> packets through and one more for each \<open>NS_PER_TOKEN\<close>. The clock must not run backwards, and the
  kernel must not evict the bucket.
\<close>

section \<open>One bucket\<close>

lemma rate_consts: "BURST = 1000" "NS_PER_TOKEN = 1000000"
  by (simp_all add: BURST_def NS_PER_TOKEN_def NS_PER_SEC_def RATE_def)

definition bucket_ok :: "u64 \<Rightarrow> buckets \<Rightarrow> bool" where
  "bucket_ok now b \<longleftrightarrow> tokens b \<le> BURST \<and> last_updated_at b \<le> now"

text \<open>What the bucket can still let through until a time.\<close>

definition allowance :: "u64 \<Rightarrow> buckets \<Rightarrow> nat" where
  "allowance until b = unat (tokens b) + (unat until - unat (last_updated_at b)) div 1000000"

definition refill :: "u64 \<Rightarrow> buckets \<Rightarrow> buckets" where
  "refill now b =
     (let new_tokens = (now - last_updated_at b) div NS_PER_TOKEN
      in if 0 < new_tokens then
           (let t = tokens b + new_tokens
            in \<lparr>last_updated_at = last_updated_at b + new_tokens * NS_PER_TOKEN, tokens = (if BURST < t then BURST else t)\<rparr>)
         else b)"

lemma take_token_refill:
  "take_token now (Some b) =
     (let b = refill now b in if tokens b = 0 then (XDP_DROP, b) else (XDP_PASS, b\<lparr>tokens := tokens b - 1\<rparr>))"
  by (simp add: take_token_def refill_def Let_def)

lemma refill_nat:
  assumes "bucket_ok now b"
  defines "n \<equiv> (unat now - unat (last_updated_at b)) div 1000000"
  shows "unat (tokens (refill now b)) = min 1000 (unat (tokens b) + n)"
    and "unat (last_updated_at (refill now b)) = unat (last_updated_at b) + n * 1000000"
proof -
  define N where "N = (now - last_updated_at b) div NS_PER_TOKEN"
  have le: "unat (last_updated_at b) \<le> unat now" "unat (tokens b) \<le> 1000"
    using assms(1) by (simp_all add: bucket_ok_def rate_consts word_le_nat_alt)
  have "unat (now - last_updated_at b) = unat now - unat (last_updated_at b)"
    using assms(1) by (simp add: bucket_ok_def unat_sub)
  then have new: "unat N = n" by (simp add: N_def rate_consts n_def unat_div)
  have small: "unat now < 2 ^ 64" using unsigned_less [of now] by simp
  then have n: "n < 2 ^ 45" "n * 1000000 \<le> unat now - unat (last_updated_at b)" by (simp_all add: n_def)
  have sum: "unat (tokens b + N) = unat (tokens b) + n"
    using n(1) le(2) new by (subst unat_add_lem [THEN iffD1]) simp_all
  have prod: "unat (N * NS_PER_TOKEN) = n * 1000000"
    using n(2) small new by (subst unat_mult_lem [THEN iffD1]) (simp_all add: rate_consts)
  have last: "unat (last_updated_at b + N * NS_PER_TOKEN) = unat (last_updated_at b) + n * 1000000"
    using n(2) le(1) small prod by (subst unat_add_lem [THEN iffD1]) simp_all
  have pos: "0 < N \<longleftrightarrow> 0 < n" using new by (simp add: word_less_nat_alt)
  show "unat (tokens (refill now b)) = min 1000 (unat (tokens b) + n)"
    using sum le(2) unfolding refill_def Let_def N_def [symmetric] pos
    by (auto simp: rate_consts word_less_nat_alt min_def)
  show "unat (last_updated_at (refill now b)) = unat (last_updated_at b) + n * 1000000"
    using last unfolding refill_def Let_def N_def [symmetric] pos by auto
qed

lemma div_step: "n * 1000000 \<le> a \<Longrightarrow> n + (a - n * 1000000) div 1000000 = a div (1000000 :: nat)"
  by (metis add.commute div_mult_self1 le_add_diff_inverse2 zero_neq_numeral)

lemma refill_ok:
  assumes "bucket_ok now b" "now \<le> until"
  shows "bucket_ok now (refill now b)" "allowance until (refill now b) \<le> allowance until b"
proof -
  let ?n = "(unat now - unat (last_updated_at b)) div 1000000"
  note r = refill_nat [OF assms(1)]
  have le: "unat (last_updated_at b) \<le> unat now" "unat now \<le> unat until"
    using assms by (simp_all add: bucket_ok_def word_le_nat_alt)
  have n: "?n * 1000000 \<le> unat now - unat (last_updated_at b)" by simp
  show "bucket_ok now (refill now b)"
    using r n le(1) by (simp add: bucket_ok_def rate_consts word_le_nat_alt)
  have "?n + (unat until - unat (last_updated_at b) - ?n * 1000000) div 1000000 =
      (unat until - unat (last_updated_at b)) div 1000000"
    by (rule div_step) (use n le in linarith)
  then show "allowance until (refill now b) \<le> allowance until b"
    unfolding allowance_def r diff_diff_left [symmetric]
    using min.cobounded2 [of 1000 "unat (tokens b) + ?n"] by linarith
qed

text \<open>Just after a refill the remainder is less than a token's time, whenever the bucket was last used.\<close>

lemma refill_recent:
  assumes "bucket_ok now b" "now \<le> until"
  shows "allowance until (refill now b) \<le> 1001 + (unat until - unat now) div 1000000"
proof -
  define d where "d = unat now - unat (last_updated_at b)"
  have le: "unat (last_updated_at b) \<le> unat now" "unat now \<le> unat until"
    using assms by (simp_all add: bucket_ok_def word_le_nat_alt)
  have "unat until - (unat (last_updated_at b) + d div 1000000 * 1000000) = (unat until - unat now) + d mod 1000000"
    using le unfolding d_def by (simp add: minus_mult_div_eq_mod [symmetric] algebra_simps)
  also have "\<dots> \<le> unat until - unat now + 1000000" by (simp add: less_imp_le)
  finally have "(unat until - (unat (last_updated_at b) + d div 1000000 * 1000000)) div 1000000 \<le>
      (unat until - unat now + 1000000) div 1000000" by (rule div_le_mono)
  also have "\<dots> = 1 + (unat until - unat now) div 1000000" by simp
  finally show ?thesis unfolding allowance_def refill_nat [OF assms(1), folded d_def] by linarith
qed

lemma take_token_spends:
  assumes "bucket_ok now b" "now \<le> until" "take_token now (Some b) = (v, b')"
  shows "bucket_ok now b'" "(if v = XDP_PASS then 1 else 0) + allowance until b' \<le> allowance until (refill now b)"
proof -
  have one: "Suc (unat (x - 1)) = unat x" if "x \<noteq> 0" for x :: u64
    using that by (simp add: unat_minus_one unat_gt_0)
  have "bucket_ok now b' \<and> (if v = XDP_PASS then 1 else 0) + allowance until b' \<le> allowance until (refill now b)"
  proof (cases "tokens (refill now b) = 0")
    case True
    with refill_ok(1) [OF assms(1,2)] assms(3) show ?thesis by (auto simp: take_token_refill Let_def)
  next
    case False
    with assms(3) have b': "v = XDP_PASS" "b' = (refill now b)\<lparr>tokens := tokens (refill now b) - 1\<rparr>"
      by (auto simp: take_token_refill Let_def)
    from one [OF False] refill_ok(1) [OF assms(1,2)] b' show ?thesis
      by (auto simp: bucket_ok_def allowance_def word_le_nat_alt)
  qed
  then show "bucket_ok now b'" "(if v = XDP_PASS then 1 else 0) + allowance until b' \<le> allowance until (refill now b)"
    by blast+
qed

lemma take_token_ok:
  assumes "bucket_ok now b" "now \<le> until" "take_token now (Some b) = (v, b')"
  shows "bucket_ok now b'" "(if v = XDP_PASS then 1 else 0) + allowance until b' \<le> allowance until b"
  using take_token_spends [OF assms] refill_ok(2) [OF assms(1,2)] by linarith+

section \<open>A client's packets\<close>

text \<open>How many packets of a client a run lets through.\<close>

fun passed :: "lpm_lib \<Rightarrow> bytes \<Rightarrow> kernel_event list \<Rightarrow> xdp \<Rightarrow> nat" where
  "passed K ip [] s = 0"
| "passed K ip (Packet now packet # es) s =
     (if ipv4_from ip packet \<and> fst (xdp_filter K now packet s) = XDP_PASS then 1 else 0) +
     passed K ip es (kernel_step K (Packet now packet) s)"
| "passed K ip (e # es) s = passed K ip es (kernel_step K e s)"

text \<open>Packets in the order of the clock, from one time to another.\<close>

fun within :: "u64 \<Rightarrow> u64 \<Rightarrow> kernel_event list \<Rightarrow> bool" where
  "within t until [] \<longleftrightarrow> t \<le> until"
| "within t until (Packet now packet # es) \<longleftrightarrow> t \<le> now \<and> within now until es"
| "within t until (e # es) \<longleftrightarrow> within t until es"

lemma within_le: "within t until es \<Longrightarrow> t \<le> until"
  by (induction t until es rule: within.induct) auto

lemma le32_inj: "length a = 4 \<Longrightarrow> length b = 4 \<Longrightarrow> le32 a = le32 b \<Longrightarrow> a = b"
  by (metis put_le32)

text \<open>Whether the blocklist drops a client's packet, and what else its packets and those of others do to its bucket.\<close>

definition blocks :: "lpm_lib \<Rightarrow> u64 \<Rightarrow> bytes \<Rightarrow> xdp \<Rightarrow> bool" where
  "blocks K now ip s \<longleftrightarrow>
     fst (check_map (lookup4 K (LpmMap (block_maps s)) ip) (LpmMap (block_maps s)) now) = XDP_DROP"

lemma client_packet:
  assumes "ipv4_from ip packet"
  shows "fst (xdp_filter K now packet s) =
      (if blocks K now ip s then XDP_DROP else fst (take_token now (ratelimit_per_ipv4 s (le32 ip))))"
    and "ratelimit_per_ipv4 (snd (xdp_filter K now packet s)) (le32 ip) =
      (if blocks K now ip s then ratelimit_per_ipv4 s (le32 ip)
       else Some (snd (take_token now (ratelimit_per_ipv4 s (le32 ip)))))"
  using assms by (simp_all add: xdp_filter_def ipv4_from_def blocks_def check_ratelim_ipv4_def Let_def split_beta)

lemma other_packet:
  assumes "length ip = 4" "\<not> ipv4_from ip packet"
  shows "ratelimit_per_ipv4 (snd (xdp_filter K now packet s)) (le32 ip) = ratelimit_per_ipv4 s (le32 ip)"
proof (cases "34 \<le> length packet \<and> h_proto packet = ETH_P_IP")
  case True
  then have "length (saddr4 packet) = 4" by (auto simp: saddr4_def)
  moreover have "saddr4 packet \<noteq> ip" using True assms(2) by (simp add: ipv4_from_def)
  ultimately have "le32 ip \<noteq> le32 (saddr4 packet)" using assms(1) le32_inj by metis
  with True show ?thesis by (simp add: xdp_filter_def check_ratelim_ipv4_def Let_def split_beta)
next
  case False
  then show ?thesis by (auto simp: xdp_filter_def check_ratelim_ipv6_def Let_def split_beta)
qed

lemma packet_bucket:
  assumes "length ip = 4"
  shows "ratelimit_per_ipv4 (snd (xdp_filter K now packet s)) (le32 ip) = ratelimit_per_ipv4 s (le32 ip) \<and>
      \<not> (ipv4_from ip packet \<and> fst (xdp_filter K now packet s) = XDP_PASS) \<or>
    ratelimit_per_ipv4 (snd (xdp_filter K now packet s)) (le32 ip) = Some (snd (take_token now (ratelimit_per_ipv4 s (le32 ip)))) \<and>
      (ipv4_from ip packet \<and> fst (xdp_filter K now packet s) = XDP_PASS \<longleftrightarrow>
        fst (take_token now (ratelimit_per_ipv4 s (le32 ip))) = XDP_PASS)"
proof (cases "ipv4_from ip packet")
  case True
  then show ?thesis unfolding client_packet [OF True] by simp
next
  case False
  with other_packet [OF assms False] show ?thesis by simp
qed

lemma passed_bucket:
  assumes "length ip = 4" "ratelimit_per_ipv4 s (le32 ip) = Some b" "bucket_ok t b" "within t until es"
  shows "passed K ip es s \<le> allowance until b"
  using assms
proof (induction K ip es s arbitrary: t b rule: passed.induct)
  case (2 K ip now packet es s)
  have now: "t \<le> now" "within now until es" using "2.prems"(4) by simp_all
  have ok: "bucket_ok now b" using "2.prems"(3) now(1) by (auto simp: bucket_ok_def)
  note le = within_le [OF now(2)]
  obtain v b' where token: "take_token now (Some b) = (v, b')" by fastforce
  note ok' = take_token_ok [OF ok le token]
  let ?s = "snd (xdp_filter K now packet s)"
  let ?through = "ipv4_from ip packet \<and> fst (xdp_filter K now packet s) = XDP_PASS"
  from packet_bucket [OF "2.prems"(1), of K now packet s, unfolded "2.prems"(2) token fst_conv snd_conv]
  show ?case
  proof (elim disjE conjE)
    assume "ratelimit_per_ipv4 ?s (le32 ip) = Some b" and no: "\<not> ?through"
    with "2.IH" [of b now] "2.prems"(1) ok now(2) have "passed K ip es (kernel_step K (Packet now packet) s) \<le> allowance until b" by simp
    with no show ?thesis unfolding passed.simps by (simp only: if_False add_0)
  next
    assume "ratelimit_per_ipv4 ?s (le32 ip) = Some b'" and through: "?through \<longleftrightarrow> v = XDP_PASS"
    with "2.IH" [of b' now] "2.prems"(1) ok'(1) now(2)
    have "passed K ip es (kernel_step K (Packet now packet) s) \<le> allowance until b'" by simp
    with ok'(2) show ?thesis unfolding passed.simps through by simp
  qed
qed simp_all

text \<open>The bucket of a client, if it has one, stays in order along the clock.\<close>

definition bucket_at :: "bytes \<Rightarrow> u64 \<Rightarrow> xdp \<Rightarrow> bool" where
  "bucket_at ip t s \<longleftrightarrow> pred_option (bucket_ok t) (ratelimit_per_ipv4 s (le32 ip))"

lemma bucket_at_packet:
  assumes "length ip = 4" "bucket_at ip t s" "t \<le> now"
  shows "bucket_at ip now (snd (xdp_filter K now packet s))"
proof -
  let ?b = "ratelimit_per_ipv4 s (le32 ip)"
  have now: "pred_option (bucket_ok now) ?b"
    using assms(2,3) unfolding bucket_at_def by (cases ?b) (auto simp: bucket_ok_def)
  have "bucket_ok now (snd (take_token now ?b))"
  proof (cases ?b)
    case None
    then show ?thesis by (simp add: take_token_def bucket_ok_def rate_consts)
  next
    case (Some b)
    with now take_token_ok(1) [OF _ order_refl, of now b] show ?thesis by (metis option.pred_inject(2) prod.collapse)
  qed
  with now packet_bucket [OF assms(1), of K now packet s] show ?thesis by (auto simp: bucket_at_def)
qed

lemma bucket_at_run:
  assumes "length ip = 4" "bucket_at ip t0 s" "within t0 t es"
  shows "bucket_at ip t (kernel_run K es s)"
  using assms
proof (induction t0 t es arbitrary: s rule: within.induct)
  case (1 t until)
  then show ?case by (cases "ratelimit_per_ipv4 s (le32 ip)") (auto simp: bucket_at_def bucket_ok_def kernel_run_def)
next
  case (2 t until now packet es)
  with bucket_at_packet show ?case by (simp add: kernel_run_def)
qed (simp_all add: kernel_run_def bucket_at_def)

text \<open>
  A client with no bucket gets one with its first packet that comes so far, full but for that packet. One with a
  bucket may have the remainder of a token beside a full bucket.
\<close>

lemma passed_new:
  assumes "length ip = 4" "ratelimit_per_ipv4 s (le32 ip) = None" "within t until es"
  shows "passed K ip es s \<le> 1000 + (unat until - unat t) div 1000000"
  using assms
proof (induction K ip es s arbitrary: t rule: passed.induct)
  case (2 K ip now packet es s)
  have now: "t \<le> now" "within now until es" using "2.prems"(3) by simp_all
  let ?s = "snd (xdp_filter K now packet s)" and ?b = "\<lparr>last_updated_at = now, tokens = BURST - 1\<rparr>"
  let ?through = "ipv4_from ip packet \<and> fst (xdp_filter K now packet s) = XDP_PASS"
  have less: "(unat until - unat now) div 1000000 \<le> (unat until - unat t) div 1000000"
    using now(1) by (intro div_le_mono diff_le_mono2) (simp add: word_le_nat_alt)
  have "take_token now None = (XDP_PASS, ?b)" by (simp add: take_token_def)
  from packet_bucket [OF "2.prems"(1), of K now packet s, unfolded "2.prems"(2) this fst_conv snd_conv]
  show ?case
  proof (elim disjE conjE)
    assume "ratelimit_per_ipv4 ?s (le32 ip) = None" and no: "\<not> ?through"
    with "2.IH" [of now] "2.prems"(1) now(2)
    have "passed K ip es (kernel_step K (Packet now packet) s) \<le> 1000 + (unat until - unat now) div 1000000" by simp
    with no less show ?thesis unfolding passed.simps by (simp only: if_False add_0)
  next
    assume b: "ratelimit_per_ipv4 ?s (le32 ip) = Some ?b"
    have "passed K ip es (kernel_step K (Packet now packet) s) \<le> allowance until ?b"
      by (rule passed_bucket [OF "2.prems"(1) _ _ now(2)]) (simp_all add: b bucket_ok_def rate_consts)
    also have "\<dots> = 999 + (unat until - unat now) div 1000000" by (simp add: allowance_def rate_consts)
    finally show ?thesis using less unfolding passed.simps by simp
  qed
qed simp_all

lemma passed_known:
  assumes "length ip = 4" "ratelimit_per_ipv4 s (le32 ip) = Some b" "bucket_ok t b" "within t until es"
  shows "passed K ip es s \<le> 1001 + (unat until - unat t) div 1000000"
  using assms
proof (induction K ip es s arbitrary: t rule: passed.induct)
  case (2 K ip now packet es s)
  have now: "t \<le> now" "within now until es" using "2.prems"(4) by simp_all
  have ok: "bucket_ok now b" using "2.prems"(3) now(1) by (auto simp: bucket_ok_def)
  note le = within_le [OF now(2)]
  obtain v b' where token: "take_token now (Some b) = (v, b')" by fastforce
  note spent = take_token_spends [OF ok le token]
  let ?s = "snd (xdp_filter K now packet s)"
  let ?through = "ipv4_from ip packet \<and> fst (xdp_filter K now packet s) = XDP_PASS"
  have less: "(unat until - unat now) div 1000000 \<le> (unat until - unat t) div 1000000"
    using now(1) by (intro div_le_mono diff_le_mono2) (simp add: word_le_nat_alt)
  from packet_bucket [OF "2.prems"(1), of K now packet s, unfolded "2.prems"(2) token fst_conv snd_conv]
  show ?case
  proof (elim disjE conjE)
    assume "ratelimit_per_ipv4 ?s (le32 ip) = Some b" and no: "\<not> ?through"
    with "2.IH" [of now] "2.prems"(1) ok now(2)
    have "passed K ip es (kernel_step K (Packet now packet) s) \<le> 1001 + (unat until - unat now) div 1000000" by simp
    with no less show ?thesis unfolding passed.simps by (simp only: if_False add_0)
  next
    assume b: "ratelimit_per_ipv4 ?s (le32 ip) = Some b'" and through: "?through \<longleftrightarrow> v = XDP_PASS"
    have "passed K ip es (kernel_step K (Packet now packet) s) \<le> allowance until b'"
      by (rule passed_bucket [OF "2.prems"(1) _ spent(1) now(2)]) (simp add: b)
    with spent(2) refill_recent [OF ok le] less show ?thesis unfolding passed.simps through by simp
  qed
qed simp_all

lemma passed_between:
  assumes "length ip = 4" "bucket_at ip t s" "within t until es"
  shows "passed K ip es s \<le> 1001 + (unat until - unat t) div 1000000"
proof (cases "ratelimit_per_ipv4 s (le32 ip)")
  case None
  from passed_new [OF assms(1) None assms(3), of K] show ?thesis by simp
next
  case (Some b)
  with assms(2) have "bucket_ok t b" by (simp add: bucket_at_def)
  from passed_known [OF assms(1) Some this assms(3)] show ?thesis .
qed

lemma within_append: "within t0 t before \<Longrightarrow> within t until es \<Longrightarrow> within t0 until (before @ es)"
proof (induction t0 t before rule: within.induct)
  case (1 t0 t)
  then show ?case by (induction t until es arbitrary: t0 rule: within.induct) auto
qed simp_all

text \<open>
  C5: from the time at which an IPv4 client is first seen, it gets at most 1000 packets through the filter and
  one more for each millisecond; and between any two later readings of the clock at most 1001 and one more for
  each millisecond between them. This holds whatever it has sent before and sends then, whatever anybody else
  sends, and whatever happens to the blocklist, as long as the clock does not run backwards and the kernel does
  not evict the bucket.
\<close>

theorem rate_limit_bound:
  assumes "length ip = 4" "ratelimit_per_ipv4 s (le32 ip) = None" "within t0 t before" "within t until es"
  shows "passed K ip es (kernel_run K before s) \<le> 1001 + (unat until - unat t) div 1000000 \<and>
    passed K ip (before @ es) s \<le> 1000 + (unat until - unat t0) div 1000000"
proof
  have "bucket_at ip t0 s" by (simp add: bucket_at_def assms(2))
  from bucket_at_run [OF assms(1) this assms(3)]
  show "passed K ip es (kernel_run K before s) \<le> 1001 + (unat until - unat t) div 1000000"
    by (rule passed_between [OF assms(1) _ assms(4)])
  show "passed K ip (before @ es) s \<le> 1000 + (unat until - unat t0) div 1000000"
    by (rule passed_new [OF assms(1,2) within_append [OF assms(3,4)]])
qed

theorem rate_limit_bound_witness:
  "passed sample_lpm sample_ip [Packet 1999999 sample_packet, Packet 2000007 sample_packet]
      (kernel_run sample_lpm [Packet 5 sample_packet, Collect (sample_tick 6)] empty_xdp) \<le> 1001 \<and>
   passed sample_lpm sample_ip
      [Packet 5 sample_packet, Collect (sample_tick 6), Packet 1999999 sample_packet, Packet 2000007 sample_packet] empty_xdp \<le> 1002"
  using rate_limit_bound [OF length_sample_ip, of empty_xdp 5 1999999 "[Packet 5 sample_packet, Collect (sample_tick 6)]" 2000007
      "[Packet 1999999 sample_packet, Packet 2000007 sample_packet]" sample_lpm]
  by (simp add: empty_xdp_def)

end
