(* ===== verification/End_To_End.thy ===== *)
theory End_To_End
  imports Ssl_Probes_Props Rate_Limit
begin

text \<open>
  The whole way round: from what nginx reads of a client's connection, through the probes, the ring buffer and
  the Go program, back into the kernel, where the client's packets are dropped.
\<close>

section \<open>Samples on their way\<close>

definition sample_env :: "u64 \<Rightarrow> bytes \<Rightarrow> exit_env" where
  "sample_env t data =
     \<lparr>ktime = t,
      reserved = Some \<lparr>Timens = 0, Tid = 0, Pid = 0, Len = 0, Dir = 0, SSL_ptr = 0, Family = 0, Client_port = 0, Server_port = 0,
        Client_ip = replicate 16 CHR 0x00, Server_ip = replicate 16 CHR 0x00, Buf = replicate 8192 CHR 0x00\<rparr>,
      user_bytes = \<lambda>p n. take n data @ replicate (n - length data) CHR 0x00\<rparr>"

definition sample_sock :: sock where
  "sample_sock = \<lparr>skc_family = 2, skc_v6_daddr = replicate 16 CHR 0x00, skc_v6_rcv_saddr = replicate 16 CHR 0x00,
     skc_daddr = sample_ip, skc_rcv_saddr = sample_ip, skc_dport = 5000, skc_num = 443\<rparr>"

definition nginx :: task where
  "nginx = \<lparr>comm = ''nginx'' @ replicate 11 CHR 0x00, tk_pid = 7, tk_tid = 7\<rparr>"

lemma sample_env_ok: "env_ok (sample_env t data)"
  by (auto simp: env_ok_def sample_env_def sslbuffer_typed_def min_def)

lemma sample_sock_ok: "sock_ok sample_sock"
  by (simp add: sock_ok_def sample_sock_def sample_ip_def)

lemma nginx_target: "is_target nginx"
  by (simp add: is_target_def nginx_def numeral_eq_Suc)

theorem samples_decode_safely_witness:
  "\<exists>e. fst (captured (accept_and_read nginx sample_sock 5 1 100 (sample_env 3 ''GET'') 3) no_connections) = [e] \<and>
     decode_sslbuffer (encode_sslbuffer e @ [CHR 0x00, CHR 0x00]) = Some e"
proof -
  let ?cs = "accept_and_read nginx sample_sock 5 1 100 (sample_env 3 ''GET'') 3"
  have ok: "list_all call_ok ?cs" by (simp add: accept_and_read_def sample_env_ok sample_sock_ok)
  obtain e where e: "fst (captured ?cs no_connections) = [e]"
    using accept_and_read_captured [OF nginx_target, of 5 3 "sample_env 3 ''GET''"] by (fastforce simp: sample_env_def)
  with samples_decode_safely [OF ok, of e "[CHR 0x00, CHR 0x00]"] show ?thesis by simp
qed

section \<open>From the connection to the packets\<close>

text \<open>
  C1: a client connects over IPv4, nginx accepts the connection and reads from it a request that holds an
  encoded attack: the sample that the probes leave makes the Go program ask for a block, and from when the
  kernel has stored it until it expires, 500 hours later, every packet from the client's address is dropped.
\<close>

theorem attack_ends_in_drops:
  assumes nginx: "is_target tk" "0 \<le> fd" "env_ok env" "reserved env = Some e0" "sock_ok sk"
    and client: "skc_family sk \<noteq> afInet6" "skc_daddr sk = ip"
    and data: "user_bytes env ptr (length data) = data" "data = print_head m p v hs' @ body" "length data \<le> 8191"
    and request: "good_line m p v" "m \<noteq> ''PRI''" "\<forall>kx \<in> set hs. plain_header (uni_of L) kx"
      "hs' = hs @ [(''Content-Length'', print_nat 10 (length body))]"
    and attack: "encodes t (p @ '' '' @ body)" "pat \<in> set (sqlPatterns @ cmdPatterns @ xssPatterns)" "sublist pat t"
    and policy: "0 \<le> score_of (w_clients (outside s)) (print_quad ip)"
      "score_of (w_clients (outside s)) (print_quad ip) + 90 < 2 ^ 63"
    and sniffer: "connection_of ssl s = new_connection" "monotonic now \<le> monotonic now + block_duration"
    and kernel: "lpm_ok K" "maps_ok (block_maps x)" "length (LpmMap (block_maps x)) < max_entries"
      "list_all (spares (monotonic now + block_duration) \<lparr>PrefixLen = 32, key_IP = le32 ip\<rparr>) es"
    and packet: "ipv4_from ip packet" "now' \<le> monotonic now + block_duration"
  shows "\<exists>e s' b. fst (captured (accept_and_read tk sk fd ssl ptr env (int (length data))) maps) = [e] \<and>
    sniffLoop L [(now, Sample (encode_sslbuffer e @ padding))] s = Some s' \<and>
    w_blocks (outside s') = w_blocks (outside s) @ [b] \<and>
    fst (xdp_filter K now' packet (kernel_run K (Request b # es) x)) = XDP_DROP"
proof -
  have ip: "length ip = 4" using nginx(5) client(2) by (simp add: sock_ok_def)
  have pos: "data \<noteq> []" using data(2) by (simp add: print_head_def)
  obtain e where e: "fst (captured (accept_and_read tk sk fd ssl ptr env (int (length data))) maps) = [e]"
    "SSL_ptr e = ssl" "Dir e = dirRecv" "Family e = skc_family sk" "Client_ip e = ip @ replicate 12 CHR 0x00"
    "length (Server_ip e) = 16" "unat (Len e) = length data" "Buf e = data @ drop (length data) (Buf e0)"
    using accept_and_read_captured [OF nginx(1,2) _ _ nginx(4), of "int (length data)" sk ssl ptr maps] pos data(1,3) client nginx(5)
    by (auto simp: sock_info_def Let_def sock_ok_def)
  have "sslbuffer_typed e"
    using e(5,6,8) ip nginx(3,4) data(3) by (simp add: sslbuffer_typed_def env_ok_def)
  note decode = decode_encode_sslbuffer [OF this, of padding]
  have "\<exists>s'. handle_event L now e s = Some s' \<and> w_blocks (outside s') = w_blocks (outside s) @
      [Put4 \<lparr>PrefixLen = 32, key_IP = le32 (take 4 (Client_ip e))\<rparr>
         \<lparr>ExpiresAtNs = monotonic now + block_duration, HitCount = 0, Reason = BLOCK_L7_DETECT\<rparr>] \<and>
      (\<exists>req. outside s' = process_request L now (endpoints_of (ip6_of L) e) None req (outside s))"
    by (rule attack_blocked [OF _ e(3) _ _ _ _ request attack]) (use e sniffer client data ip policy in auto)
  then obtain s' where s': "handle_event L now e s = Some s'"
    "w_blocks (outside s') = w_blocks (outside s) @ [AddBlocked (ip6_of L) (monotonic now) (print_quad ip) block_duration BLOCK_L7_DETECT]"
    using AddBlocked_quad [OF ip] e(5) ip by auto
  have loop: "sniffLoop L [(now, Sample (encode_sslbuffer e @ padding))] s = Some s'"
    using s'(1) by (simp add: sniffLoop_def decode)
  note drop = block_request_drops [OF kernel(1-3) ip sniffer(2) kernel(4) packet, of "ip6_of L" BLOCK_L7_DETECT]
  with e(1) loop s'(2) show ?thesis by (simp add: IP_String_def To4_def ip)
qed

theorem attack_ends_in_drops_witness:
  "\<exists>e s' b.
     fst (captured (accept_and_read nginx sample_sock 5 1 100 (sample_env 3 attack_bytes) (int (length attack_bytes))) no_connections) = [e] \<and>
     sniffLoop sample_libs [(sample_now, Sample (encode_sslbuffer e @ [CHR 0x00, CHR 0x00]))] (new_sniffer sample_world) = Some s' \<and>
     w_blocks (outside s') = w_blocks (outside (new_sniffer sample_world :: unit sniffer)) @ [b] \<and>
     fst (xdp_filter sample_lpm 9 sample_packet (kernel_run sample_lpm (Request b # [Packet 8 sample_packet]) empty_xdp)) = XDP_DROP"
proof (rule attack_ends_in_drops [OF nginx_target _ sample_env_ok _ sample_sock_ok _ _ _ _ _ attack_facts(1) _ _ attack_headers_def
      attack_facts(2-4) _ _ _ _ sample_lpm_ok])
  show "attack_bytes = print_head ''GET'' ''/?q=Un%69on+Select'' ''HTTP/1.1'' attack_headers @ []"
    by (simp add: attack_bytes_def)
  show "ipv4_from sample_ip sample_packet" by (rule sample_packet_from)
qed (use host_header [of id] in \<open>simp_all add: sample_env_def sample_sock_def afInet6_def attack_bytes_eval sample_facts
    empty_xdp_def maps_ok_def max_entries_def sample_packet_from block_duration_def\<close>)

end
