(* ===== verification/H3_Probes.thy ===== *)
theory H3_Probes
  imports Samples
begin

text \<open>
  The probes on nginx's HTTP/3 code, \<^verbatim>\<open>src/bpf/http3_headers.bpf.c\<close>. They read header fields out of nginx's memory
  when it has parsed a request's field, encodes a response's field or changes a dynamic table, and leave a
  sample for the Go program. nginx's memory, the clock and the memory that a ring buffer reserves are
  arguments, as are registers. The offsets are those of nginx's structures that the source names.
\<close>

section \<open>Memory\<close>

text \<open>
  A read of a word, 0 if it fails, and a read of bytes: what it leaves in the buffer, and whether it
  succeeded.
\<close>

record memory =
  word_at :: "u64 \<Rightarrow> u64"
  bytes_at :: "u64 \<Rightarrow> nat \<Rightarrow> bytes \<times> bool"

definition OFF_NAME :: u64 where "OFF_NAME = 144"
definition OFF_VALUE :: u64 where "OFF_VALUE = 160"
definition OFF_ADDR_TEXT :: u64 where "OFF_ADDR_TEXT = 120"
definition MAX_NAME :: u32 where "MAX_NAME = 128"
definition MAX_VALUE :: u32 where "MAX_VALUE = 512"
definition MAX_IP :: u32 where "MAX_IP = 64"
definition HOOK_FIELD_LRI :: u32 where "HOOK_FIELD_LRI = 1"

text \<open>The destination is a buffer with a content of its own; of the length only the low bits are kept.\<close>

definition read_literal :: "memory \<Rightarrow> bytes \<Rightarrow> u32 \<Rightarrow> u64 \<Rightarrow> u64 \<Rightarrow> bytes \<times> u32" where
  "read_literal M dst cap data len =
     (let l = ucast len AND (cap - 1) in
      if data \<noteq> 0 \<and> 0 < l then
        (let (content, ok) = bytes_at M data (unat l); dst = content @ drop (unat l) dst
         in if ok then (dst, l) else (dst, 0))
      else (dst, 0))"

definition read_ngx_str :: "memory \<Rightarrow> bytes \<Rightarrow> u32 \<Rightarrow> u64 \<Rightarrow> bytes \<times> u32" where
  "read_ngx_str M dst cap str_ptr =
     (if str_ptr = 0 then (dst, 0)
      else read_literal M dst cap (word_at M (str_ptr + 8)) (word_at M str_ptr))"

definition read_conn_ip :: "memory \<Rightarrow> bytes \<Rightarrow> u32 \<Rightarrow> u64 \<Rightarrow> bytes \<times> u32" where
  "read_conn_ip M dst cap c_ptr =
     (if c_ptr = 0 then (dst, 0)
      else read_literal M dst cap (word_at M (c_ptr + OFF_ADDR_TEXT + 8)) (word_at M (c_ptr + OFF_ADDR_TEXT)))"

text \<open>Writing a zero to the first byte.\<close>

definition cleared :: "bytes \<Rightarrow> bytes" where
  "cleared b = b[0 := CHR 0x00]"

section \<open>Requests\<close>

record probe_state =
  c_ptr :: u64
  st_ptr :: u64
  req_id :: u64

record h3_maps =
  st_map :: "u64 \<rightharpoonup> probe_state"
  request_id_map :: "u64 \<rightharpoonup> u64"
  pid_conn_map :: "u64 \<rightharpoonup> u64"
  req_counter :: u64

text \<open>The hash maps take a new entry only if they have room.\<close>

record room =
  room_st :: bool
  room_id :: bool
  room_conn :: bool

definition put_if :: "bool \<Rightarrow> 'k \<Rightarrow> 'v \<Rightarrow> ('k \<rightharpoonup> 'v) \<Rightarrow> ('k \<rightharpoonup> 'v)" where
  "put_if ok k v m = (if ok \<or> m k \<noteq> None then m(k \<mapsto> v) else m)"

definition entry_parse_headers :: "room \<Rightarrow> u64 \<Rightarrow> u64 \<Rightarrow> u64 \<Rightarrow> h3_maps \<Rightarrow> h3_maps" where
  "entry_parse_headers r pid_tgid c st m =
     (let (rid, m) = (case request_id_map m c of
                 Some i \<Rightarrow> (i, m)
               | None \<Rightarrow>
                   (let m = m\<lparr>req_counter := req_counter m + 1\<rparr>; i = req_counter m - 1
                    in (i, m\<lparr>request_id_map := put_if (room_id r) c i (request_id_map m)\<rparr>)))
      in m\<lparr>st_map := put_if (room_st r) pid_tgid \<lparr>c_ptr = c, st_ptr = st, req_id = rid\<rparr> (st_map m),
           pid_conn_map := put_if (room_conn r) pid_tgid c (pid_conn_map m)\<rparr>)"

definition ret_parse_headers ::
  "memory \<Rightarrow> u64 \<Rightarrow> u64 \<Rightarrow> u32 \<Rightarrow> reqHeader option \<Rightarrow> h3_maps \<Rightarrow> reqHeader option \<times> h3_maps" where
  "ret_parse_headers M pid_tgid now rc slot m =
     (case st_map m pid_tgid of
        None \<Rightarrow> (None, m)
      | Some st \<Rightarrow>
          (let m = m\<lparr>st_map := (st_map m)(pid_tgid := None)\<rparr> in
           if sint rc \<noteq> ngxOK \<and> sint rc \<noteq> ngxDone then (None, m)
           else case slot of
             None \<Rightarrow> (None, m)
           | Some ev \<Rightarrow>
               (let (name, nlen) = read_literal M (cleared (rq_Name ev)) MAX_NAME
                      (word_at M (st_ptr st + OFF_NAME + 8)) (word_at M (st_ptr st + OFF_NAME));
                    (val, vlen) = read_literal M (cleared (rq_Value ev)) MAX_VALUE
                      (word_at M (st_ptr st + OFF_VALUE + 8)) (word_at M (st_ptr st + OFF_VALUE));
                    (ip, iplen) = read_conn_ip M (cleared (rq_Ip ev)) MAX_IP (c_ptr st);
                    m = (if sint rc = ngxDone then m\<lparr>request_id_map := (request_id_map m)(c_ptr st := None)\<rparr> else m)
                in (Some \<lparr>rq_PidTgid = pid_tgid, rq_TsNs = now, rq_ConnID = c_ptr st, rq_ReqID = req_id st, rq_Ret = rc,
                      rq_NameLen = nlen, rq_ValueLen = vlen, rq_Name = name, rq_Value = val, rq_IpLen = iplen, rq_Ip = ip\<rparr>,
                    m))))"

section \<open>Responses\<close>

definition lookup_conn_by_pid :: "h3_maps \<Rightarrow> u64 \<Rightarrow> u64" where
  "lookup_conn_by_pid m pid_tgid = (case pid_conn_map m pid_tgid of Some c \<Rightarrow> c | None \<Rightarrow> 0)"

definition entry_encode_field_lri ::
  "memory \<Rightarrow> u64 \<Rightarrow> u64 \<Rightarrow> u64 \<Rightarrow> u64 \<Rightarrow> u64 \<Rightarrow> u64 \<Rightarrow> resHeader option \<Rightarrow> h3_maps \<Rightarrow> resHeader option" where
  "entry_encode_field_lri M pid_tgid now dyn index data val_len slot m =
     map_option (\<lambda>ev.
       (let c = lookup_conn_by_pid m pid_tgid;
            (val, vlen) = read_literal M (cleared (rs_Value ev)) MAX_VALUE data val_len;
            (ip, iplen) = read_conn_ip M (cleared (rs_Ip ev)) MAX_IP c
        in \<lparr>rs_PidTgid = pid_tgid, rs_TsNs = now, rs_Conn = c, rs_Hook = HOOK_FIELD_LRI, rs_Dynamic = ucast dyn,
            rs_Index = index, rs_NameLen = 0, rs_ValueLen = vlen, rs_Name = cleared (rs_Name ev), rs_Value = val,
            rs_IpLen = iplen, rs_Ip = ip\<rparr>)) slot"

section \<open>Tables\<close>

text \<open>What the three probes of the dynamic table share: the event, with name and value read before.\<close>

definition table_event ::
  "memory \<Rightarrow> u64 \<Rightarrow> u64 \<Rightarrow> u64 \<Rightarrow> u32 \<Rightarrow> u32 \<Rightarrow> u64 \<Rightarrow> bytes \<times> u32 \<Rightarrow> bytes \<times> u32 \<Rightarrow> tableEvent \<Rightarrow> tableEvent" where
  "table_event M pid_tgid now c opr dyn index name val ev =
     (let (ip, iplen) = read_conn_ip M (cleared (te_Ip ev)) MAX_IP c
      in \<lparr>te_PidTgid = pid_tgid, te_TsNs = now, te_Conn = c, te_Op = opr, te_Dynamic = dyn, te_Index = index,
          te_NameLen = snd name, te_ValueLen = snd val, te_Name = fst name, te_Value = fst val,
          te_IpLen = iplen, te_Ip = ip\<rparr>)"

definition entry_insert :: "memory \<Rightarrow> u64 \<Rightarrow> u64 \<Rightarrow> u64 \<Rightarrow> u64 \<Rightarrow> u64 \<Rightarrow> tableEvent option \<Rightarrow> tableEvent option" where
  "entry_insert M pid_tgid now c name_ptr value_ptr =
     map_option (\<lambda>ev. table_event M pid_tgid now c tableOpInsert 0 (- 1)
       (read_ngx_str M (cleared (te_Name ev)) MAX_NAME name_ptr)
       (read_ngx_str M (cleared (te_Value ev)) MAX_VALUE value_ptr) ev)"

definition entry_ref_insert ::
  "memory \<Rightarrow> u64 \<Rightarrow> u64 \<Rightarrow> u64 \<Rightarrow> u64 \<Rightarrow> u64 \<Rightarrow> u64 \<Rightarrow> tableEvent option \<Rightarrow> tableEvent option" where
  "entry_ref_insert M pid_tgid now c dyn index value_ptr =
     map_option (\<lambda>ev. table_event M pid_tgid now c tableOpRefInsert (ucast dyn) index
       (cleared (te_Name ev), 0)
       (read_ngx_str M (cleared (te_Value ev)) MAX_VALUE value_ptr) ev)"

definition entry_duplicate :: "memory \<Rightarrow> u64 \<Rightarrow> u64 \<Rightarrow> u64 \<Rightarrow> u64 \<Rightarrow> tableEvent option \<Rightarrow> tableEvent option" where
  "entry_duplicate M pid_tgid now c index =
     map_option (\<lambda>ev. table_event M pid_tgid now c tableOpDuplicate 1 index
       (cleared (te_Name ev), 0) (cleared (te_Value ev), 0) ev)"

end
