(* ===== verification/H3_Probes_Props.thy ===== *)
theory H3_Probes_Props
  imports H3_Probes
begin

text \<open>
  What the probes guarantee to the Go program: lengths that are within their arrays, so its loops never
  panic. And what they lose: of a long value only its length modulo the array's size is captured, and a
  response's field is put down to the connection whose request the worker parsed last.
\<close>

section \<open>Types\<close>

definition memory_ok :: "memory \<Rightarrow> bool" where
  "memory_ok M \<longleftrightarrow> (\<forall>p n. length (fst (bytes_at M p n)) = n)"

definition rq_typed :: "reqHeader \<Rightarrow> bool" where
  "rq_typed ev \<longleftrightarrow> length (rq_Name ev) = 128 \<and> length (rq_Value ev) = 512 \<and> length (rq_Ip ev) = 64"

definition rs_typed :: "resHeader \<Rightarrow> bool" where
  "rs_typed ev \<longleftrightarrow> length (rs_Name ev) = 128 \<and> length (rs_Value ev) = 512 \<and> length (rs_Ip ev) = 64"

definition te_typed :: "tableEvent \<Rightarrow> bool" where
  "te_typed ev \<longleftrightarrow> length (te_Name ev) = 128 \<and> length (te_Value ev) = 512 \<and> length (te_Ip ev) = 64"

lemma length_cleared [simp]: "length (cleared b) = length b"
  by (simp add: cleared_def)

lemma and_less: "0 < cap \<Longrightarrow> unat ((x :: u32) AND (cap - 1)) < unat cap"
proof -
  assume "0 < cap"
  then have "cap \<noteq> 0" by auto
  then have "unat (cap - 1) < unat cap" by (simp add: unat_minus_one unat_gt_0)
  moreover have "unat (x AND (cap - 1)) \<le> unat (cap - 1)"
    by (simp add: word_and_le1 flip: word_le_nat_alt)
  ultimately show ?thesis by linarith
qed

text \<open>What a read leaves in a buffer whose size is the cap.\<close>

definition text_ok :: "u32 \<Rightarrow> bytes \<times> u32 \<Rightarrow> bool" where
  "text_ok cap r \<longleftrightarrow> length (fst r) = unat cap \<and> unat (snd r) < unat cap"

lemma text_le: "text_ok cap r \<Longrightarrow> length (fst r) = unat cap \<and> unat (snd r) \<le> unat cap"
  by (simp add: text_ok_def)

lemma read_literal_ok:
  assumes "memory_ok M" "length dst = unat cap" "0 < cap"
  shows "text_ok cap (read_literal M dst cap data len)"
proof -
  have "0 < unat cap" using assms(3) by (simp add: word_less_nat_alt)
  then show ?thesis
    using assms(1,2) and_less [OF assms(3), of "ucast len"]
    by (auto simp: read_literal_def text_ok_def memory_ok_def Let_def split_beta)
qed

lemma read_ngx_str_ok:
  "memory_ok M \<Longrightarrow> length dst = unat cap \<Longrightarrow> 0 < cap \<Longrightarrow> text_ok cap (read_ngx_str M dst cap p)"
  using read_literal_ok by (auto simp: read_ngx_str_def text_ok_def word_less_nat_alt)

lemma read_conn_ip_ok:
  "memory_ok M \<Longrightarrow> length dst = unat cap \<Longrightarrow> 0 < cap \<Longrightarrow> text_ok cap (read_conn_ip M dst cap p)"
  using read_literal_ok by (auto simp: read_conn_ip_def text_ok_def word_less_nat_alt)

lemmas caps = MAX_NAME_def MAX_VALUE_def MAX_IP_def

lemma no_text_ok: "length dst = unat cap \<Longrightarrow> 0 < cap \<Longrightarrow> text_ok cap (dst, 0)"
  by (simp add: text_ok_def word_less_nat_alt)

lemma ret_parse_headers_ok:
  assumes "memory_ok M" "pred_option rq_typed slot"
  shows "pred_option (\<lambda>ev. rq_typed ev \<and> rq_ok ev) (fst (ret_parse_headers M p now rc slot m))"
proof (cases slot)
  case None
  then show ?thesis by (auto simp: ret_parse_headers_def Let_def split: option.split)
next
  case (Some ev)
  with assms(2) have ev: "length (rq_Name ev) = 128" "length (rq_Value ev) = 512" "length (rq_Ip ev) = 64"
    by (simp_all add: rq_typed_def)
  have "text_ok MAX_NAME (read_literal M (cleared (rq_Name ev)) MAX_NAME a b)"
    "text_ok MAX_VALUE (read_literal M (cleared (rq_Value ev)) MAX_VALUE c d)"
    "text_ok MAX_IP (read_conn_ip M (cleared (rq_Ip ev)) MAX_IP e)" for a b c d e
    by (intro read_literal_ok read_conn_ip_ok assms(1); simp add: ev caps)+
  note texts = this [THEN text_le, unfolded caps]
  show ?thesis
    using texts
    by (auto simp: ret_parse_headers_def Let_def split_beta Some rq_typed_def rq_ok_def caps split: option.split)
qed

lemma encode_field_ok:
  assumes "memory_ok M" "pred_option rs_typed slot"
  shows "pred_option (\<lambda>ev. rs_typed ev \<and> rs_ok ev) (entry_encode_field_lri M p now dyn i d vl slot m)"
proof (cases slot)
  case (Some ev)
  with assms(2) have ev: "length (rs_Name ev) = 128" "length (rs_Value ev) = 512" "length (rs_Ip ev) = 64"
    by (simp_all add: rs_typed_def)
  have "text_ok MAX_VALUE (read_literal M (cleared (rs_Value ev)) MAX_VALUE a b)"
    "text_ok MAX_IP (read_conn_ip M (cleared (rs_Ip ev)) MAX_IP c)" for a b c
    by (intro read_literal_ok read_conn_ip_ok assms(1); simp add: ev caps)+
  note texts = this [THEN text_le, unfolded caps]
  show ?thesis
    using texts ev
    by (auto simp: entry_encode_field_lri_def Let_def split_beta Some rs_typed_def rs_ok_def caps)
qed (simp add: entry_encode_field_lri_def)

lemma table_event_ok:
  assumes "memory_ok M" "te_typed ev" "text_ok MAX_NAME name" "text_ok MAX_VALUE val"
  shows "te_typed (table_event M p now c opr dyn i name val ev) \<and> te_ok (table_event M p now c opr dyn i name val ev)"
proof -
  have "text_ok MAX_IP (read_conn_ip M (cleared (te_Ip ev)) MAX_IP c)"
    by (rule read_conn_ip_ok [OF assms(1)]) (use assms(2) in \<open>simp_all add: te_typed_def caps\<close>)
  with assms(3,4) show ?thesis
    by (auto simp: table_event_def te_typed_def te_ok_def text_ok_def caps split_beta)
qed

lemma table_probes_ok:
  assumes "memory_ok M" "pred_option te_typed slot"
  shows "pred_option (\<lambda>ev. te_typed ev \<and> te_ok ev) (entry_insert M p now c np vp slot)"
    "pred_option (\<lambda>ev. te_typed ev \<and> te_ok ev) (entry_ref_insert M p now c dyn i vp slot)"
    "pred_option (\<lambda>ev. te_typed ev \<and> te_ok ev) (entry_duplicate M p now c i slot)"
proof -
  have texts: "text_ok MAX_NAME (read_ngx_str M (cleared (te_Name ev)) MAX_NAME a)"
    "text_ok MAX_VALUE (read_ngx_str M (cleared (te_Value ev)) MAX_VALUE a)"
    "text_ok MAX_NAME (cleared (te_Name ev), 0)" "text_ok MAX_VALUE (cleared (te_Value ev), 0)" if "te_typed ev" for ev a
    using that by (intro read_ngx_str_ok no_text_ok assms(1); simp add: te_typed_def caps)+
  show "pred_option (\<lambda>ev. te_typed ev \<and> te_ok ev) (entry_insert M p now c np vp slot)"
    "pred_option (\<lambda>ev. te_typed ev \<and> te_ok ev) (entry_ref_insert M p now c dyn i vp slot)"
    "pred_option (\<lambda>ev. te_typed ev \<and> te_ok ev) (entry_duplicate M p now c i slot)"
    using assms(2)
    by (cases slot; simp add: entry_insert_def entry_ref_insert_def entry_duplicate_def table_event_ok [OF assms(1)] texts)+
qed

text \<open>
  C10: whatever is in nginx's memory, a sample that one of the probes leaves never makes the Go program's
  loops panic: its lengths are within its arrays.
\<close>

theorem h3_samples_never_panic:
  assumes "memory_ok M" "pred_option rq_typed rq" "pred_option rs_typed rs" "pred_option te_typed te"
  shows "pred_option (\<lambda>ev. handle_req L t srv ev s \<noteq> None) (fst (ret_parse_headers M p now rc rq m)) \<and>
    pred_option (\<lambda>ev. resp_base ev s \<noteq> None) (entry_encode_field_lri M p now dyn i d vl rs m) \<and>
    pred_option (\<lambda>ev. handle_table ev T \<noteq> None) (entry_insert M p now c np vp te) \<and>
    pred_option (\<lambda>ev. handle_table ev T \<noteq> None) (entry_ref_insert M p now c dyn i vp te) \<and>
    pred_option (\<lambda>ev. handle_table ev T \<noteq> None) (entry_duplicate M p now c i te)"
  by ((intro conjI); (rule option.pred_mono_strong,
        (rule ret_parse_headers_ok [OF assms(1,2)] encode_field_ok [OF assms(1,3)] table_probes_ok [OF assms(1,4)]),
        auto simp: handle_req_total resp_base_total handle_table_total))

section \<open>What is lost\<close>

text \<open>A string of nginx's, as its length and its address, which can be read.\<close>

definition string_at :: "memory \<Rightarrow> u64 \<Rightarrow> bytes \<Rightarrow> bool" where
  "string_at M p data \<longleftrightarrow> word_at M p = of_nat (length data) \<and> length data < 2 ^ 64 \<and> word_at M (p + 8) \<noteq> 0 \<and>
     list_all (\<lambda>n. bytes_at M (word_at M (p + 8)) n = (take n data, True)) [0..<Suc (length data)]"

lemma string_at_bytes: "string_at M p data \<Longrightarrow> n \<le> length data \<Longrightarrow> bytes_at M (word_at M (p + 8)) n = (take n data, True)"
  by (simp add: string_at_def list_all_iff del: upt_Suc)

lemma low_bits:
  assumes "n < 2 ^ 64" "k \<le> 32"
  shows "unat (ucast (of_nat n :: u64) AND (2 ^ k - 1) :: u32) = n mod 2 ^ k"
proof -
  have "ucast (of_nat n :: u64) AND (2 ^ k - 1) = (take_bit k (ucast (of_nat n :: u64)) :: u32)"
    by (simp add: take_bit_eq_mask mask_eq_exp_minus_1)
  then have "unat (ucast (of_nat n :: u64) AND (2 ^ k - 1) :: u32) = take_bit k (take_bit 32 (unat (of_nat n :: u64)))"
    by (simp add: unsigned_take_bit_eq unsigned_ucast_eq)
  also have "\<dots> = n mod 2 ^ 32 mod 2 ^ k"
    using assms(1) by (simp add: unat_of_nat take_bit_nat_eq_self take_bit_eq_mod)
  also have "\<dots> = n mod 2 ^ k" by (rule mod_mod_cancel) (rule le_imp_power_dvd [OF assms(2)])
  finally show ?thesis .
qed

lemma read_string:
  assumes "string_at M p data" "length dst = 2 ^ k" "k \<le> 31"
  shows "\<exists>dst' l. read_literal M dst (2 ^ k) (word_at M (p + 8)) (word_at M p) = (dst', l) \<and>
    take (unat l) dst' = take (length data mod 2 ^ k) data"
proof -
  let ?l = "ucast (word_at M p) AND (2 ^ k - 1) :: u32"
  have l: "unat ?l = length data mod 2 ^ k" using assms low_bits [of "length data" k] by (simp add: string_at_def)
  have "unat ?l \<le> length data" using l by simp
  note content = string_at_bytes [OF assms(1) this]
  have "word_at M (p + 8) \<noteq> 0" using assms(1) by (simp add: string_at_def)
  then show ?thesis
    using content l \<open>unat ?l \<le> length data\<close>
    by (auto simp: read_literal_def Let_def split_beta word_less_nat_alt min_def)
qed

text \<open>
  C11: of a header's value that nginx has parsed, only as many bytes are captured as its length leaves modulo
  512: a value of 512 bytes, or 1024, is captured as the empty text, so nothing in it is ever analysed.
\<close>

theorem long_value_lost:
  assumes "st_map m p = Some st" "sint rc = ngxOK" "rq_typed ev" "string_at M (st_ptr st + OFF_VALUE) val"
  shows "\<exists>ev'. fst (ret_parse_headers M p now rc (Some ev) m) = Some ev' \<and>
    snd (rq_field ev') = take (length val mod 512) val"
proof -
  have "length (cleared (rq_Value ev)) = 2 ^ 9" using assms(3) by (simp add: rq_typed_def)
  from read_string [OF assms(4) this] obtain dst l where
    "read_literal M (cleared (rq_Value ev)) MAX_VALUE (word_at M (st_ptr st + OFF_VALUE + 8)) (word_at M (st_ptr st + OFF_VALUE)) = (dst, l)"
    "take (unat l) dst = take (length val mod 512) val"
    by (auto simp: caps)
  with assms(1,2) show ?thesis
    by (auto simp: ret_parse_headers_def Let_def split_beta rq_field_def)
qed

text \<open>
  A response's field is put down to the connection whose request the worker began to parse last, whichever
  connection the response is for.
\<close>

lemma response_put_down_to_last:
  assumes "room_conn r \<or> pid_conn_map m p \<noteq> None"
  shows "map_option rs_Conn
    (entry_encode_field_lri M p now dyn i d vl (Some ev) (entry_parse_headers r p c st m)) = Some c"
  using assms
  by (auto simp: entry_encode_field_lri_def entry_parse_headers_def lookup_conn_by_pid_def put_if_def Let_def split_beta
      split: option.split)

section \<open>Samples\<close>

definition sample_memory :: "bytes \<Rightarrow> memory" where
  "sample_memory data =
     \<lparr>word_at = \<lambda>p. if p = 1000 + OFF_VALUE then of_nat (length data) else if p = 1000 + OFF_VALUE + 8 then 5000 else 0,
      bytes_at = \<lambda>p n. (take n data @ replicate (n - length data) CHR 0x00, True)\<rparr>"

definition rq_slot :: reqHeader where
  "rq_slot = \<lparr>rq_PidTgid = 0, rq_TsNs = 0, rq_ConnID = 0, rq_ReqID = 0, rq_Ret = 0, rq_NameLen = 0, rq_ValueLen = 0,
     rq_Name = replicate 128 CHR 0x00, rq_Value = replicate 512 CHR 0x00, rq_IpLen = 0, rq_Ip = replicate 64 CHR 0x00\<rparr>"

definition no_requests :: h3_maps where
  "no_requests = \<lparr>st_map = Map.empty, request_id_map = Map.empty, pid_conn_map = Map.empty, req_counter = 0\<rparr>"

definition parsing :: h3_maps where
  "parsing = entry_parse_headers \<lparr>room_st = True, room_id = True, room_conn = True\<rparr> 7 2000 1000 no_requests"

theorem h3_samples_never_panic_witness:
  "pred_option (\<lambda>ev. handle_req sample_libs sample_now ([], 0) ev (new_h3 sample_world) \<noteq> None)
     (fst (ret_parse_headers (sample_memory ''x'') 7 9 0 (Some rq_slot) parsing))"
  by (rule conjunct1 [OF h3_samples_never_panic [where rs = None and te = None]])
    (auto simp: memory_ok_def sample_memory_def rq_slot_def rq_typed_def min_def)

theorem long_value_lost_witness:
  "\<exists>ev. fst (ret_parse_headers (sample_memory (replicate 513 CHR ''x'')) 7 9 0 (Some rq_slot) parsing) = Some ev \<and>
     snd (rq_field ev) = ''x''"
proof -
  let ?v = "replicate 513 CHR ''x''"
  have st: "st_map parsing 7 = Some \<lparr>c_ptr = 2000, st_ptr = 1000, req_id = 0\<rparr>"
    by (simp add: parsing_def no_requests_def entry_parse_headers_def put_if_def)
  have "string_at (sample_memory ?v) (1000 + OFF_VALUE) ?v"
    by (auto simp: string_at_def sample_memory_def list_all_iff simp del: upt_Suc)
  with long_value_lost [OF st, of 0 rq_slot "sample_memory ?v" ?v 9] show ?thesis
    by (simp add: ngxOK_def rq_typed_def rq_slot_def)
qed

end
