(* ===== verification/Logger_Workers.thy ===== *)
theory Logger_Workers
  imports Logger_Client "HOL-Library.Multiset"
begin

text \<open>
  The goroutines that empty the logger's queues, \<^verbatim>\<open>startWorker\<close> and \<^verbatim>\<open>startDetectionWorker\<close>: each takes an
  event off the channel, sends it to its index and waits for the answer. Every Init that succeeds starts
  one for each queue, so \<^verbatim>\<open>main\<close> has one and \<^verbatim>\<open>main_h3\<close>, whose two sniffers both call Init, has two. Their
  turns and the sniffers' sends interleave freely.
\<close>

section \<open>Sending to an index\<close>

text \<open>The documents that are sent with the index they are for, and whether there was an error.\<close>

definition indexEvent :: "(bytes \<Rightarrow> HTTPEvent \<Rightarrow> bool) \<Rightarrow> logger \<Rightarrow> HTTPEvent \<Rightarrow> (bytes \<times> HTTPEvent) list \<times> bool" where
  "indexEvent answers l event =
     (if \<not> Client l then ([], False) else ([(''nginxray-http'', event)], \<not> answers ''nginxray-http'' event))"

definition indexDetection ::
  "(bytes \<Rightarrow> DetectionEvent \<Rightarrow> bool) \<Rightarrow> logger \<Rightarrow> DetectionEvent \<Rightarrow> (bytes \<times> DetectionEvent) list \<times> bool" where
  "indexDetection answers l det =
     (if \<not> Client l then ([], False) else ([(''nginxray-security'', det)], \<not> answers ''nginxray-security'' det))"

section \<open>Workers on a queue\<close>

text \<open>
  The state of a queue and its workers: what each worker has in hand, what was accepted, what was sent,
  and what was sent and answered with an error, which is logged and not tried again.
\<close>

record 'e pool =
  queue :: logger
  hands :: "'e option list"
  accepted :: "'e list"
  sent :: "(bytes \<times> 'e) list"
  refused :: "'e list"

definition new_pool :: "'e pool" where
  "new_pool = \<lparr>queue = new_logger, hands = [], accepted = [], sent = [], refused = []\<rparr>"

definition in_hand :: "'e option list \<Rightarrow> 'e list" where
  "in_hand hs = concat (map (case_option [] (\<lambda>e. [e])) hs)"

text \<open>A call of Init; a sniffer that enqueues; an idle worker that takes; a busy one that sends and has its answer.\<close>

datatype 'e turn = Connect cluster | Enqueue 'e | Take nat | Index nat

fun pool_step ::
  "('e \<Rightarrow> logger \<Rightarrow> logger) \<Rightarrow> (logger \<Rightarrow> ('e \<times> logger) option) \<Rightarrow> (logger \<Rightarrow> 'e list) \<Rightarrow>
     (logger \<Rightarrow> 'e \<Rightarrow> (bytes \<times> 'e) list \<times> bool) \<Rightarrow> 'e turn \<Rightarrow> 'e pool \<Rightarrow> 'e pool" where
  "pool_step push pop items index (Connect C) p =
     p\<lparr>queue := snd (Init C (queue p)),
       hands := hands p @ (if newTyped_ok C \<and> info_ok C then [None] else [])\<rparr>"
| "pool_step push pop items index (Enqueue e) p =
     p\<lparr>queue := push e (queue p),
       accepted := accepted p @ (if items (push e (queue p)) = items (queue p) then [] else [e])\<rparr>"
| "pool_step push pop items index (Take i) p =
     (if i < length (hands p) \<and> hands p ! i = None then
        (case pop (queue p) of
           None \<Rightarrow> p
         | Some (e, l) \<Rightarrow> p\<lparr>queue := l, hands := (hands p)[i := Some e]\<rparr>)
      else p)"
| "pool_step push pop items index (Index i) p =
     (if i < length (hands p) then
        (case hands p ! i of
           None \<Rightarrow> p
         | Some e \<Rightarrow>
             (let (docs, failed) = index (queue p) e
              in p\<lparr>hands := (hands p)[i := None], sent := sent p @ docs,
                   refused := refused p @ (if failed then [e] else [])\<rparr>))
      else p)"

definition pool_run where
  "pool_run push pop items index ts = fold (pool_step push pop items index) ts new_pool"

lemma in_hand_simps [simp]: "in_hand [] = []" "in_hand [None] = []" "in_hand (hs @ [None]) = in_hand hs"
  by (simp_all add: in_hand_def)

lemma in_hand_update:
  assumes "i < length hs"
  shows "mset (in_hand (hs[i := h])) + mset (case_option [] (\<lambda>e. [e]) (hs ! i)) =
      mset (in_hand hs) + mset (case_option [] (\<lambda>e. [e]) h)"
  using assms
proof (induction hs arbitrary: i)
  case (Cons h' hs)
  then show ?case by (cases i) (auto simp: in_hand_def ac_simps)
qed simp

lemma Init_client: "Client (snd (Init C l)) \<longleftrightarrow> Client l \<or> newTyped_ok C \<and> info_ok C"
  by (simp add: Init_def split_beta Let_def)

text \<open>With one worker at most, what is in hand is what that one holds.\<close>

lemma in_hand_one:
  assumes "length hs \<le> 1" "i < length hs"
  shows "in_hand hs = case_option [] (\<lambda>e. [e]) (hs ! i)" "in_hand (hs[i := h]) = case_option [] (\<lambda>e. [e]) h"
  using assms by (cases hs; simp add: in_hand_def)+

section \<open>What the workers keep\<close>

locale worker_queue = bounded_queue push pop items Client queue_capacity
  for push :: "'e \<Rightarrow> logger \<Rightarrow> logger" and pop items +
  fixes index :: "logger \<Rightarrow> 'e \<Rightarrow> (bytes \<times> 'e) list \<times> bool" and name :: bytes and ok :: "'e \<Rightarrow> bool"
  assumes items_Init: "items (snd (Init C l)) = items l"
    and index_sends: "Client l \<Longrightarrow> index l e = ([(name, e)], \<not> ok e)"
    and items_new: "items new_logger = []"
begin

definition kept :: "'e pool \<Rightarrow> bool" where
  "kept p \<longleftrightarrow> (hands p \<noteq> [] \<longrightarrow> Client (queue p)) \<and> length (items (queue p)) \<le> queue_capacity \<and>
     mset (accepted p) = mset (map snd (sent p)) + mset (in_hand (hands p)) + mset (items (queue p)) \<and>
     (length (hands p) \<le> 1 \<longrightarrow> accepted p = map snd (sent p) @ in_hand (hands p) @ items (queue p)) \<and>
     fst ` set (sent p) \<subseteq> {name} \<and> refused p = filter (\<lambda>e. \<not> ok e) (map snd (sent p))"

lemma step_kept: "kept p \<Longrightarrow> kept (pool_step push pop items index t p)"
proof (cases t)
  case (Connect C)
  assume "kept p"
  then show ?thesis using Connect by (auto simp: kept_def items_Init Init_client)
next
  case (Enqueue e)
  assume "kept p"
  then show ?thesis using Enqueue by (auto simp: kept_def items_push enabled_push)
next
  case (Take i)
  assume p: "kept p"
  show ?thesis
  proof (cases "i < length (hands p) \<and> hands p ! i = None \<and> items (queue p) \<noteq> []")
    case True
    then obtain e q l where e: "items (queue p) = e # q" "pop (queue p) = Some (e, l)" "items l = q" "Client l = Client (queue p)"
      using pop_Some by (metis neq_Nil_conv)
    have "mset (in_hand ((hands p)[i := Some e])) = add_mset e (mset (in_hand (hands p)))"
      using in_hand_update [of i "hands p" "Some e"] True by simp
    moreover have "in_hand ((hands p)[i := Some e]) = [e] \<and> in_hand (hands p) = []" if "length (hands p) \<le> 1"
      using in_hand_one [OF that] True by auto
    ultimately show ?thesis using p True e Take by (auto simp: kept_def)
  next
    case False
    with p show ?thesis using Take by (auto simp: pop_None)
  qed
next
  case (Index i)
  assume p: "kept p"
  show ?thesis
  proof (cases "i < length (hands p) \<and> hands p ! i \<noteq> None")
    case True
    then obtain e where e: "hands p ! i = Some e" by blast
    have "index (queue p) e = ([(name, e)], \<not> ok e)" using p True by (intro index_sends) (auto simp: kept_def)
    moreover have "add_mset e (mset (in_hand ((hands p)[i := None]))) = mset (in_hand (hands p))"
      using in_hand_update [of i "hands p" None] True e by simp
    moreover have "in_hand ((hands p)[i := None]) = [] \<and> in_hand (hands p) = [e]" if "length (hands p) \<le> 1"
      using in_hand_one [OF that] True e by auto
    ultimately show ?thesis using p True e Index by (auto simp: kept_def)
  next
    case False
    with p show ?thesis using Index by auto
  qed
qed

lemma run_kept: "kept (pool_run push pop items index ts)"
proof -
  have "kept (fold (pool_step push pop items index) ts p)" if "kept p" for p
    using that by (induction ts arbitrary: p) (auto intro: step_kept)
  moreover have "kept new_pool" by (simp add: kept_def new_pool_def items_new)
  ultimately show ?thesis by (simp add: pool_run_def)
qed

end

interpretation event_workers: worker_queue enqueue work eventQueue "indexEvent answers" "''nginxray-http''" "answers ''nginxray-http''"
  for answers
  by unfold_locales (simp_all add: Init_enables_logging indexEvent_def new_logger_def)

interpretation detection_workers:
  worker_queue enqueueDetection workDetection detectionQueue "indexDetection answers" "''nginxray-security''" "answers ''nginxray-security''"
  for answers
  by unfold_locales (simp_all add: Init_enables_logging indexDetection_def new_logger_def)

section \<open>Delivery\<close>

text \<open>
  C33: however the sniffers' sends, the calls of Init, the workers' turns and the cluster's answers interleave,
  every message a queue accepted is sent to its index exactly once, in a worker's hand or still queued;
  never more than 4096 wait; the ones lost are those the cluster refused. With one worker, as in \<^verbatim>\<open>main\<close>, the
  order is kept.
\<close>

theorem workers_deliver:
  assumes "p = pool_run enqueue work eventQueue (indexEvent answers) ts"
  shows "mset (accepted p) = mset (map snd (sent p)) + mset (in_hand (hands p)) + mset (eventQueue (queue p)) \<and>
    length (eventQueue (queue p)) \<le> 4096 \<and>
    fst ` set (sent p) \<subseteq> {''nginxray-http''} \<and>
    refused p = filter (\<lambda>e. \<not> answers ''nginxray-http'' e) (map snd (sent p)) \<and>
    (length (hands p) \<le> 1 \<longrightarrow> accepted p = map snd (sent p) @ in_hand (hands p) @ eventQueue (queue p))"
  using event_workers.run_kept [of answers ts] unfolding event_workers.kept_def assms queue_capacity_def by blast

text \<open>The same of the detections.\<close>

lemma detection_workers_deliver:
  assumes "p = pool_run enqueueDetection workDetection detectionQueue (indexDetection answers) ts"
  shows "mset (accepted p) = mset (map snd (sent p)) + mset (in_hand (hands p)) + mset (detectionQueue (queue p)) \<and>
    length (detectionQueue (queue p)) \<le> 4096 \<and>
    fst ` set (sent p) \<subseteq> {''nginxray-security''} \<and>
    refused p = filter (\<lambda>e. \<not> answers ''nginxray-security'' e) (map snd (sent p)) \<and>
    (length (hands p) \<le> 1 \<longrightarrow> accepted p = map snd (sent p) @ in_hand (hands p) @ detectionQueue (queue p))"
  using detection_workers.run_kept [of answers ts] unfolding detection_workers.kept_def assms queue_capacity_def by blast

text \<open>With the two calls of Init of \<^verbatim>\<open>main_h3\<close>, two messages can be sent in the other order.\<close>

lemma two_workers_reorder:
  assumes "newTyped_ok C" "info_ok C"
  shows "map snd (sent (pool_run enqueue work eventQueue (indexEvent answers)
     [Connect C, Connect C, Enqueue a, Enqueue b, Take 0, Take 1, Index 1, Index 0])) = [b, a]"
  using assms
  by (simp add: pool_run_def new_pool_def new_logger_def Init_def enqueue_def work_def indexEvent_def queue_capacity_def
      split_beta Let_def)

definition sample_answers :: "bytes \<Rightarrow> HTTPEvent \<Rightarrow> bool" where
  "sample_answers index event = (ev_Status event = 200)"

definition cluster_up :: cluster where
  "cluster_up = \<lparr>newTyped_ok = True, info_ok = True, put_response = \<lambda>url b. Some (200, [])\<rparr>"

theorem workers_deliver_witness:
  "\<exists>p. p = pool_run enqueue work eventQueue (indexEvent sample_answers)
      [Connect cluster_up, Enqueue sample_event, Enqueue sample_event, Take 0, Index 0] \<and>
    length (hands p) = 1 \<and> sent p = [(''nginxray-http'', sample_event)] \<and> eventQueue (queue p) = [sample_event] \<and>
    accepted p = [sample_event, sample_event] \<and> refused p = []"
proof -
  define p where "p = pool_run enqueue work eventQueue (indexEvent sample_answers)
      [Connect cluster_up, Enqueue sample_event, Enqueue sample_event, Take 0, Index 0]"
  have run: "length (hands p) = 1" "in_hand (hands p) = []" "sent p = [(''nginxray-http'', sample_event)]"
    "eventQueue (queue p) = [sample_event]"
    by (simp_all add: p_def cluster_up_def pool_run_def new_pool_def new_logger_def Init_def enqueue_def work_def indexEvent_def
        queue_capacity_def split_beta Let_def)
  moreover have "sample_answers ''nginxray-http'' sample_event"
    by (simp add: sample_answers_def sample_event_def response_event_def)
  ultimately show ?thesis using workers_deliver [OF p_def] p_def by (intro exI [of _ p]) simp
qed

end
