(* ===== verification/Token_Race.thy ===== *)
theory Token_Race
  imports Rate_Limit
begin

text \<open>
  A bucket that packets on several CPUs share. The program runs once for each packet, at the same time on
  every CPU that receives one, and nothing makes its reads and writes of the bucket one: the test for a
  token and the decrement are different accesses. Here its body is cut at these two places; refilling
  is still one step, so every run here is one the kernel can have, and not the other way round.
\<close>

section \<open>The body in steps\<close>

datatype phase = Refilling | Testing | Taking | Finished verdict

fun cpu_step :: "u64 \<Rightarrow> phase \<Rightarrow> buckets \<Rightarrow> phase \<times> buckets" where
  "cpu_step now Refilling b = (Testing, refill now b)"
| "cpu_step now Testing b = (if tokens b = 0 then (Finished XDP_DROP, b) else (Taking, b))"
| "cpu_step now Taking b = (Finished XDP_PASS, b\<lparr>tokens := tokens b - 1\<rparr>)"
| "cpu_step now (Finished v) b = (Finished v, b)"

text \<open>A schedule names the CPU of each step; each CPU has one packet, with the time it read.\<close>

fun cpus_run :: "u64 list \<Rightarrow> nat list \<Rightarrow> phase list \<Rightarrow> buckets \<Rightarrow> phase list \<times> buckets" where
  "cpus_run nows [] ps b = (ps, b)"
| "cpus_run nows (i # schedule) ps b =
     (let (p, b') = cpu_step (nows ! i) (ps ! i) b in cpus_run nows schedule (ps[i := p]) b')"

text \<open>Packets one after the other.\<close>

fun take_tokens :: "u64 list \<Rightarrow> buckets \<Rightarrow> verdict list \<times> buckets" where
  "take_tokens [] b = ([], b)"
| "take_tokens (now # nows) b =
     (let (v, b') = take_token now (Some b); (vs, b'') = take_tokens nows b' in (v # vs, b''))"

section \<open>One at a time\<close>

text \<open>A packet whose steps are not interrupted is the program's body on the bucket.\<close>

lemma cpu_alone:
  assumes "i < length ps" "ps ! i = Refilling" "take_token (nows ! i) (Some b) = (v, b')"
  shows "cpus_run nows (i # i # i # schedule) ps b = cpus_run nows schedule (ps[i := Finished v]) b'"
  using assms by (auto simp: take_token_refill Let_def split: if_splits)

text \<open>A bucket with tokens, before the next is due, lets as many packets through.\<close>

lemma not_due_refill: "now - last_updated_at b < NS_PER_TOKEN \<Longrightarrow> refill now b = b"
  by (simp add: refill_def word_less_nat_alt word_eq_iff_unsigned unat_div)

lemma take_token_not_due:
  "now - last_updated_at b < NS_PER_TOKEN \<Longrightarrow>
     take_token now (Some b) = (if tokens b = 0 then (XDP_DROP, b) else (XDP_PASS, b\<lparr>tokens := tokens b - 1\<rparr>))"
  by (simp add: take_token_refill not_due_refill)

lemma take_tokens_pass:
  "list_all (\<lambda>t. t - last_updated_at b < NS_PER_TOKEN) ts \<Longrightarrow> length ts \<le> unat (tokens b) \<Longrightarrow>
     fst (take_tokens ts b) = replicate (length ts) XDP_PASS"
proof (induction ts arbitrary: b)
  case (Cons now ts)
  then have "tokens b \<noteq> 0" by auto
  moreover from this have "length ts \<le> unat (tokens b - 1)" using Cons.prems(2) by (simp add: unat_minus_one)
  ultimately show ?case using Cons by (simp add: take_token_not_due split_beta Let_def)
qed simp

lemma take_tokens_drop:
  "list_all (\<lambda>t. t - last_updated_at b < NS_PER_TOKEN) ts \<Longrightarrow> tokens b = 0 \<Longrightarrow>
     fst (take_tokens ts b) = replicate (length ts) XDP_DROP"
  by (induction ts arbitrary: b) (simp_all add: take_token_not_due split_beta Let_def)

text \<open>A client that keeps a token's time between its packets never finds its bucket empty.\<close>

fun spaced :: "u64 \<Rightarrow> u64 list \<Rightarrow> bool" where
  "spaced t [] \<longleftrightarrow> True"
| "spaced t (now # nows) \<longleftrightarrow> t \<le> now \<and> NS_PER_TOKEN \<le> now - t \<and> spaced now nows"

lemma spaced_packets_pass:
  "bucket_ok t b \<Longrightarrow> spaced t nows \<Longrightarrow> fst (take_tokens nows b) = replicate (length nows) XDP_PASS"
proof (induction nows arbitrary: t b)
  case (Cons now nows)
  obtain v b' where take: "take_token now (Some b) = (v, b')" by (cases "take_token now (Some b)")
  have later: "t \<le> now" "1000000 \<le> unat now - unat t"
    using Cons.prems(2) unat_sub [of t now] by (auto simp: rate_consts word_le_nat_alt)
  with Cons.prems(1) have ok: "bucket_ok now b" and "unat (last_updated_at b) \<le> unat t"
    by (auto simp: bucket_ok_def word_le_nat_alt)
  then have "0 < (unat now - unat (last_updated_at b)) div 1000000"
    using later(2) by (simp add: div_greater_zero_iff)
  with refill_nat(1) [OF ok] have "tokens (refill now b) \<noteq> 0" by auto
  with take have "v = XDP_PASS" by (simp add: take_token_refill Let_def)
  moreover have "bucket_ok now b'" by (rule take_token_ok(1) [OF ok order_refl take])
  ultimately show ?case using Cons take by (simp add: split_beta Let_def)
qed simp

section \<open>Two at a time\<close>

text \<open>
  C12: two packets that arrive together when one token is left, before the next is due: one after the other
  the second is dropped, and so are all that follow. But if both test for the token before either takes
  it, both pass, the count falls below zero to 2 ^ 64 - 1, and every packet until the next token is due passes.
\<close>

theorem token_race:
  assumes "tokens b = 1" "list_all (\<lambda>t. t - last_updated_at b < NS_PER_TOKEN) (now # now' # ts)" "length ts < 2 ^ 64"
  shows "fst (take_tokens (now # now' # ts) b) = XDP_PASS # XDP_DROP # replicate (length ts) XDP_DROP \<and>
    (\<exists>b'. cpus_run [now, now'] [0, 1, 0, 1, 0, 1] [Refilling, Refilling] b = ([Finished XDP_PASS, Finished XDP_PASS], b') \<and>
       fst (take_tokens ts b') = replicate (length ts) XDP_PASS)"
proof
  let ?b = "b\<lparr>tokens := 0\<rparr>"
  have "take_token now (Some b) = (XDP_PASS, ?b)" using assms(1,2) by (simp add: take_token_not_due)
  with take_tokens_drop [of ?b "now' # ts"] assms(2)
  show "fst (take_tokens (now # now' # ts) b) = XDP_PASS # XDP_DROP # replicate (length ts) XDP_DROP"
    by (simp only: take_tokens.simps(2) [of now]) (simp add: split_beta Let_def del: take_tokens.simps(2))
next
  let ?b = "b\<lparr>tokens := - 1\<rparr>"
  have "length ts \<le> unat (tokens ?b)"
    using assms(3) by (simp add: unsigned_minus_1_eq_mask mask_eq_exp_minus_1)
  with take_tokens_pass [of ?b ts] assms(2)
  have "fst (take_tokens ts ?b) = replicate (length ts) XDP_PASS" by simp
  moreover have "cpus_run [now, now'] [0, 1, 0, 1, 0, 1] [Refilling, Refilling] b = ([Finished XDP_PASS, Finished XDP_PASS], ?b)"
    using assms(1,2) by (simp add: not_due_refill)
  ultimately show "\<exists>b'. cpus_run [now, now'] [0, 1, 0, 1, 0, 1] [Refilling, Refilling] b =
      ([Finished XDP_PASS, Finished XDP_PASS], b') \<and> fst (take_tokens ts b') = replicate (length ts) XDP_PASS" by blast
qed

theorem token_race_witness:
  "fst (take_tokens [101, 102, 103] \<lparr>last_updated_at = 100, tokens = 1\<rparr>) = [XDP_PASS, XDP_DROP, XDP_DROP] \<and>
   (\<exists>b'. cpus_run [101, 102] [0, 1, 0, 1, 0, 1] [Refilling, Refilling] \<lparr>last_updated_at = 100, tokens = 1\<rparr> =
       ([Finished XDP_PASS, Finished XDP_PASS], b') \<and> fst (take_tokens [103] b') = [XDP_PASS])"
  using token_race [of "\<lparr>last_updated_at = 100, tokens = 1\<rparr>" 101 102 "[103]"] by (simp add: rate_consts)

end
