(* ===== verification/Paced_Client.thy ===== *)
theory Paced_Client
  imports Token_Race
begin

text \<open>
  What the packet filter owes a client that behaves: if it keeps the time of a token between its packets,
  none is dropped for its rate.
\<close>

section \<open>Pace\<close>

text \<open>The time of the client's last packet, if there was one, is kept.\<close>

fun paced :: "bytes \<Rightarrow> u64 option \<Rightarrow> kernel_event list \<Rightarrow> bool" where
  "paced ip prev [] \<longleftrightarrow> True"
| "paced ip prev (Packet now packet # es) \<longleftrightarrow>
     (if ipv4_from ip packet then
        pred_option (\<lambda>t. t \<le> now \<and> NS_PER_TOKEN \<le> now - t) prev \<and> paced ip (Some now) es
      else paced ip prev es)"
| "paced ip prev (e # es) \<longleftrightarrow> paced ip prev es"

text \<open>Whether every packet of the client passes that the blocklist does not drop.\<close>

fun served :: "lpm_lib \<Rightarrow> bytes \<Rightarrow> kernel_event list \<Rightarrow> xdp \<Rightarrow> bool" where
  "served K ip [] s \<longleftrightarrow> True"
| "served K ip (Packet now packet # es) s \<longleftrightarrow>
     (\<not> ipv4_from ip packet \<or> blocks K now ip s \<or> fst (xdp_filter K now packet s) = XDP_PASS) \<and>
     served K ip es (kernel_step K (Packet now packet) s)"
| "served K ip (e # es) s \<longleftrightarrow> served K ip es (kernel_step K e s)"

section \<open>Service\<close>

text \<open>A bucket that was last used a token's time ago or earlier has a token.\<close>

lemma due_token:
  assumes "bucket_ok t b" "t \<le> now" "NS_PER_TOKEN \<le> now - t"
  shows "fst (take_token now (Some b)) = XDP_PASS" "bucket_ok now (snd (take_token now (Some b)))"
proof -
  have "fst (take_tokens [now] b) = [XDP_PASS]"
    using spaced_packets_pass [OF assms(1), of "[now]"] assms(2,3) by simp
  then show "fst (take_token now (Some b)) = XDP_PASS" by (simp add: split_beta Let_def)
  have "bucket_ok now b" using assms(1,2) by (auto simp: bucket_ok_def)
  then show "bucket_ok now (snd (take_token now (Some b)))"
    using take_token_ok(1) by (metis order_refl prod.collapse)
qed

definition bucket_since :: "u64 option \<Rightarrow> buckets option \<Rightarrow> bool" where
  "bucket_since prev bucket \<longleftrightarrow> pred_option (\<lambda>b. prev \<noteq> None \<and> bucket_ok (the prev) b) bucket"

lemma due_bucket:
  assumes "bucket_since prev bucket" "pred_option (\<lambda>t. t \<le> now \<and> NS_PER_TOKEN \<le> now - t) prev"
  shows "fst (take_token now bucket) = XDP_PASS" "bucket_ok now (snd (take_token now bucket))"
proof -
  have "fst (take_token now bucket) = XDP_PASS \<and> bucket_ok now (snd (take_token now bucket))"
  proof (cases bucket)
    case None
    then show ?thesis by (simp add: take_token_def bucket_ok_def rate_consts)
  next
    case (Some b)
    with assms obtain t where "prev = Some t" "bucket_ok t b" "t \<le> now" "NS_PER_TOKEN \<le> now - t"
      by (auto simp: bucket_since_def)
    with due_token show ?thesis by (simp add: Some)
  qed
  then show "fst (take_token now bucket) = XDP_PASS" "bucket_ok now (snd (take_token now bucket))" by blast+
qed

lemma bucket_since_later: "bucket_since prev bucket \<Longrightarrow> pred_option (\<lambda>t. t \<le> now \<and> P t) prev \<Longrightarrow> bucket_since (Some now) bucket"
  by (cases bucket; cases prev) (auto simp: bucket_since_def bucket_ok_def)

lemma paced_served:
  assumes "length ip = 4" "bucket_since prev (ratelimit_per_ipv4 s (le32 ip))" "paced ip prev es"
  shows "served K ip es s"
  using assms
proof (induction K ip es s arbitrary: prev rule: served.induct)
  case (2 K ip now packet es s)
  let ?b = "ratelimit_per_ipv4 s (le32 ip)"
  show ?case
  proof (cases "ipv4_from ip packet")
    case True
    with "2.prems"(3) have gap: "pred_option (\<lambda>t. t \<le> now \<and> NS_PER_TOKEN \<le> now - t) prev" and es: "paced ip (Some now) es"
      by simp_all
    have "bucket_since (Some now) (ratelimit_per_ipv4 (snd (xdp_filter K now packet s)) (le32 ip))"
      using due_bucket(2) [OF "2.prems"(2) gap] bucket_since_later [OF "2.prems"(2) gap]
      by (auto simp: client_packet(2) [OF True] bucket_since_def)
    with "2.IH" [OF "2.prems"(1) _ es] due_bucket(1) [OF "2.prems"(2) gap] show ?thesis
      by (simp add: client_packet(1) [OF True])
  next
    case False
    with "2.IH" [of prev] "2.prems" show ?thesis by (simp add: other_packet)
  qed
qed simp_all

text \<open>
  C6: a client that lets a millisecond pass between its packets has every one of them accepted that the
  blocklist does not drop, whatever others send and whatever happens to the blocklist meanwhile.
\<close>

theorem paced_client_served:
  assumes "length ip = 4" "ratelimit_per_ipv4 s (le32 ip) = None" "paced ip None es"
  shows "served K ip es s"
  by (rule paced_served [OF assms(1) _ assms(3)]) (simp add: assms(2) bucket_since_def)

theorem paced_client_served_witness:
  "served sample_lpm sample_ip [Packet 5 sample_packet, Collect (sample_tick 6), Packet 1000005 sample_packet] empty_xdp"
  by (rule paced_client_served [OF length_sample_ip]) (simp_all add: empty_xdp_def rate_consts)

end
