(* ===== verification/Xdp_Ipv6.thy ===== *)
theory Xdp_Ipv6
  imports Xdp_Props
begin

text \<open>
  The packet filter for clients over IPv6: from the text of an address that the Go program blocks to the
  packets the kernel drops. The text of such addresses is net/netip's; what is needed of it is that it
  reads back, has a colon and no slash.
\<close>

section \<open>From the text to the key\<close>

definition reads_back :: "ip6_text \<Rightarrow> bytes \<Rightarrow> bool" where
  "reads_back T ip \<longleftrightarrow> length ip = 16 \<and> \<not> prefix mapped_prefix ip \<and> parse6 T (print6 T ip) = Some ip \<and>
     find (\<lambda>c. c = CHR ''.'' \<or> c = CHR '':'' \<or> c = CHR ''%'') (print6 T ip) = Some CHR '':'' \<and>
     CHR ''/'' \<notin> set (print6 T ip)"

lemma AddBlocked_ip6:
  assumes "reads_back T ip"
  shows "AddBlocked T now (IP_String T ip) duration reason =
    Put6 \<lparr>PrefixLen6 = 128, key_IP6 = ip\<rparr> \<lparr>ExpiresAtNs = now + duration, HitCount = 0, Reason = reason\<rparr>"
proof -
  have ip: "To4 ip = None" "length ip = 16" using assms by (simp_all add: reads_back_def To4_def)
  have colon: "find (\<lambda>c. c = CHR ''.'' \<or> c = CHR '':'' \<or> c = CHR ''%'') (print6 T ip) = Some CHR '':''"
    and slash: "CHR ''/'' \<notin> set (print6 T ip)" and parsed: "parse6 T (print6 T ip) = Some ip"
    using assms by (simp_all add: reads_back_def)
  have "CHR '':'' \<in> set (print6 T ip)" using colon by (auto simp: find_Some_iff in_set_conv_nth)
  then have "with_prefix_len (print6 T ip) = print6 T ip @ CHR ''/'' # ''128''"
    using slash by (simp add: with_prefix_len_def Contains_byte)
  moreover have "ParseAddr T (print6 T ip) = Some ip" using colon parsed by (simp add: ParseAddr_def)
  then have "ParseCIDR T (print6 T ip @ CHR ''/'' # ''128'') = Some (ip, 128)"
    using ParseCIDR_whole [OF slash, of T ip "''128''"] prefix_lens ip(2) by simp
  ultimately show ?thesis by (simp add: AddBlocked_def IP_String_def ip(1))
qed

section \<open>From the key to the packets\<close>

definition maps6_ok :: "filter_maps \<Rightarrow> bool" where
  "maps6_ok f \<longleftrightarrow> distinct (map fst (LpmMapIpv6 f)) \<and>
     list_all (\<lambda>(k, info). unat (PrefixLen6 k) \<le> 128 \<and> length (key_IP6 k) = 16) (LpmMapIpv6 f)"

text \<open>A key's address is an array of sixteen bytes.\<close>

fun spares6 :: "u64 \<Rightarrow> LPMKey6 \<Rightarrow> kernel_event \<Rightarrow> bool" where
  "spares6 exp k (Packet now packet) \<longleftrightarrow> True"
| "spares6 exp k (Collect t) \<longleftrightarrow> now6 t \<le> exp"
| "spares6 exp k (Request (Put6 k' info)) \<longleftrightarrow>
     length (key_IP6 k') = 16 \<and> (k' = k \<longrightarrow> ExpiresAtNs info = 0 \<or> exp \<le> ExpiresAtNs info)"
| "spares6 exp k (Request b) \<longleftrightarrow> True"

definition ipv6_from :: "bytes \<Rightarrow> bytes \<Rightarrow> bool" where
  "ipv6_from ip packet \<longleftrightarrow> 54 \<le> length packet \<and> h_proto packet = ETH_P_IPV6 \<and> saddr6 packet = ip"

lemma maps6_ok_entries: "maps6_ok f \<longleftrightarrow> entries_ok key6_ok (LpmMapIpv6 f)"
  by (simp add: maps6_ok_def entries_ok_def key6_ok_def)

lemma spares6_keeps: "spares6 exp k e \<Longrightarrow> keeps now6 put6 key6_ok exp k e"
  by (induction exp k e rule: spares6.induct) (auto simp: keeps_def put6_def key6_ok_def lasts_until_def)

lemma view6_inj: "view6 k = view6 k' \<Longrightarrow> k = k'"
  by (cases k; cases k') (simp add: view6_def word_unat_eq_iff)

lemma lookup6_exact:
  assumes "lpm_ok K" "entries_ok key6_ok m" "length ip = 16" "\<lparr>PrefixLen6 = 128, key_IP6 = ip\<rparr> \<in> fst ` set m"
  shows "lookup6 K m ip = Some \<lparr>PrefixLen6 = 128, key_IP6 = ip\<rparr>"
proof (rule lpm_trie.exact_match [OF _ assms(4)])
  show "lpm_trie view6 (lookup6 K)" using assms(1) by (simp add: lpm_ok_def)
  show "view6 \<lparr>PrefixLen6 = 128, key_IP6 = ip\<rparr> = (8 * length ip, ip)" by (simp add: view6_def assms(3))
  show "inj_on view6 (fst ` set m)" by (rule inj_onI) (rule view6_inj)
  fix k' assume "k' \<in> fst ` set m"
  with assms(2) have "key6_ok k'" by (auto simp: entries_ok_def list_all_iff)
  then show "fst (view6 k') \<le> 8 * length ip \<and> length (snd (view6 k')) = length ip"
    using assms(3) by (simp add: view6_def key6_ok_def)
qed

lemma filter_drops6:
  assumes "lpm_ok K" "entries_ok key6_ok (LpmMapIpv6 (block_maps s))" "length ip = 16"
    and "live_until exp \<lparr>PrefixLen6 = 128, key_IP6 = ip\<rparr> (LpmMapIpv6 (block_maps s))" "ipv6_from ip packet" "now \<le> exp"
  shows "fst (xdp_filter K now packet s) = XDP_DROP"
proof -
  let ?m = "LpmMapIpv6 (block_maps s)"
  have "lookup6 K ?m ip = Some \<lparr>PrefixLen6 = 128, key_IP6 = ip\<rparr>"
    by (rule lookup6_exact [OF assms(1-3) live_key [OF assms(4)]])
  with check_map_drops [OF assms(4,6)] have "fst (check_map (lookup6 K ?m ip) ?m now) = XDP_DROP" by simp
  moreover have "ETH_P_IPV6 \<noteq> ETH_P_IP" by (simp add: ETH_P_IP_def ETH_P_IPV6_def)
  ultimately show ?thesis using assms(5) by (simp add: xdp_filter_def ipv6_from_def Let_def split_beta)
qed

text \<open>
  C4: once the Go program has asked to block a client over IPv6, every IPv6 packet from its address is dropped
  up to the time the block expires, whatever the kernel does meanwhile, as long as no request shortens this
  block. The map must have room. That the text of the address reads back is what net/netip documents.
\<close>

theorem blocked_ipv6_client_dropped:
  assumes "reads_back T ip" "lpm_ok K" "maps6_ok (block_maps s)" "length (LpmMapIpv6 (block_maps s)) < max_entries"
    and "t \<le> t + d" "list_all (spares6 (t + d) \<lparr>PrefixLen6 = 128, key_IP6 = ip\<rparr>) es"
    and "ipv6_from ip packet" "now \<le> t + d"
  shows "fst (xdp_filter K now packet (kernel_run K (Request (AddBlocked T t (IP_String T ip) d reason) # es) s)) = XDP_DROP"
proof -
  let ?k = "\<lparr>PrefixLen6 = 128, key_IP6 = ip\<rparr>" and ?info = "\<lparr>ExpiresAtNs = t + d, HitCount = 0, Reason = reason\<rparr>"
  have ip: "length ip = 16" using assms(1) by (simp add: reads_back_def)
  have es: "list_all (keeps now6 put6 key6_ok (t + d) ?k) es"
    using assms(6) by (rule list.pred_mono_strong) (rule spares6_keeps)
  from map6.request_live [OF assms(3) [unfolded maps6_ok_entries] assms(4) _ _ _ es, of "Put6 ?k ?info" ?info K]
  show ?thesis
    unfolding AddBlocked_ip6 [OF assms(1)]
    by (intro filter_drops6 [OF assms(2) _ ip _ assms(7,8)]) (simp_all add: put6_def key6_ok_def lasts_until_def ip)
qed

definition sample_ip6 :: bytes where
  "sample_ip6 = [CHR 0x20, CHR 0x01, CHR 0x0D, CHR 0xB8] @ replicate 11 CHR 0x00 @ [CHR 0x01]"

definition sample_ip6_text :: ip6_text where
  "sample_ip6_text =
     \<lparr>print6 = \<lambda>ip. if ip = sample_ip6 then ''2001:db8::1'' else '':'' @ ip,
      parse6 = \<lambda>s. if s = ''2001:db8::1'' then Some sample_ip6 else None\<rparr>"

definition sample_packet6 :: bytes where
  "sample_packet6 = replicate 12 CHR 0x00 @ ETH_P_IPV6 @ replicate 8 CHR 0x00 @ sample_ip6 @ replicate 16 CHR 0x00"

lemma sample_reads_back: "reads_back sample_ip6_text sample_ip6"
  by (simp add: reads_back_def sample_ip6_text_def sample_ip6_def mapped_prefix_def numeral_eq_Suc)

lemma sample_packet6_from: "ipv6_from sample_ip6 sample_packet6"
  by (simp add: ipv6_from_def sample_packet6_def h_proto_def saddr6_def ETH_P_IPV6_def sample_ip6_def numeral_eq_Suc)

theorem blocked_ipv6_client_dropped_witness:
  "fst (xdp_filter sample_lpm 9 sample_packet6
     (kernel_run sample_lpm
        [Request (AddBlocked sample_ip6_text 7 (IP_String sample_ip6_text sample_ip6) 5 BLOCK_L7_DETECT), Packet 8 sample_packet6]
        empty_xdp)) = XDP_DROP"
  by (rule blocked_ipv6_client_dropped [OF sample_reads_back sample_lpm_ok])
    (simp_all add: empty_xdp_def maps6_ok_def max_entries_def sample_packet6_from)

end
