(* ===== verification/H3_End_To_End.thy ===== *)
theory H3_End_To_End
  imports H3_Probes_Props Xdp_Props
begin

text \<open>
  The whole way round over HTTP/3: nginx parses a client's header fields, the probes around its parser
  leave a sample for each, the Go program puts the request together, finds the attack and asks for a
  block, and the kernel drops the client's packets.
\<close>

section \<open>Calls of nginx's parser\<close>

text \<open>A call of ngx_http_v3_parse_headers with what both probes find: registers, memory, room and reserved memory.\<close>

record parse_call =
  pc_pid :: u64
  pc_conn :: u64
  pc_st :: u64
  pc_room :: room
  pc_memory :: memory
  pc_time :: u64
  pc_rc :: u32
  pc_slot :: "reqHeader option"

definition probe_call :: "parse_call \<Rightarrow> h3_maps \<Rightarrow> reqHeader option \<times> h3_maps" where
  "probe_call c m = ret_parse_headers (pc_memory c) (pc_pid c) (pc_time c) (pc_rc c) (pc_slot c)
     (entry_parse_headers (pc_room c) (pc_pid c) (pc_conn c) (pc_st c) m)"

fun probe_calls :: "parse_call list \<Rightarrow> h3_maps \<Rightarrow> reqHeader list" where
  "probe_calls [] m = []"
| "probe_calls (c # cs) m =
     (let (ev, m') = probe_call c m in (case ev of None \<Rightarrow> [] | Some ev \<Rightarrow> [ev]) @ probe_calls cs m')"

text \<open>A call that is captured, and what it finds in memory: a field and the client's address, or no field.\<close>

definition call_good :: "parse_call \<Rightarrow> bool" where
  "call_good c \<longleftrightarrow> memory_ok (pc_memory c) \<and> room_st (pc_room c) \<and> (sint (pc_rc c) = ngxOK \<or> sint (pc_rc c) = ngxDone) \<and>
     pc_slot c \<noteq> None \<and> pred_option rq_typed (pc_slot c)"

definition call_finds :: "bytes \<Rightarrow> parse_call \<Rightarrow> headerPair \<Rightarrow> bool" where
  "call_finds ip c h \<longleftrightarrow>
     string_at (pc_memory c) (pc_st c + OFF_NAME) (fst h) \<and> length (fst h) < 128 \<and>
     string_at (pc_memory c) (pc_st c + OFF_VALUE) (snd h) \<and> length (snd h) < 512 \<and>
     pc_conn c \<noteq> 0 \<and> string_at (pc_memory c) (pc_conn c + OFF_ADDR_TEXT) ip \<and> length ip < 64"

definition call_finds_none :: "parse_call \<Rightarrow> bool" where
  "call_finds_none c \<longleftrightarrow> word_at (pc_memory c) (pc_st c + OFF_NAME) = 0 \<and> word_at (pc_memory c) (pc_st c + OFF_VALUE) = 0"

section \<open>What is captured\<close>

definition captured_as :: "parse_call \<Rightarrow> reqHeader \<Rightarrow> bool" where
  "captured_as c ev \<longleftrightarrow> rq_typed ev \<and> rq_ok ev \<and> rq_ConnID ev = pc_conn c \<and> rq_Ret ev = pc_rc c \<and>
     (\<forall>ip h. call_finds ip c h \<longrightarrow> rq_field ev = h \<and> rq_addr ev = ip) \<and>
     (call_finds_none c \<longrightarrow> rq_NameLen ev = 0 \<and> rq_ValueLen ev = 0)"

lemma captured_field: "captured_as c ev \<Longrightarrow> call_finds ip c h \<Longrightarrow> rq_field ev = h \<and> rq_addr ev = ip"
  unfolding captured_as_def by blast

lemma short_string:
  assumes "string_at M p data" "length dst = 2 ^ k" "k \<le> 31" "length data < 2 ^ k"
    and "read_literal M dst (2 ^ k) (word_at M (p + 8)) (word_at M p) = (dst', l)"
  shows "take (unat l) dst' = data"
  using read_string [OF assms(1-3)] assms(4,5) by auto

lemma no_literal: "snd (read_literal M dst cap data 0) = 0"
  by (simp add: read_literal_def Let_def)

lemma entry_remembers: "room_st r \<Longrightarrow> \<exists>i. st_map (entry_parse_headers r p c st m) p = Some \<lparr>c_ptr = c, st_ptr = st, req_id = i\<rparr>"
  by (auto simp: entry_parse_headers_def put_if_def Let_def split_beta)

lemma call_captured:
  assumes "call_good c"
  shows "\<exists>ev. fst (probe_call c m) = Some ev \<and> captured_as c ev"
proof -
  let ?M = "pc_memory c"
  let ?m = "entry_parse_headers (pc_room c) (pc_pid c) (pc_conn c) (pc_st c) m"
  obtain ev0 where ev0: "pc_slot c = Some ev0" "rq_typed ev0" using assms by (auto simp: call_good_def)
  obtain i where st: "st_map ?m (pc_pid c) = Some \<lparr>c_ptr = pc_conn c, st_ptr = pc_st c, req_id = i\<rparr>"
    using entry_remembers assms by (fastforce simp: call_good_def)
  obtain name nl where name: "read_literal ?M (cleared (rq_Name ev0)) MAX_NAME
      (word_at ?M (pc_st c + OFF_NAME + 8)) (word_at ?M (pc_st c + OFF_NAME)) = (name, nl)" by fastforce
  obtain val vl where val: "read_literal ?M (cleared (rq_Value ev0)) MAX_VALUE
      (word_at ?M (pc_st c + OFF_VALUE + 8)) (word_at ?M (pc_st c + OFF_VALUE)) = (val, vl)" by fastforce
  obtain ip il where ip: "read_conn_ip ?M (cleared (rq_Ip ev0)) MAX_IP (pc_conn c) = (ip, il)" by fastforce
  define ev where "ev = \<lparr>rq_PidTgid = pc_pid c, rq_TsNs = pc_time c, rq_ConnID = pc_conn c, rq_ReqID = i, rq_Ret = pc_rc c,
    rq_NameLen = nl, rq_ValueLen = vl, rq_Name = name, rq_Value = val, rq_IpLen = il, rq_Ip = ip\<rparr>"
  have ev: "fst (probe_call c m) = Some ev"
    using assms st name val ip ev0(1)
    by (auto simp: probe_call_def ret_parse_headers_def call_good_def ev_def Let_def)
  have "pred_option (\<lambda>ev. rq_typed ev \<and> rq_ok ev) (fst (probe_call c m))"
    unfolding probe_call_def using assms by (intro ret_parse_headers_ok) (simp_all add: call_good_def)
  then have ok: "rq_typed ev" "rq_ok ev" by (simp_all add: ev)
  have "rq_field ev = h \<and> rq_addr ev = a" if "call_finds a c h" for a h
  proof -
    have "take (unat nl) name = fst h"
      by (rule short_string [of ?M "pc_st c + OFF_NAME" _ "cleared (rq_Name ev0)" 7])
        (use that ev0(2) name in \<open>simp_all add: call_finds_def rq_typed_def caps\<close>)
    moreover have "take (unat vl) val = snd h"
      by (rule short_string [of ?M "pc_st c + OFF_VALUE" _ "cleared (rq_Value ev0)" 9])
        (use that ev0(2) val in \<open>simp_all add: call_finds_def rq_typed_def caps\<close>)
    moreover have "take (unat il) ip = a"
      by (rule short_string [of ?M "pc_conn c + OFF_ADDR_TEXT" _ "cleared (rq_Ip ev0)" 6])
        (use that ev0(2) ip in \<open>simp_all add: call_finds_def rq_typed_def caps read_conn_ip_def\<close>)
    ultimately show ?thesis by (simp add: rq_field_def rq_addr_def ev_def)
  qed
  moreover have "rq_NameLen ev = 0 \<and> rq_ValueLen ev = 0" if "call_finds_none c"
    using that name val no_literal by (auto simp: call_finds_none_def ev_def) (metis snd_conv)+
  ultimately have "captured_as c ev" using ok by (simp add: captured_as_def, simp add: ev_def)
  with ev show ?thesis by blast
qed

lemma calls_captured: "list_all call_good cs \<Longrightarrow> list_all2 captured_as cs (probe_calls cs m)"
proof (induction cs arbitrary: m)
  case (Cons c cs)
  obtain ev m' where "probe_call c m = (Some ev, m')" "captured_as c ev"
    using call_captured [of c m] Cons.prems by (cases "probe_call c m") auto
  with Cons show ?case by simp
qed simp

section \<open>The Go program's loop over the samples\<close>

definition sample_of :: "reqHeader \<Rightarrow> ring_read" where
  "sample_of ev = Sample (encode_reqHeader ev)"

lemma sample_of_read:
  "rq_typed ev \<Longrightarrow> reqEventLoop L srv ((now, sample_of ev) # reads) s =
     Option.bind (handle_req L now srv ev s) (reqEventLoop L srv reads)"
  using decode_encode_reqHeader [of ev "[]"] by (simp add: reqEventLoop_def sample_of_def rq_typed_def)

text \<open>Samples of fields are collected and change nothing outside.\<close>

lemma fields_collected:
  assumes "length nows = length evs" "list_all (\<lambda>ev. rq_typed ev \<and> rq_ok ev \<and> sint (rq_Ret ev) = ngxOK) evs"
  shows "\<exists>s'. reqEventLoop L srv (zip nows (map sample_of evs) @ reads) s = reqEventLoop L srv reads s' \<and>
    h3_run L srv (map2 ReqEv nows evs) s s' \<and> h3_outside s' = h3_outside s"
  using assms
proof (induction nows evs arbitrary: s rule: list_induct2)
  case (Cons now nows ev evs)
  let ?s = "appendReqField (rq_ConnID ev) (rq_addr ev) (rq_PidTgid ev) (fst (rq_field ev)) (snd (rq_field ev)) s"
  have ev: "handle_req L now srv ev s = Some ?s" using Cons.prems by (simp add: handle_req_ok_event)
  obtain s' where s': "reqEventLoop L srv (zip nows (map sample_of evs) @ reads) ?s = reqEventLoop L srv reads s'"
    "h3_run L srv (map2 ReqEv nows evs) ?s s'" "h3_outside s' = h3_outside ?s"
    using Cons.IH [of ?s] Cons.prems by auto
  have "h3_outside ?s = h3_outside s" by (simp add: appendReqField_def Let_def)
  with s' ev Cons.prems show ?case
    by (intro exI [of _ s']) (auto simp: sample_of_read h3_run_Cons req_step_iff)
qed (simp add: h3_run_Nil)

lemma req_events_map2: "length nows = length evs \<Longrightarrow> req_events k (map2 ReqEv nows evs) = filter (\<lambda>ev. rq_ConnID ev = k) evs"
  by (induction nows evs rule: list_induct2) simp_all

text \<open>The fields of one connection among the samples of all calls.\<close>

lemma captured_fields:
  assumes "list_all2 captured_as cs evs" "list_all2 (call_finds ip) (filter (\<lambda>c. pc_conn c = k) cs) hs"
  shows "map rq_field (filter (\<lambda>ev. rq_ConnID ev = k) evs) = hs \<and>
    list_all (\<lambda>ev. rq_addr ev = ip) (filter (\<lambda>ev. rq_ConnID ev = k) evs)"
  using assms
proof (induction cs evs arbitrary: hs rule: list_all2_induct)
  case (Cons c cs ev evs)
  have id: "rq_ConnID ev = pc_conn c" using Cons.hyps by (simp add: captured_as_def)
  show ?case
  proof (cases "pc_conn c = k")
    case True
    with Cons.prems obtain h hs' where hs: "hs = h # hs'" "call_finds ip c h"
      "list_all2 (call_finds ip) (filter (\<lambda>c. pc_conn c = k) cs) hs'"
      by (auto simp: list_all2_Cons1)
    have "rq_field ev = h \<and> rq_addr ev = ip" by (rule captured_field [OF _ hs(2)]) (use Cons.hyps in simp)
    with Cons.IH [OF hs(3)] show ?thesis by (simp add: id True hs(1))
  next
    case False
    with Cons.IH [of hs] Cons.prems id show ?thesis by simp
  qed
qed simp

section \<open>From nginx's memory to the packets\<close>

text \<open>
  C2: nginx parses the header fields of a client's request over HTTP/3, in any mixture with fields of other
  connections, and the path of the request is written for a text with an attack: when nginx is done with
  it, the samples that the probes have left make the Go program ask for a block, and from when the kernel
  has stored it until it expires every IPv4 packet from the client's address is dropped.
\<close>

theorem h3_attack_ends_in_drops:
  assumes calls: "list_all call_good (cs @ [fin])" "list_all (\<lambda>c. sint (pc_rc c) = ngxOK) cs"
      "list_all2 (call_finds (print_quad ip)) (filter (\<lambda>c. pc_conn c = pc_conn fin) cs) hs" "hs \<noteq> []"
      "sint (pc_rc fin) = ngxDone" "call_finds_none fin"
    and clocks: "length nows = length cs" "monotonic now \<le> monotonic now + block_duration"
    and attack: "encodes t (req_Path (h3_buildRequest hs) @ '' '')" "pat \<in> set (sqlPatterns @ cmdPatterns @ xssPatterns)"
      "sublist pat t"
    and sniffer: "pendingReq s (pc_conn fin) = None" "Unmarshal (json_of L) [] = None"
      "0 \<le> score_of (w_clients (h3_outside s)) (print_quad ip)"
      "score_of (w_clients (h3_outside s)) (print_quad ip) + 90 < 2 ^ 63"
    and kernel: "lpm_ok K" "maps_ok (block_maps x)" "length (LpmMap (block_maps x)) < max_entries" "length ip = 4"
      "list_all (spares (monotonic now + block_duration) \<lparr>PrefixLen = 32, key_IP = le32 ip\<rparr>) es"
    and packet: "ipv4_from ip packet" "now' \<le> monotonic now + block_duration"
  shows "\<exists>s' b. reqEventLoop L srv (zip (nows @ [now]) (map sample_of (probe_calls (cs @ [fin]) m))) s = Some s' \<and>
    w_blocks (h3_outside s') = w_blocks (h3_outside s) @ [b] \<and>
    fst (xdp_filter K now' packet (kernel_run K (Request b # es) x)) = XDP_DROP"
proof -
  let ?k = "pc_conn fin"
  obtain evs end_ev where evs: "probe_calls (cs @ [fin]) m = evs @ [end_ev]" "list_all2 captured_as cs evs" "captured_as fin end_ev"
    using calls_captured [OF calls(1), of m] by (auto simp: list_all2_append1 list_all2_Cons1)
  have fields: "list_all (\<lambda>ev. rq_typed ev \<and> rq_ok ev \<and> sint (rq_Ret ev) = ngxOK) evs"
    using evs(2) calls(2) by (auto simp: list_all_length list_all2_conv_all_nth captured_as_def)
  have len: "length nows = length evs" using evs(2) clocks(1) by (simp add: list_all2_lengthD)
  from fields_collected [OF len fields] obtain s1 where s1:
    "reqEventLoop L srv (zip nows (map sample_of evs) @ [(now, sample_of end_ev)]) s = reqEventLoop L srv [(now, sample_of end_ev)] s1"
    "h3_run L srv (map2 ReqEv nows evs) s s1" "h3_outside s1 = h3_outside s" by blast
  define ours where "ours = filter (\<lambda>ev. rq_ConnID ev = ?k) evs"
  have ours: "req_events ?k (map2 ReqEv nows evs) = ours" "map rq_field ours = hs" "list_all (\<lambda>ev. rq_addr ev = print_quad ip) ours"
    using req_events_map2 [OF len] captured_fields [OF evs(2) calls(3)] by (simp_all add: ours_def)
  then have "ours \<noteq> []" using calls(4) by auto
  have "list_all (\<lambda>ev. rq_ok ev \<and> sint (rq_Ret ev) = ngxOK) ours" using fields by (auto simp: ours_def list_all_iff)
  moreover have end_ev: "rq_typed end_ev" "rq_ok end_ev" "sint (rq_Ret end_ev) = ngxDone" "rq_ConnID end_ev = ?k"
    "rq_NameLen end_ev = 0" "rq_ValueLen end_ev = 0"
    using evs(3) calls(5,6) by (simp_all add: captured_as_def)
  ultimately obtain s' where s': "handle_req L now srv end_ev s1 = Some s'" "h3_outside s' = request_out L now srv
      \<lparr>pq_fields = hs, pq_ip = rq_addr (hd ours), pq_pidTgid = rq_PidTgid (last ours)\<rparr> (h3_outside s1)"
    using request_assembled [OF s1(2) sniffer(1) _ end_ev(2-4), of ours now, unfolded ours(1,2) end_ev(5,6)] \<open>ours \<noteq> []\<close>
    by fastforce
  have addr: "rq_addr (hd ours) = print_quad ip" using ours(3) \<open>ours \<noteq> []\<close> by (cases ours) simp_all
  have blocked: "w_blocks (h3_outside s') = w_blocks (h3_outside s) @
      [Put4 \<lparr>PrefixLen = 32, key_IP = le32 ip\<rparr>
         \<lparr>ExpiresAtNs = monotonic now + block_duration, HitCount = 0, Reason = BLOCK_L7_DETECT\<rparr>]"
    unfolding s'(2) s1(3) addr
    by (rule request_out_blocked [OF sniffer(2) _ kernel(4) _ attack(2,3) sniffer(3,4)]) (simp_all add: attack(1))
  have request: "AddBlocked (ip6_of L) (monotonic now) (IP_String (ip6_of L) ip) block_duration BLOCK_L7_DETECT =
      Put4 \<lparr>PrefixLen = 32, key_IP = le32 ip\<rparr>
         \<lparr>ExpiresAtNs = monotonic now + block_duration, HitCount = 0, Reason = BLOCK_L7_DETECT\<rparr>"
    using AddBlocked_address [OF kernel(4)] by blast
  have "reqEventLoop L srv [(now, sample_of end_ev)] s1 = Some s'"
    unfolding sample_of_read [OF end_ev(1)] s'(1) by (simp add: reqEventLoop_def)
  moreover have "zip (nows @ [now]) (map sample_of (probe_calls (cs @ [fin]) m)) =
      zip nows (map sample_of evs) @ [(now, sample_of end_ev)]"
    using len by (simp add: evs(1))
  ultimately have loop: "reqEventLoop L srv (zip (nows @ [now]) (map sample_of (probe_calls (cs @ [fin]) m))) s = Some s'"
    using s1(1) by simp
  note block_request_drops [OF kernel(1-4) clocks(2) kernel(5) packet, of "ip6_of L" BLOCK_L7_DETECT, unfolded request]
  with loop blocked show ?thesis by blast
qed

text \<open>A request from 10.0.0.1 with a field of another connection's request in between.\<close>

definition field_memory :: "u64 \<Rightarrow> bytes \<Rightarrow> headerPair \<Rightarrow> memory" where
  "field_memory conn ip h =
     \<lparr>word_at = \<lambda>p.
        if p = 1000 + OFF_NAME then of_nat (length (fst h)) else if p = 1000 + OFF_NAME + 8 then 5000
        else if p = 1000 + OFF_VALUE then of_nat (length (snd h)) else if p = 1000 + OFF_VALUE + 8 then 6000
        else if p = conn + OFF_ADDR_TEXT then of_nat (length ip) else if p = conn + OFF_ADDR_TEXT + 8 then 7000 else 0,
      bytes_at = \<lambda>p n.
        (let data = (if p = 5000 then fst h else if p = 6000 then snd h else ip)
         in (take n data @ replicate (n - length data) CHR 0x00, True))\<rparr>"

definition field_call :: "u64 \<Rightarrow> u32 \<Rightarrow> bytes \<Rightarrow> headerPair \<Rightarrow> parse_call" where
  "field_call conn rc ip h =
     \<lparr>pc_pid = 7, pc_conn = conn, pc_st = 1000, pc_room = \<lparr>room_st = True, room_id = True, room_conn = True\<rparr>,
      pc_memory = field_memory conn ip h, pc_time = 9, pc_rc = rc, pc_slot = Some rq_slot\<rparr>"

lemma field_call_good: "sint rc = ngxOK \<or> sint rc = ngxDone \<Longrightarrow> call_good (field_call conn rc ip h)"
  by (auto simp: call_good_def field_call_def memory_ok_def field_memory_def rq_slot_def rq_typed_def Let_def min_def)

lemma field_call_finds:
  "conn \<in> {2000, 3000} \<Longrightarrow> length (fst h) < 128 \<Longrightarrow> length (snd h) < 512 \<Longrightarrow> length ip < 64 \<Longrightarrow>
     call_finds ip (field_call conn rc ip h) h"
  by (auto simp: call_finds_def field_call_def field_memory_def string_at_def list_all_iff OFF_NAME_def OFF_VALUE_def
      OFF_ADDR_TEXT_def simp del: upt_Suc)

lemma field_call_none: "call_finds_none (field_call conn rc ip ([], []))"
  by (simp add: call_finds_none_def field_call_def field_memory_def OFF_NAME_def OFF_VALUE_def)

definition attack_calls :: "parse_call list" where
  "attack_calls =
     [field_call 2000 0 (print_quad sample_ip) ('':method'', ''GET''), field_call 3000 0 ''10.0.0.9'' ('':path'', ''/''),
      field_call 2000 0 (print_quad sample_ip) ('':path'', ''/?q=Un%69on+Select'')]"

lemma attack_path:
  "encodes ''/?q=union select '' (req_Path (h3_buildRequest [('':method'', ''GET''), ('':path'', ''/?q=Un%69on+Select'')]) @ '' '')"
  using attack_facts(2) by (simp add: h3_buildRequest_def h3_request_field_def)

lemma attack_fields:
  "list_all2 (call_finds (print_quad sample_ip))
      (filter (\<lambda>c. pc_conn c = pc_conn (field_call 2000 (- 4) [] ([], []))) attack_calls)
      [('':method'', ''GET''), ('':path'', ''/?q=Un%69on+Select'')]"
proof -
  have ip: "length (print_quad sample_ip) < 64"
    by (simp add: print_quad_def sample_ip_def print_nat.simps)
  have "filter (\<lambda>c. pc_conn c = pc_conn (field_call 2000 (- 4) [] ([], []))) attack_calls =
      [field_call 2000 0 (print_quad sample_ip) ('':method'', ''GET''),
       field_call 2000 0 (print_quad sample_ip) ('':path'', ''/?q=Un%69on+Select'')]"
    by (simp add: attack_calls_def) (simp add: field_call_def)
  then show ?thesis by (simp add: field_call_finds ip)
qed

theorem h3_attack_ends_in_drops_witness:
  "\<exists>s' b. reqEventLoop sample_libs ([], 0) (zip ([sample_now, sample_now, sample_now] @ [sample_now])
       (map sample_of (probe_calls (attack_calls @ [field_call 2000 (- 4) [] ([], [])]) no_requests))) (new_h3 sample_world) = Some s' \<and>
     w_blocks (h3_outside s') = w_blocks (h3_outside (new_h3 sample_world)) @ [b] \<and>
     fst (xdp_filter sample_lpm 9 sample_packet (kernel_run sample_lpm (Request b # [Packet 8 sample_packet]) empty_xdp)) = XDP_DROP"
proof (rule h3_attack_ends_in_drops [OF _ _ attack_fields _ _ field_call_none _ _ attack_path attack_facts(3,4) _ _ _ _ sample_lpm_ok
      _ _ length_sample_ip _ sample_packet_from])
  show "list_all call_good (attack_calls @ [field_call 2000 (- 4) [] ([], [])])"
    by (simp add: attack_calls_def field_call_good ngxOK_def ngxDone_def)
  show "list_all (\<lambda>c. sint (pc_rc c) = ngxOK) attack_calls"
    by (simp add: attack_calls_def field_call_def ngxOK_def)
  show "length [sample_now, sample_now, sample_now] = length attack_calls" by (simp add: attack_calls_def)
  show "Unmarshal (json_of sample_libs) [] = None" by (simp add: sample_libs_def)
qed (simp_all add: field_call_def ngxDone_def new_h3_def sample_facts empty_xdp_def maps_ok_def max_entries_def block_duration_def)

end
