(* ===== verification/Spec2Isabelle.thy ===== *)
theory Spec2Isabelle
  imports Http1_Failures Http1_Roundtrip Http2_Delivery Masking_Props Sniffer_Secrets Startup End_To_End H3_Probes_Props Logger_Workers Token_Race Paced_Client Xdp_Ipv6 H3_End_To_End
begin

text \<open>
  A verification development of NginXray, an eBPF-based security agent for nginx. Probes in the kernel
  capture the plaintext that nginx reads and writes through its TLS library, and the header fields of its
  HTTP/3 code. A Go program, \<^verbatim>\<open>src/internal\<close>, puts the HTTP messages together again, looks for attacks in
  the requests, blocks the clients that send them in an XDP filter, masks secrets and logs everything to
  Elasticsearch. Both are modelled: the Go program, and the BPF programs under \<^verbatim>\<open>src/bpf\<close> that feed it.

  \<^bold>\<open>How the parts interact.\<close> \<^verbatim>\<open>main\<close> runs the TLS sniffer: every captured read or write goes to its connection,
  whose protocol is detected from its first bytes, and then to the HTTP/1.x or the HTTP/2 parser. Every
  request that comes out is analysed, decided on (the policy keeps a score per client), possibly
  blocked, decompressed, masked and queued for the log; every response is decompressed, masked and
  queued. \<^verbatim>\<open>main_h3\<close> runs, beside it, the HTTP/3 sniffer, which puts messages together from header fields and
  shares policy, blocklist and logger with it. The events that both receive are what the probes of
  \<^verbatim>\<open>ssl_hook.bpf.c\<close> and \<^verbatim>\<open>http3_headers.bpf.c\<close> put on their ring buffers; the filter's maps, which blocking fills,
  are what \<^verbatim>\<open>xdp_filter.bpf.c\<close> looks every packet's source up in.

  \<^bold>\<open>Theories.\<close>
  \<^item> \<open>Prelude\<close>: type names (\<open>bytes\<close> is \<open>string\<close>), collections of hints, lemmas on lists, characters and
    association lists. \<open>GoLib\<close>, \<open>GoText\<close>: what the sources use of Go and its library: 64-bit wrap-around,
    slicing with its panic, searching and splitting, TrimSpace, ToLower, Sscanf, QueryUnescape. \<open>Tables\<close>: the
    interface of a map whose size is read, as a locale, with association lists as its model. \<open>Parsers\<close>: the
    outcome of a parser (a message and the rest, not yet, or a panic), the loop around it, and the locales
    \<open>stream_parser\<close> and \<open>stable_parser\<close> with what every such loop guarantees.
  \<^item> \<open>Http1\<close> (\<^verbatim>\<open>parser/http1.go\<close>): ParseRequest and ParseResponse. \<open>Http1_Failures\<close>: when they panic, when a
    connection is stuck, that the loops end. \<open>Http1_Roundtrip\<close>: printed requests parse to themselves.
  \<^item> \<open>Http2\<close> (\<^verbatim>\<open>parser/http2.go\<close>): a direction of a connection (\<open>h2Direction\<close>: buffer, header block under way,
    streams, queue of finished ones, poison) and every frame handler. \<open>Http2_Safety\<close>, \<open>Http2_Frames\<close>,
    \<open>Http2_Queue\<close>, \<open>Http2_Reader\<close>, \<open>Http2_Messages\<close>, \<open>Http2_Delivery\<close>: its limits, frames on the wire, runs of calls,
    segmentation, continuation, delivery and isolation of streams. \<open>Header_Fields\<close>: the locale of the four
    functions that turn header fields into a header map.
  \<^item> \<open>Analysis\<close> (\<^verbatim>\<open>analysis/analyse.go\<close>): the pattern lists, detectors (a locale, interpreted for each of the
    four) and AnalyseReq. \<open>Analysis_Encodings\<close>: ways to write a request. \<open>Policy\<close> (\<^verbatim>\<open>analysis/policy.go\<close>): Decide.
  \<^item> \<open>Decompress\<close> (\<^verbatim>\<open>parser/decompress.go\<close>). \<open>Regexp\<close>: leftmost-first matching and replacement as Go's regexp
    does it, for the operators the program's expressions have. \<open>Masking\<close>, \<open>Masking_Props\<close> (\<^verbatim>\<open>masking/masking.go\<close>).
  \<^item> \<open>Blocklist\<close>, \<open>Blocklist_Props\<close> (\<^verbatim>\<open>filter/filter.go\<close>): from the text of an address to the key in the kernel's
    map, and the garbage collector. \<open>Logger\<close> (\<^verbatim>\<open>logger/logger.go\<close>): events, bounded queues, workers.
    \<open>Logger_Client\<close> (\<^verbatim>\<open>logger/client.go\<close>): Init and the upload of the index templates. \<open>Logger_Workers\<close>: the
    workers of both queues, and what they send to the cluster.
  \<^item> \<open>Sniffer\<close> (\<^verbatim>\<open>sniffer/sniffer.go\<close>): \<open>handle_event\<close> is one turn of the event loop, \<open>sniff\<close> the loop; \<open>world\<close> is what
    lies outside the connections. \<open>Sniffer_Props\<close>: consistency and panics; \<open>Sniffer_Effects\<close>: isolation and
    the locale of facts about the world that every step keeps; \<open>Sniffer_Attack\<close>: from an attack's bytes
    to the blocklist.
  \<^item> \<open>Http3_Table\<close>, \<open>Http3\<close>, \<open>Http3_Props\<close>, \<open>Http3_Attack\<close> (\<^verbatim>\<open>http3_sniffer/http3_sniffer.go\<close>): the QPACK tables and their
    refinement of RFC 9204; pending requests and responses; the goroutines' critical sections as the step
    relation \<open>h3_step\<close>. \<open>Program\<close> (\<^verbatim>\<open>main_h3/main_h3.go\<close>): both sniffers on one world, as a step relation.
    \<open>Samples\<close>: how the loops decode the raw samples of the ring buffers into the events of the other theories.
    \<open>Terminal\<close>: the messages as they are printed. \<open>Sniffer_Secrets\<close>: what is logged does not depend on masked
    headers. \<open>Startup\<close> (\<^verbatim>\<open>main/main.go\<close>, \<^verbatim>\<open>main_h3/main_h3.go\<close> and the beginnings of the packages): finding libssl, and loading and
    attaching: while \<^verbatim>\<open>main\<close> reads, every program of \<^verbatim>\<open>ssl_hook.bpf.c\<close> is attached where its SEC line says; on a return or a
    panic every handle is closed, while \<^verbatim>\<open>log.Fatalf\<close> runs no deferred call and leaves what was opened to the kernel.
  \<^item> \<open>Xdp\<close> (\<^verbatim>\<open>xdp_filter.bpf.c\<close>): the verdict on a packet, with the kernel's lookup of prefixes behind the
    locale \<open>lpm_trie\<close>. \<open>Block_Map\<close>: what the two maps of blocked prefixes have in common, as a locale interpreted
    for both; \<open>Xdp_Props\<close> for IPv4, \<open>Xdp_Ipv6\<close> for IPv6. \<open>Rate_Limit\<close>, \<open>Paced_Client\<close>: what the token buckets let
    through at most and at least; \<open>Token_Race\<close>: two CPUs on one bucket.
  \<^item> \<open>Ssl_Probes\<close>, \<open>Ssl_Probes_Props\<close> (\<^verbatim>\<open>ssl_hook.bpf.c\<close>): accept, entries and exits of the TLS reads and writes.
    \<open>H3_Probes\<close>, \<open>H3_Probes_Props\<close> (\<^verbatim>\<open>http3_headers.bpf.c\<close>): the header fields of HTTP/3 as they are captured.
    \<open>End_To_End\<close>, \<open>H3_End_To_End\<close>: from what nginx reads of a client to its dropped packets, for both.

  \<^bold>\<open>Modelling.\<close> Go strings and byte slices are lists of bytes; integers of a fixed width are words, and Go's
  int is an \<open>int\<close> with its wrap-around written out (\<open>wrap64\<close>) where a number comes from outside. A panic is a
  value: \<open>Panic\<close> of an outcome, or \<open>None\<close>. A map is a partial function, or an association list where its size
  or order matters; the order of Go's map iteration is an argument (\<open>visits\<close>). Time is an argument. Loops are
  recursive functions with a measure; the loop around a parser, which a parser could keep running for
  ever, is a partial function whose result is proved to exist (\<open>parse_all\<close>), so no fuel is used.

  \<^bold>\<open>Parameters.\<close> What is not under \<^verbatim>\<open>src\<close> is an argument of the definitions that use it: the HPACK decoder (\<open>hpack\<close>, with
  a state of any type), the four decompressors (\<open>decoders\<close>), encoding/json (\<open>json_lib\<close>), the IPv6 half of
  net/netip (\<open>ip6_text\<close>), the case mapping of text that is not ASCII (\<open>uni\<close>), the lookup in the kernel's tries
  (\<open>lpm_lib\<close>), the memory of nginx that the probes read, and which files, processes and attachments the host has.
  Hypotheses about them are the documented behaviour: io.LimitReader's bound, that written JSON reads back, that
  empty text is no JSON, that a trie finds the longest prefix that matches, that the text of an IPv6 address reads
  back.

  \<^bold>\<open>What the theorems show.\<close> End to end, that a client whose attack nginx reads, over TLS or HTTP/3, has its packets
  dropped until the block ends, that an attack's bytes or header fields, however encoded, end in a blocklist entry for exactly
  the client's address, and that whatever is captured and however the sniffers interleave, the
  headers and bodies of messages are logged and printed only masked, detections are only of known attacks, and only
  detected clients are blocked. Paths are not masked, neither in messages nor in detections. For the parts: that samples of the probes
  never make a sniffer panic as they are decoded; that two runs that differ in the values of sensitive headers
  log the same; that a client passes no more packets than its rate and burst allow, from its first packet and, with
  one more, between any two readings of the clock, and is served if it keeps its pace; how \<^verbatim>\<open>main\<close> ends and what is open then; round trips of printed messages and frames; that segmentation into reads,
  frames and continuations does not matter; limits; permanence of poison; isolation of streams and connections;
  refinement of the QPACK tables; that pending responses and blocks end when they should. And what goes
  wrong: the sizes that make the HTTP/1.x parser panic (the only panics there are), connections that are stuck
  for good, encodings that hide any text from the detectors, mapped addresses that are never blocked, header values
  that the HTTP/3 probes lose, clients whose address the probes do not know, entries that have run out and hide a
  block of a wider prefix, token counts that two CPUs take below zero, and a race that logs a response's field under a wrong name.

  \<^bold>\<open>Not modelled.\<close> How the kernel loads and attaches programs, and its side of ring buffers, are input and output
  (\<open>Startup\<close> has which calls are made and undone); so is the HTTP transport to Elasticsearch, whose answers are a
  parameter (\<open>cluster\<close>). The hash maps of the BPF programs never evict (the kernel's LRU maps do when they are
  full), and but for \<open>Token_Race\<close> a BPF program runs without another one between its steps.
  The steps of the two programs are taken one at a time: the maps that the code shares without a lock
  are modelled as if it had one.
\<close>

end
